(* ===== verification/Prelude.thy ===== *)
theory Prelude
  imports
    Main
    "HOL-Library.Word"
    "HOL-Library.List_Lexorder"
    "HOL-Library.Char_ord"
begin

text \<open>
  Shared vocabulary of the development: the integer widths the Rust code uses, the
  error-and-state monad in which every fallible operation is written (Rust's \<open>Result\<close>
  with the \<open>?\<close> operator, over an explicit state), the calculus that carries a
  transition relation through such programs, decimal numerals, and a few list lemmas.
  Strings are \<open>string\<close> values read as UTF-8 byte sequences, which is what Rust's
  \<open>String::len\<close>, its ordering and SQLite's BINARY collation count and compare.
\<close>

type_synonym u64 = "64 word"
type_synonym u32 = "32 word"

text \<open>Facts that decompose a successful run of a monadic program.\<close>

named_theorems run_ok

section \<open>The error-and-state monad\<close>

type_synonym ('s, 'e, 'a) em = "'s \<Rightarrow> ('e + 'a) \<times> 's"

definition returnE :: "'a \<Rightarrow> ('s, 'e, 'a) em" where
  "returnE x s = (Inr x, s)"

definition failE :: "'e \<Rightarrow> ('s, 'e, 'a) em" where
  "failE e s = (Inl e, s)"

text \<open>\<open>bindE m (\<lambda>x. k)\<close> is Rust's \<open>let x = m?; k\<close>.\<close>

definition bindE :: "('s, 'e, 'a) em \<Rightarrow> ('a \<Rightarrow> ('s, 'e, 'b) em) \<Rightarrow> ('s, 'e, 'b) em" where
  "bindE m f s = (case m s of (Inl e, s') \<Rightarrow> (Inl e, s') | (Inr x, s') \<Rightarrow> f x s')"

text \<open>\<open>handleE m on_err on_ok\<close> is \<open>match m { Err(e) => .., Ok(x) => .. }\<close>.\<close>

definition handleE ::
  "('s, 'e, 'a) em \<Rightarrow> ('e \<Rightarrow> ('s, 'f, 'b) em) \<Rightarrow> ('a \<Rightarrow> ('s, 'f, 'b) em) \<Rightarrow> ('s, 'f, 'b) em" where
  "handleE m h f s = (case m s of (Inl e, s') \<Rightarrow> h e s' | (Inr x, s') \<Rightarrow> f x s')"

definition getE :: "('s \<Rightarrow> 'a) \<Rightarrow> ('s, 'e, 'a) em" where
  "getE f s = (Inr (f s), s)"

definition modifyE :: "('s \<Rightarrow> 's) \<Rightarrow> ('s, 'e, unit) em" where
  "modifyE f s = (Inr (), f s)"

text \<open>A \<open>for\<close> loop whose body may return early with an error.\<close>

fun eachE :: "('x \<Rightarrow> ('s, 'e, unit) em) \<Rightarrow> 'x list \<Rightarrow> ('s, 'e, unit) em" where
  "eachE f [] = returnE ()"
| "eachE f (x # xs) = bindE (f x) (\<lambda>_. eachE f xs)"

text \<open>The same loop, collecting what each pass yields.\<close>

fun mapE :: "('x \<Rightarrow> ('s, 'e, 'y) em) \<Rightarrow> 'x list \<Rightarrow> ('s, 'e, 'y list) em" where
  "mapE f [] = returnE []"
| "mapE f (x # xs) = bindE (f x) (\<lambda>y. bindE (mapE f xs) (\<lambda>ys. returnE (y # ys)))"

lemma returnE_ok [run_ok]: "returnE x s = (r, s') \<longleftrightarrow> r = Inr x \<and> s' = s"
  by (auto simp: returnE_def)

lemma failE_ok [run_ok]: "failE e s = (r, s') \<longleftrightarrow> r = Inl e \<and> s' = s"
  by (auto simp: failE_def)

lemma getE_ok [run_ok]: "getE f s = (r, s') \<longleftrightarrow> r = Inr (f s) \<and> s' = s"
  by (auto simp: getE_def)

lemma modifyE_ok [run_ok]: "modifyE f s = (r, s') \<longleftrightarrow> r = Inr () \<and> s' = f s"
  by (auto simp: modifyE_def)

lemma bindE_ok [run_ok]:
  "bindE m f s = (Inr y, s'') \<longleftrightarrow> (\<exists>x s'. m s = (Inr x, s') \<and> f x s' = (Inr y, s''))"
  by (auto simp: bindE_def split: prod.splits sum.splits)

lemma bindE_err:
  "bindE m f s = (Inl e, s'') \<longleftrightarrow>
    m s = (Inl e, s'') \<or> (\<exists>x s'. m s = (Inr x, s') \<and> f x s' = (Inl e, s''))"
  by (auto simp: bindE_def split: prod.splits sum.splits)

lemma bindE_simps [simp]:
  "m s = (Inr x, s') \<Longrightarrow> bindE m f s = f x s'"
  "m s = (Inl e, s') \<Longrightarrow> bindE m f s = (Inl e, s')"
  by (auto simp: bindE_def)

lemma bindE_basic [simp]:
  "bindE (returnE x) f = f x"
  "bindE (failE e) f = failE e"
  by (auto simp: bindE_def returnE_def failE_def)

lemma handleE_simps [simp]:
  "m s = (Inr x, s') \<Longrightarrow> handleE m h f s = f x s'"
  "m s = (Inl e, s') \<Longrightarrow> handleE m h f s = h e s'"
  by (auto simp: handleE_def)

lemma handleE_ok:
  "handleE m h f s = (r, s'') \<longleftrightarrow>
    (\<exists>e s'. m s = (Inl e, s') \<and> h e s' = (r, s'')) \<or> (\<exists>x s'. m s = (Inr x, s') \<and> f x s' = (r, s''))"
  by (auto simp: handleE_def split: prod.splits sum.splits)

section \<open>Relations kept by a program\<close>

text \<open>
  \<open>within R m\<close>: whatever the outcome of \<open>m\<close>, error or not, the state it leaves is
  related by \<open>R\<close> to the state it found. For a preorder \<open>R\<close> this composes, which is the
  contract of locale \<open>frame\<close>: an invariant (\<open>\<lambda>s s'. I s \<longrightarrow> I s'\<close>), a component
  that does not change (\<open>\<lambda>s s'. f s' = f s\<close>) and a quantity that only grows are all
  instances of it.
\<close>

definition within :: "('s \<Rightarrow> 's \<Rightarrow> bool) \<Rightarrow> ('s, 'e, 'a) em \<Rightarrow> bool" where
  "within R m \<longleftrightarrow> (\<forall>s. R s (snd (m s)))"

lemma withinI: "(\<And>s r s'. m s = (r, s') \<Longrightarrow> R s s') \<Longrightarrow> within R m"
  unfolding within_def by (metis prod.collapse)

lemma withinD: "within R m \<Longrightarrow> m s = (r, s') \<Longrightarrow> R s s'"
  unfolding within_def by (metis snd_conv)

lemma within_mono: "within R m \<Longrightarrow> (\<And>s s'. R s s' \<Longrightarrow> R' s s') \<Longrightarrow> within R' m"
  unfolding within_def by blast

text \<open>Branching keeps a relation when every branch does.\<close>

lemma within_if: "within R m \<Longrightarrow> within R n \<Longrightarrow> within R (if b then m else n)"
  by simp

lemma within_option: "within R m \<Longrightarrow> (\<And>x. within R (f x)) \<Longrightarrow> within R (case z of None \<Rightarrow> m | Some x \<Rightarrow> f x)"
  by (simp split: option.split)

lemma within_prod: "(\<And>x y. within R (f x y)) \<Longrightarrow> within R (case z of (x, y) \<Rightarrow> f x y)"
  by (simp split: prod.split)

lemmas within_branches = within_if within_option within_prod

locale frame =
  fixes R :: "'s \<Rightarrow> 's \<Rightarrow> bool"
  assumes frame_refl: "R s s"
    and frame_trans: "R s s' \<Longrightarrow> R s' s'' \<Longrightarrow> R s s''"
begin

lemma within_return: "within R (returnE x)"
  by (simp add: within_def returnE_def frame_refl)

lemma within_fail: "within R (failE e)"
  by (simp add: within_def failE_def frame_refl)

lemma within_get: "within R (getE f)"
  by (simp add: within_def getE_def frame_refl)

lemma within_modify: "(\<And>s. R s (f s)) \<Longrightarrow> within R (modifyE f)"
  by (simp add: within_def modifyE_def)

lemma within_bind:
  assumes "within R m" and "\<And>x. within R (f x)"
  shows "within R (bindE m f)"
proof (rule withinI)
  fix s r s'' assume run: "bindE m f s = (r, s'')"
  show "R s s''"
  proof (cases "m s")
    case (Pair q s')
    with assms(1) have step: "R s s'" by (blast dest: withinD)
    show ?thesis
    proof (cases q)
      case (Inl e)
      with Pair run step show ?thesis by simp
    next
      case (Inr x)
      with Pair run have "f x s' = (r, s'')" by simp
      with assms(2) have "R s' s''" by (blast dest: withinD)
      with step show ?thesis by (rule frame_trans)
    qed
  qed
qed

lemma within_handle:
  assumes "within R m" and "\<And>e. within R (h e)" and "\<And>x. within R (f x)"
  shows "within R (handleE m h f)"
proof (rule withinI)
  fix s r s'' assume run: "handleE m h f s = (r, s'')"
  obtain q s' where m: "m s = (q, s')" by (cases "m s")
  with assms(1) have step: "R s s'" by (blast dest: withinD)
  from run m have "(\<exists>e. h e s' = (r, s'')) \<or> (\<exists>x. f x s' = (r, s''))"
    by (cases q) auto
  with assms(2,3) have "R s' s''" by (blast dest: withinD)
  with step show "R s s''" by (rule frame_trans)
qed

lemma within_each: "(\<And>x. within R (f x)) \<Longrightarrow> within R (eachE f xs)"
  by (induction xs) (auto intro: within_return within_bind)

lemma within_mapE: "(\<And>x. within R (f x)) \<Longrightarrow> within R (mapE f xs)"
  by (induction xs) (auto intro!: within_return within_bind)

lemmas within_rules =
  within_return within_fail within_get within_bind within_handle within_each within_mapE

end

text \<open>The two instances used throughout: an invariant, and an unchanged observation.\<close>

abbreviation keeps :: "('s \<Rightarrow> bool) \<Rightarrow> ('s, 'e, 'a) em \<Rightarrow> bool" where
  "keeps I \<equiv> within (\<lambda>s s'. I s \<longrightarrow> I s')"

abbreviation same :: "('s \<Rightarrow> 'b) \<Rightarrow> ('s, 'e, 'a) em \<Rightarrow> bool" where
  "same f \<equiv> within (\<lambda>s s'. f s' = f s)"

interpretation kp: frame "\<lambda>s s'. I s \<longrightarrow> I s'" for I :: "'s \<Rightarrow> bool"
  by unfold_locales auto

interpretation sm: frame "\<lambda>s s'. f s' = f s" for f :: "'s \<Rightarrow> 'b"
  by unfold_locales auto

lemma keepsD: "keeps I m \<Longrightarrow> I s \<Longrightarrow> m s = (r, s') \<Longrightarrow> I s'"
  by (blast dest: withinD)

section \<open>Reachable states\<close>

text \<open>
  A labelled transition system as an initial-state predicate and a step relation. The
  interface \<open>safety\<close> is what an invariant proof has to supply; its lemma is used by
  every component that runs as a state machine.
\<close>

inductive reachable :: "('s \<Rightarrow> bool) \<Rightarrow> ('s \<Rightarrow> 'l \<Rightarrow> 's \<Rightarrow> bool) \<Rightarrow> 's \<Rightarrow> bool"
  for init step where
  reach_init: "init s \<Longrightarrow> reachable init step s"
| reach_step: "reachable init step s \<Longrightarrow> step s l s' \<Longrightarrow> reachable init step s'"

locale safety =
  fixes init :: "'s \<Rightarrow> bool"
    and step :: "'s \<Rightarrow> 'l \<Rightarrow> 's \<Rightarrow> bool"
    and inv :: "'s \<Rightarrow> bool"
  assumes inv_init: "init s \<Longrightarrow> inv s"
    and inv_step: "inv s \<Longrightarrow> step s l s' \<Longrightarrow> inv s'"
begin

lemma reachable_inv: "reachable init step s \<Longrightarrow> inv s"
  by (induction rule: reachable.induct) (auto intro: inv_init inv_step)

end

section \<open>Decimal numerals\<close>

text \<open>\<open>{}\<close> of an unsigned integer, and \<open>str::parse\<close> of one (an optional leading plus
  sign, then at least one digit, no overflow).\<close>

definition digit_char :: "nat \<Rightarrow> char" where
  "digit_char d = char_of (48 + d)"

fun show_nat :: "nat \<Rightarrow> string" where
  "show_nat n = (if n < 10 then [digit_char n] else show_nat (n div 10) @ [digit_char (n mod 10)])"

declare show_nat.simps [simp del]

definition is_digit :: "char \<Rightarrow> bool" where
  "is_digit c \<longleftrightarrow> CHR ''0'' \<le> c \<and> c \<le> CHR ''9''"

definition digit_val :: "char \<Rightarrow> nat" where
  "digit_val c = of_char c - 48"

fun digits_val :: "nat \<Rightarrow> string \<Rightarrow> nat" where
  "digits_val acc [] = acc"
| "digits_val acc (c # cs) = digits_val (10 * acc + digit_val c) cs"

definition strip_plus :: "string \<Rightarrow> string" where
  "strip_plus s = (case s of c # cs \<Rightarrow> if c = CHR ''+'' then cs else s | [] \<Rightarrow> s)"

definition parse_unsigned :: "nat \<Rightarrow> string \<Rightarrow> nat option" where
  "parse_unsigned bound s =
     (let ds = strip_plus s in
      if ds = [] \<or> \<not> list_all is_digit ds then None
      else let n = digits_val 0 ds in if n < bound then Some n else None)"

lemma digits_val_append: "digits_val acc (xs @ ys) = digits_val (digits_val acc xs) ys"
  by (induction xs arbitrary: acc) auto

lemma of_char_digit: "d < 10 \<Longrightarrow> of_char (digit_char d) = 48 + d"
  by (simp add: digit_char_def)

lemma is_digit_char: "d < 10 \<Longrightarrow> is_digit (digit_char d)"
  by (simp add: is_digit_def less_eq_char_def of_char_digit)

lemma digit_val_char: "d < 10 \<Longrightarrow> digit_val (digit_char d) = d"
  by (simp add: digit_val_def of_char_digit)

lemma show_nat_digits: "list_all is_digit (show_nat n)"
proof (induction n rule: show_nat.induct)
  case (1 n)
  then show ?case by (subst show_nat.simps) (auto simp: is_digit_char)
qed

lemma show_nat_nonempty: "show_nat n \<noteq> []"
  by (subst show_nat.simps) simp

lemma digits_val_show: "digits_val 0 (show_nat n) = n"
proof (induction n rule: show_nat.induct)
  case (1 n)
  then show ?case by (subst show_nat.simps) (auto simp: digits_val_append digit_val_char)
qed

lemma strip_plus_show: "strip_plus (show_nat n) = show_nat n"
proof (cases "show_nat n")
  case Nil
  then show ?thesis by (simp add: strip_plus_def)
next
  case (Cons c cs)
  with show_nat_digits [of n] have "is_digit c" by simp
  then have "c \<noteq> CHR ''+''" by (auto simp: is_digit_def less_eq_char_def)
  with Cons show ?thesis by (simp add: strip_plus_def)
qed

lemma parse_show_nat: "n < bound \<Longrightarrow> parse_unsigned bound (show_nat n) = Some n"
  by (simp add: parse_unsigned_def strip_plus_show show_nat_nonempty show_nat_digits digits_val_show)

lemma parse_unsigned_bound: "parse_unsigned bound s = Some n \<Longrightarrow> n < bound"
  by (auto simp: parse_unsigned_def Let_def split: if_splits)

text \<open>\<open>{}\<close> of a \<open>u64\<close>.\<close>

definition show_u64 :: "u64 \<Rightarrow> string" where
  "show_u64 w = show_nat (unat w)"

section \<open>Lists\<close>

lemma map_of_filter_key:
  "k \<noteq> t \<Longrightarrow> map_of (filter (\<lambda>p. fst p \<noteq> t) kv) k = map_of kv k"
  by (induction kv) auto

lemma find_Some_in: "List.find P xs = Some x \<Longrightarrow> x \<in> set xs \<and> P x"
  by (induction xs) (auto split: if_splits)

lemma find_None_all: "List.find P xs = None \<longleftrightarrow> (\<forall>x \<in> set xs. \<not> P x)"
  by (induction xs) auto

lemma find_unique:
  assumes "x \<in> set xs" and "P x" and "\<And>y. y \<in> set xs \<Longrightarrow> P y \<Longrightarrow> y = x"
  shows "List.find P xs = Some x"
proof (cases "List.find P xs")
  case None
  with assms(1,2) show ?thesis by (simp add: find_None_all)
next
  case (Some y)
  with assms(3) show ?thesis by (auto dest: find_Some_in)
qed

lemma distinct_map_inj_unique:
  "distinct (map f xs) \<Longrightarrow> x \<in> set xs \<Longrightarrow> y \<in> set xs \<Longrightarrow> f x = f y \<Longrightarrow> x = y"
  by (metis distinct_map inj_onD)

text \<open>\<open>join(sep)\<close> of a slice of strings.\<close>

fun join :: "string \<Rightarrow> string list \<Rightarrow> string" where
  "join sep [] = []"
| "join sep [x] = x"
| "join sep (x # y # xs) = x @ sep @ join sep (y # xs)"

text \<open>\<open>str::strip_prefix\<close>.\<close>

fun strip_prefix :: "string \<Rightarrow> string \<Rightarrow> string option" where
  "strip_prefix [] s = Some s"
| "strip_prefix (p # ps) [] = None"
| "strip_prefix (p # ps) (c # cs) = (if p = c then strip_prefix ps cs else None)"

lemma strip_prefix_Some: "strip_prefix p s = Some r \<longleftrightarrow> s = p @ r"
  by (induction p s rule: strip_prefix.induct) auto

end
