(* ===== verification/Json.thy ===== *)
theory Json
  imports Prelude
begin

text \<open>
  JSON values as \<open>serde_json::Value\<close> holds them, and the behaviour of serde's derived
  \<open>Serialize\<close> and \<open>Deserialize\<close> that the protocol crate relies on: a struct is read
  from an object by field name (unknown fields ignored) or from an array by position, a
  missing field is an error unless it has a default, \<open>null\<close> reads as an absent
  \<open>Option\<close>, an internally tagged enum carries its variant name in a field of the
  object. The text syntax of JSON is not modelled: a line or a stored column is its
  parsed value, or no value at all when it does not parse. Objects are association lists
  with distinct keys, as \<open>serde_json::Map\<close> is.
\<close>

datatype json =
    JNull
  | JBool bool
  | JNum int
  | JFloat string
  | JStr string
  | JArr "json list"
  | JObj "(string \<times> json) list"

text \<open>\<open>Value::get\<close> with a key, and the common typed reads.\<close>

definition jget :: "string \<Rightarrow> json \<Rightarrow> json option" where
  "jget k j = (case j of JObj kv \<Rightarrow> map_of kv k | _ \<Rightarrow> None)"

definition is_null :: "json \<Rightarrow> bool" where
  "is_null j \<longleftrightarrow> j = JNull"

definition as_str :: "json \<Rightarrow> string option" where
  "as_str j = (case j of JStr s \<Rightarrow> Some s | _ \<Rightarrow> None)"

definition as_arr :: "json \<Rightarrow> json list option" where
  "as_arr j = (case j of JArr xs \<Rightarrow> Some xs | _ \<Rightarrow> None)"

definition as_u64 :: "json \<Rightarrow> u64 option" where
  "as_u64 j = (case j of JNum n \<Rightarrow> if 0 \<le> n \<and> n < 2 ^ 64 then Some (word_of_int n) else None
     | _ \<Rightarrow> None)"

section \<open>Scalar codecs\<close>

definition enc_u64 :: "u64 \<Rightarrow> json" where
  "enc_u64 w = JNum (uint w)"

definition dec_u64 :: "json \<Rightarrow> u64 option" where
  "dec_u64 j = as_u64 j"

definition enc_u32 :: "u32 \<Rightarrow> json" where
  "enc_u32 w = JNum (uint w)"

definition dec_u32 :: "json \<Rightarrow> u32 option" where
  "dec_u32 j = (case j of JNum n \<Rightarrow> if 0 \<le> n \<and> n < 2 ^ 32 then Some (word_of_int n) else None
     | _ \<Rightarrow> None)"

definition dec_i64 :: "json \<Rightarrow> int option" where
  "dec_i64 j = (case j of JNum n \<Rightarrow> if - (2 ^ 63) \<le> n \<and> n < 2 ^ 63 then Some n else None
     | _ \<Rightarrow> None)"

definition dec_str :: "json \<Rightarrow> string option" where
  "dec_str j = as_str j"

definition dec_bool :: "json \<Rightarrow> bool option" where
  "dec_bool j = (case j of JBool b \<Rightarrow> Some b | _ \<Rightarrow> None)"

definition dec_json :: "json \<Rightarrow> json option" where
  "dec_json j = Some j"

fun dec_elems :: "(json \<Rightarrow> 'a option) \<Rightarrow> json list \<Rightarrow> 'a list option" where
  "dec_elems d [] = Some []"
| "dec_elems d (j # js) =
     (case d j of None \<Rightarrow> None | Some x \<Rightarrow> map_option (Cons x) (dec_elems d js))"

definition dec_list :: "(json \<Rightarrow> 'a option) \<Rightarrow> json \<Rightarrow> 'a list option" where
  "dec_list d j = (case j of JArr js \<Rightarrow> dec_elems d js | _ \<Rightarrow> None)"

definition enc_list :: "('a \<Rightarrow> json) \<Rightarrow> 'a list \<Rightarrow> json" where
  "enc_list e xs = JArr (map e xs)"

definition dec_option :: "(json \<Rightarrow> 'a option) \<Rightarrow> json \<Rightarrow> 'a option option" where
  "dec_option d j = (if j = JNull then Some None else map_option Some (d j))"

section \<open>Structs\<close>

type_synonym fields = "string \<Rightarrow> json option"

text \<open>The fields of a struct with the given field names, from an object or an array.\<close>

definition struct_fields :: "string list \<Rightarrow> json \<Rightarrow> fields option" where
  "struct_fields names j = (case j of
      JObj kv \<Rightarrow> Some (map_of kv)
    | JArr xs \<Rightarrow> if length xs \<le> length names then Some (map_of (zip names xs)) else None
    | _ \<Rightarrow> None)"

text \<open>A required field, an \<open>Option\<close> field with a default, a defaulted field.\<close>

definition req :: "fields \<Rightarrow> string \<Rightarrow> (json \<Rightarrow> 'a option) \<Rightarrow> 'a option" where
  "req fs k d = (case fs k of None \<Rightarrow> None | Some j \<Rightarrow> d j)"

definition opt :: "fields \<Rightarrow> string \<Rightarrow> (json \<Rightarrow> 'a option) \<Rightarrow> 'a option option" where
  "opt fs k d = (case fs k of None \<Rightarrow> Some None | Some j \<Rightarrow> dec_option d j)"

definition dflt :: "fields \<Rightarrow> string \<Rightarrow> (json \<Rightarrow> 'a option) \<Rightarrow> 'a \<Rightarrow> 'a option" where
  "dflt fs k d v = (case fs k of None \<Rightarrow> Some v | Some j \<Rightarrow> d j)"

text \<open>\<open>skip_serializing_if = "Option::is_none"\<close>.\<close>

definition opt_field :: "string \<Rightarrow> ('a \<Rightarrow> json) \<Rightarrow> 'a option \<Rightarrow> (string \<times> json) list" where
  "opt_field k e v = (case v of None \<Rightarrow> [] | Some x \<Rightarrow> [(k, e x)])"

text \<open>An internally tagged enum (\<open>#[serde(tag = "..")]\<close>): the variant name and what is
  left of the value.\<close>

definition untag :: "string \<Rightarrow> json \<Rightarrow> (string \<times> json) option" where
  "untag t j = (case j of
      JObj kv \<Rightarrow> (case map_of kv t of
          Some (JStr v) \<Rightarrow> Some (v, JObj (filter (\<lambda>p. fst p \<noteq> t) kv))
        | _ \<Rightarrow> None)
    | JArr (JStr v # rest) \<Rightarrow> Some (v, JArr rest)
    | _ \<Rightarrow> None)"

section \<open>Codec facts\<close>

text \<open>An encoder and a decoder form a codec when decoding undoes encoding; the facts about
  lists and options are proved once for any codec.\<close>

locale codec =
  fixes enc :: "'a \<Rightarrow> json" and dec :: "json \<Rightarrow> 'a option"
  assumes dec_enc: "dec (enc x) = Some x"
begin

lemma dec_elems_map: "dec_elems dec (map enc xs) = Some xs"
  by (induction xs) (auto simp: dec_enc)

lemma dec_list_enc: "dec_list dec (enc_list enc xs) = Some xs"
  by (simp add: dec_list_def enc_list_def dec_elems_map)

lemma dec_option_enc: "enc x \<noteq> JNull \<Longrightarrow> dec_option dec (enc x) = Some (Some x)"
  by (simp add: dec_option_def dec_enc)

lemma enc_inject: "enc x = enc y \<longleftrightarrow> x = y"
  by (metis dec_enc option.inject)

end

lemma dec_enc_u64: "dec_u64 (enc_u64 w) = Some w"
  using uint_lt2p [of w] by (simp add: dec_u64_def as_u64_def enc_u64_def)

lemma dec_enc_u32: "dec_u32 (enc_u32 w) = Some w"
  using uint_lt2p [of w] by (simp add: dec_u32_def enc_u32_def)

lemma dec_enc_str: "dec_str (JStr s) = Some s"
  by (simp add: dec_str_def as_str_def)

lemma dec_enc_bool: "dec_bool (JBool b) = Some b"
  by (simp add: dec_bool_def)

interpretation u64c: codec enc_u64 dec_u64
  by unfold_locales (rule dec_enc_u64)

interpretation u32c: codec enc_u32 dec_u32
  by unfold_locales (rule dec_enc_u32)

interpretation strc: codec JStr dec_str
  by unfold_locales (rule dec_enc_str)

interpretation boolc: codec JBool dec_bool
  by unfold_locales (rule dec_enc_bool)

lemma enc_u64_not_null [simp]: "enc_u64 w \<noteq> JNull"
  by (simp add: enc_u64_def)

lemma enc_u32_not_null [simp]: "enc_u32 w \<noteq> JNull"
  by (simp add: enc_u32_def)

lemma enc_list_not_null [simp]: "enc_list e xs \<noteq> JNull"
  by (simp add: enc_list_def)

lemmas scalar_codecs = dec_enc_u64 dec_enc_u32 dec_enc_str dec_enc_bool
  strc.dec_list_enc strc.dec_option_enc u64c.dec_option_enc

lemmas field_defs = struct_fields_def req_def opt_def dflt_def opt_field_def

end
