(* ===== verification/Protocol.thy ===== *)
theory Protocol
  imports Json
begin

text \<open>
  The wire protocol crate (\<open>crates/protocol/src/lib.rs\<close>): JSON-RPC framing and the
  classification of inbound values, the error codes, the method names, the message
  model (envelopes, log records, system events, acknowledgments), the parameter and
  result shapes of every method with the codec serde derives for them, delivery
  rendering and name validation. The lemmas show that every shape the broker writes
  reads back as itself, and what the name rules and error codes guarantee.
\<close>

section \<open>JSON-RPC framing\<close>

datatype id = IdNum u64 | IdStr string | IdNull

fun enc_id :: "id \<Rightarrow> json" where
  "enc_id (IdNum n) = enc_u64 n"
| "enc_id (IdStr s) = JStr s"
| "enc_id IdNull = JNull"

definition dec_id :: "json \<Rightarrow> id option" where
  "dec_id j = (case dec_u64 j of Some n \<Rightarrow> Some (IdNum n)
     | None \<Rightarrow> (case j of JStr s \<Rightarrow> Some (IdStr s) | JNull \<Rightarrow> Some IdNull | _ \<Rightarrow> None))"

record rpc_error =
  err_code :: int
  err_message :: string
  err_data :: "json option"

record request =
  rq_jsonrpc :: string
  rq_id :: id
  rq_method :: string
  rq_params :: "json option"

record notification =
  nt_jsonrpc :: string
  nt_method :: string
  nt_params :: "json option"

record response =
  rs_jsonrpc :: string
  rs_id :: id
  rs_result :: "json option"
  rs_error :: "rpc_error option"

datatype message = Request request | Notification notification | Response response

definition enc_rpc_error :: "rpc_error \<Rightarrow> json" where
  "enc_rpc_error e = JObj ([(''code'', JNum (err_code e)), (''message'', JStr (err_message e))]
     @ opt_field ''data'' (\<lambda>j. j) (err_data e))"

definition dec_rpc_error :: "json \<Rightarrow> rpc_error option" where
  "dec_rpc_error j = (case struct_fields [''code'', ''message'', ''data''] j of None \<Rightarrow> None
     | Some fs \<Rightarrow> (case (req fs ''code'' dec_i64, req fs ''message'' dec_str, opt fs ''data'' dec_json) of
         (Some c, Some m, Some d) \<Rightarrow> Some \<lparr>err_code = c, err_message = m, err_data = d\<rparr>
       | _ \<Rightarrow> None))"

definition enc_request :: "request \<Rightarrow> json" where
  "enc_request r = JObj ([(''jsonrpc'', JStr (rq_jsonrpc r)), (''id'', enc_id (rq_id r)),
     (''method'', JStr (rq_method r))] @ opt_field ''params'' (\<lambda>j. j) (rq_params r))"

definition dec_request :: "json \<Rightarrow> request option" where
  "dec_request j = (case struct_fields [''jsonrpc'', ''id'', ''method'', ''params''] j of None \<Rightarrow> None
     | Some fs \<Rightarrow> (case (req fs ''jsonrpc'' dec_str, req fs ''id'' dec_id, req fs ''method'' dec_str,
           opt fs ''params'' dec_json) of
         (Some v, Some i, Some m, Some p) \<Rightarrow>
           Some \<lparr>rq_jsonrpc = v, rq_id = i, rq_method = m, rq_params = p\<rparr>
       | _ \<Rightarrow> None))"

definition enc_notification :: "notification \<Rightarrow> json" where
  "enc_notification n = JObj ([(''jsonrpc'', JStr (nt_jsonrpc n)), (''method'', JStr (nt_method n))]
     @ opt_field ''params'' (\<lambda>j. j) (nt_params n))"

definition dec_notification :: "json \<Rightarrow> notification option" where
  "dec_notification j = (case struct_fields [''jsonrpc'', ''method'', ''params''] j of None \<Rightarrow> None
     | Some fs \<Rightarrow> (case (req fs ''jsonrpc'' dec_str, req fs ''method'' dec_str, opt fs ''params'' dec_json) of
         (Some v, Some m, Some p) \<Rightarrow> Some \<lparr>nt_jsonrpc = v, nt_method = m, nt_params = p\<rparr>
       | _ \<Rightarrow> None))"

definition enc_response :: "response \<Rightarrow> json" where
  "enc_response r = JObj ([(''jsonrpc'', JStr (rs_jsonrpc r)), (''id'', enc_id (rs_id r))]
     @ opt_field ''result'' (\<lambda>j. j) (rs_result r) @ opt_field ''error'' enc_rpc_error (rs_error r))"

definition dec_response :: "json \<Rightarrow> response option" where
  "dec_response j = (case struct_fields [''jsonrpc'', ''id'', ''result'', ''error''] j of None \<Rightarrow> None
     | Some fs \<Rightarrow> (case (req fs ''jsonrpc'' dec_str, req fs ''id'' dec_id, opt fs ''result'' dec_json,
           opt fs ''error'' dec_rpc_error) of
         (Some v, Some i, Some r, Some e) \<Rightarrow>
           Some \<lparr>rs_jsonrpc = v, rs_id = i, rs_result = r, rs_error = e\<rparr>
       | _ \<Rightarrow> None))"

text \<open>\<open>Message::from_value\<close>: the shape is decided by the presence of \<open>method\<close> and of a
  non-null \<open>id\<close> before the value is read.\<close>

definition from_value :: "json \<Rightarrow> message option" where
  "from_value v =
     (let has_method = jget ''method'' v \<noteq> None;
          has_id = (case jget ''id'' v of None \<Rightarrow> False | Some i \<Rightarrow> \<not> is_null i)
      in if has_method \<and> has_id then map_option Request (dec_request v)
         else if has_method then map_option Notification (dec_notification v)
         else map_option Response (dec_response v))"

text \<open>\<open>Message::to_line\<close>, as the value the line spells.\<close>

fun to_line :: "message \<Rightarrow> json" where
  "to_line (Request r) = enc_request r"
| "to_line (Notification n) = enc_notification n"
| "to_line (Response r) = enc_response r"

definition mk_request :: "u64 \<Rightarrow> string \<Rightarrow> json \<Rightarrow> request" where
  "mk_request i method params =
     \<lparr>rq_jsonrpc = ''2.0'', rq_id = IdNum i, rq_method = method, rq_params = Some params\<rparr>"

definition mk_notification :: "string \<Rightarrow> json \<Rightarrow> notification" where
  "mk_notification method params =
     \<lparr>nt_jsonrpc = ''2.0'', nt_method = method, nt_params = Some params\<rparr>"

definition ok_response :: "id \<Rightarrow> json \<Rightarrow> response" where
  "ok_response i result = \<lparr>rs_jsonrpc = ''2.0'', rs_id = i, rs_result = Some result, rs_error = None\<rparr>"

definition err_response :: "id \<Rightarrow> rpc_error \<Rightarrow> response" where
  "err_response i e = \<lparr>rs_jsonrpc = ''2.0'', rs_id = i, rs_result = None, rs_error = Some e\<rparr>"

section \<open>Error codes\<close>

datatype error_code = UnknownName | NameTaken | NotRegistered | AlreadyRegistered | InvalidName
  | NotAdmin | ShuttingDown | ScopeDenied | BadConfirmation | Unauthorized | OverrideDenied

fun ec_code :: "error_code \<Rightarrow> int" where
  "ec_code UnknownName = -32000"
| "ec_code NameTaken = -32001"
| "ec_code NotRegistered = -32002"
| "ec_code AlreadyRegistered = -32003"
| "ec_code InvalidName = -32004"
| "ec_code NotAdmin = -32005"
| "ec_code ShuttingDown = -32006"
| "ec_code ScopeDenied = -32007"
| "ec_code BadConfirmation = -32008"
| "ec_code Unauthorized = -32009"
| "ec_code OverrideDenied = -32010"

fun ec_name :: "error_code \<Rightarrow> string" where
  "ec_name UnknownName = ''UNKNOWN_NAME''"
| "ec_name NameTaken = ''NAME_TAKEN''"
| "ec_name NotRegistered = ''NOT_REGISTERED''"
| "ec_name AlreadyRegistered = ''ALREADY_REGISTERED''"
| "ec_name InvalidName = ''INVALID_NAME''"
| "ec_name NotAdmin = ''NOT_ADMIN''"
| "ec_name ShuttingDown = ''SHUTTING_DOWN''"
| "ec_name ScopeDenied = ''SCOPE_DENIED''"
| "ec_name BadConfirmation = ''BAD_CONFIRMATION''"
| "ec_name Unauthorized = ''UNAUTHORIZED''"
| "ec_name OverrideDenied = ''OVERRIDE_DENIED''"

definition to_error :: "error_code \<Rightarrow> string \<Rightarrow> rpc_error" where
  "to_error c detail =
     \<lparr>err_code = ec_code c, err_message = detail, err_data = Some (JObj [(''code'', JStr (ec_name c))])\<rparr>"

lemma ec_code_inject: "ec_code a = ec_code b \<longleftrightarrow> a = b"
  by (cases a; cases b; simp)

lemma ec_name_inject: "ec_name a = ec_name b \<longleftrightarrow> a = b"
  by (cases a; cases b; simp)

lemma to_error_inject: "to_error a d = to_error b d' \<longleftrightarrow> a = b \<and> d = d'"
  by (auto simp: to_error_def ec_name_inject)

section \<open>Method names\<close>

datatype methods =
    SESSION_HELLO
  | PRINCIPAL_REGISTER | PRINCIPAL_DEREGISTER | MESSAGE_SEND | CHANNEL_SUBSCRIBE
  | CHANNEL_UNSUBSCRIBE | CHANNEL_CREATE | HISTORY_GET | DIRECTORY_WHO
  | MESSAGE_DELIVER | MESSAGE_PROCESSED
  | ADMIN_REGISTER | ADMIN_SUBSCRIBE | ADMIN_UNSUBSCRIBE | CHANNEL_RENAME | CHANNEL_ARCHIVE
  | CHANNEL_UNARCHIVE | CHANNEL_DELETE | CHANNEL_DELETE_CONFIRM | MESSAGE_STATUS
  | DAEMON_STATUS | DAEMON_SHUTDOWN
  | WATCH_START | WATCH_STOP | WATCH_EVENT

fun method_name :: "methods \<Rightarrow> string" where
  "method_name SESSION_HELLO = ''session/hello''"
| "method_name PRINCIPAL_REGISTER = ''principal/register''"
| "method_name PRINCIPAL_DEREGISTER = ''principal/deregister''"
| "method_name MESSAGE_SEND = ''message/send''"
| "method_name CHANNEL_SUBSCRIBE = ''channel/subscribe''"
| "method_name CHANNEL_UNSUBSCRIBE = ''channel/unsubscribe''"
| "method_name CHANNEL_CREATE = ''channel/create''"
| "method_name HISTORY_GET = ''history/get''"
| "method_name DIRECTORY_WHO = ''directory/who''"
| "method_name MESSAGE_DELIVER = ''message/deliver''"
| "method_name MESSAGE_PROCESSED = ''message/processed''"
| "method_name ADMIN_REGISTER = ''admin/register''"
| "method_name ADMIN_SUBSCRIBE = ''admin/subscribe''"
| "method_name ADMIN_UNSUBSCRIBE = ''admin/unsubscribe''"
| "method_name CHANNEL_RENAME = ''channel/rename''"
| "method_name CHANNEL_ARCHIVE = ''channel/archive''"
| "method_name CHANNEL_UNARCHIVE = ''channel/unarchive''"
| "method_name CHANNEL_DELETE = ''channel/delete''"
| "method_name CHANNEL_DELETE_CONFIRM = ''channel/delete_confirm''"
| "method_name MESSAGE_STATUS = ''message/status''"
| "method_name DAEMON_STATUS = ''daemon/status''"
| "method_name DAEMON_SHUTDOWN = ''daemon/shutdown''"
| "method_name WATCH_START = ''watch/start''"
| "method_name WATCH_STOP = ''watch/stop''"
| "method_name WATCH_EVENT = ''watch/event''"

section \<open>Message model\<close>

record recipients =
  to_channels :: "string list"
  to_principals :: "string list"

record envelope =
  message_id :: u64
  thread_id :: u64
  timestamp :: u64
  sender :: string
  recipients_of :: recipients
  body :: string
  truncated :: bool

datatype system_event =
    Registered string bool
  | RegistrationDenied string string
  | Deregistered string
  | Disconnected string
  | Subscribed string string bool
  | Unsubscribed string string bool
  | ChannelCreated string string
  | ChannelRenamed string string string
  | ChannelArchived string string
  | ChannelUnarchived string string
  | ChannelDeleted u64 string u64 string

datatype log_record = MessageRec envelope | SystemRec u64 u64 system_event

fun record_id :: "log_record \<Rightarrow> u64" where
  "record_id (MessageRec e) = message_id e"
| "record_id (SystemRec i _ _) = i"

datatype ack_state = Held | Relayed | Processed | Failed

record ack_status =
  as_recipient :: string
  as_state :: ack_state
  as_reason :: "string option"
  as_held_at :: "u64 option"
  as_relayed_at :: "u64 option"
  as_processed_at :: "u64 option"
  as_failed_at :: "u64 option"

record ack_transition =
  at_kind :: string
  at_message_id :: u64
  at_recipient :: string
  at_state :: ack_state
  at_timestamp :: u64
  at_reason :: "string option"

datatype watch_event = WatchRecord log_record | WatchAck ack_transition


section \<open>Codecs of the message model\<close>

definition enc_recipients :: "recipients \<Rightarrow> json" where
  "enc_recipients r = JObj [(''channels'', enc_list JStr (to_channels r)),
     (''principals'', enc_list JStr (to_principals r))]"

definition dec_recipients :: "json \<Rightarrow> recipients option" where
  "dec_recipients j = (case struct_fields [''channels'', ''principals''] j of None \<Rightarrow> None
     | Some fs \<Rightarrow> (case (dflt fs ''channels'' (dec_list dec_str) [], dflt fs ''principals'' (dec_list dec_str) []) of
         (Some c, Some p) \<Rightarrow> Some \<lparr>to_channels = c, to_principals = p\<rparr>
       | _ \<Rightarrow> None))"

definition envelope_fields :: "string list" where
  "envelope_fields = [''message_id'', ''thread_id'', ''timestamp'', ''sender'', ''recipients'', ''body'', ''truncated'']"

definition enc_envelope_fields :: "envelope \<Rightarrow> (string \<times> json) list" where
  "enc_envelope_fields e = [(''message_id'', enc_u64 (message_id e)), (''thread_id'', enc_u64 (thread_id e)),
     (''timestamp'', enc_u64 (timestamp e)), (''sender'', JStr (sender e)),
     (''recipients'', enc_recipients (recipients_of e)), (''body'', JStr (body e)),
     (''truncated'', JBool (truncated e))]"

definition enc_envelope :: "envelope \<Rightarrow> json" where
  "enc_envelope e = JObj (enc_envelope_fields e)"

definition dec_envelope_fields :: "fields \<Rightarrow> envelope option" where
  "dec_envelope_fields fs = (case (req fs ''message_id'' dec_u64, req fs ''thread_id'' dec_u64,
        req fs ''timestamp'' dec_u64, req fs ''sender'' dec_str, req fs ''recipients'' dec_recipients,
        req fs ''body'' dec_str, req fs ''truncated'' dec_bool) of
      (Some i, Some t, Some ts, Some s, Some r, Some b, Some tr) \<Rightarrow>
        Some \<lparr>message_id = i, thread_id = t, timestamp = ts, sender = s, recipients_of = r,
              body = b, truncated = tr\<rparr>
    | _ \<Rightarrow> None)"

definition dec_envelope :: "json \<Rightarrow> envelope option" where
  "dec_envelope j = Option.bind (struct_fields envelope_fields j) dec_envelope_fields"

text \<open>\<open>SystemEvent\<close>: tagged by \<open>type\<close>, variant names in snake case.\<close>

definition event :: "string \<Rightarrow> (string \<times> json) list \<Rightarrow> json" where
  "event tag fs = JObj ((''type'', JStr tag) # fs)"

fun enc_event :: "system_event \<Rightarrow> json" where
  "enc_event (Registered p a) = event ''registered'' [(''principal'', JStr p), (''admin'', JBool a)]"
| "enc_event (RegistrationDenied n r) = event ''registration_denied'' [(''name'', JStr n), (''reason'', JStr r)]"
| "enc_event (Deregistered p) = event ''deregistered'' [(''principal'', JStr p)]"
| "enc_event (Disconnected p) = event ''disconnected'' [(''principal'', JStr p)]"
| "enc_event (Subscribed p c a) =
     event ''subscribed'' [(''principal'', JStr p), (''channel'', JStr c), (''by_admin'', JBool a)]"
| "enc_event (Unsubscribed p c a) =
     event ''unsubscribed'' [(''principal'', JStr p), (''channel'', JStr c), (''by_admin'', JBool a)]"
| "enc_event (ChannelCreated c b) = event ''channel_created'' [(''channel'', JStr c), (''by'', JStr b)]"
| "enc_event (ChannelRenamed old new b) =
     event ''channel_renamed'' [(''old_name'', JStr old), (''new_name'', JStr new), (''by'', JStr b)]"
| "enc_event (ChannelArchived c b) = event ''channel_archived'' [(''channel'', JStr c), (''by'', JStr b)]"
| "enc_event (ChannelUnarchived c b) = event ''channel_unarchived'' [(''channel'', JStr c), (''by'', JStr b)]"
| "enc_event (ChannelDeleted i n k b) = event ''channel_deleted'' [(''channel_id'', enc_u64 i),
     (''name'', JStr n), (''record_count'', enc_u64 k), (''by'', JStr b)]"

definition dec2 :: "string list \<Rightarrow> (fields \<Rightarrow> 'a option) \<Rightarrow> json \<Rightarrow> 'a option" where
  "dec2 names d j = Option.bind (struct_fields names j) d"

definition dec_event :: "json \<Rightarrow> system_event option" where
  "dec_event j = (case untag ''type'' j of None \<Rightarrow> None | Some (tag, b) \<Rightarrow>
     if tag = ''registered'' then dec2 [''principal'', ''admin''] (\<lambda>fs.
       case (req fs ''principal'' dec_str, req fs ''admin'' dec_bool) of
         (Some p, Some a) \<Rightarrow> Some (Registered p a) | _ \<Rightarrow> None) b
     else if tag = ''registration_denied'' then dec2 [''name'', ''reason''] (\<lambda>fs.
       case (req fs ''name'' dec_str, req fs ''reason'' dec_str) of
         (Some n, Some r) \<Rightarrow> Some (RegistrationDenied n r) | _ \<Rightarrow> None) b
     else if tag = ''deregistered'' then dec2 [''principal''] (\<lambda>fs.
       map_option Deregistered (req fs ''principal'' dec_str)) b
     else if tag = ''disconnected'' then dec2 [''principal''] (\<lambda>fs.
       map_option Disconnected (req fs ''principal'' dec_str)) b
     else if tag = ''subscribed'' then dec2 [''principal'', ''channel'', ''by_admin''] (\<lambda>fs.
       case (req fs ''principal'' dec_str, req fs ''channel'' dec_str, req fs ''by_admin'' dec_bool) of
         (Some p, Some c, Some a) \<Rightarrow> Some (Subscribed p c a) | _ \<Rightarrow> None) b
     else if tag = ''unsubscribed'' then dec2 [''principal'', ''channel'', ''by_admin''] (\<lambda>fs.
       case (req fs ''principal'' dec_str, req fs ''channel'' dec_str, req fs ''by_admin'' dec_bool) of
         (Some p, Some c, Some a) \<Rightarrow> Some (Unsubscribed p c a) | _ \<Rightarrow> None) b
     else if tag = ''channel_created'' then dec2 [''channel'', ''by''] (\<lambda>fs.
       case (req fs ''channel'' dec_str, req fs ''by'' dec_str) of
         (Some c, Some y) \<Rightarrow> Some (ChannelCreated c y) | _ \<Rightarrow> None) b
     else if tag = ''channel_renamed'' then dec2 [''old_name'', ''new_name'', ''by''] (\<lambda>fs.
       case (req fs ''old_name'' dec_str, req fs ''new_name'' dec_str, req fs ''by'' dec_str) of
         (Some o', Some n, Some y) \<Rightarrow> Some (ChannelRenamed o' n y) | _ \<Rightarrow> None) b
     else if tag = ''channel_archived'' then dec2 [''channel'', ''by''] (\<lambda>fs.
       case (req fs ''channel'' dec_str, req fs ''by'' dec_str) of
         (Some c, Some y) \<Rightarrow> Some (ChannelArchived c y) | _ \<Rightarrow> None) b
     else if tag = ''channel_unarchived'' then dec2 [''channel'', ''by''] (\<lambda>fs.
       case (req fs ''channel'' dec_str, req fs ''by'' dec_str) of
         (Some c, Some y) \<Rightarrow> Some (ChannelUnarchived c y) | _ \<Rightarrow> None) b
     else if tag = ''channel_deleted'' then dec2 [''channel_id'', ''name'', ''record_count'', ''by''] (\<lambda>fs.
       case (req fs ''channel_id'' dec_u64, req fs ''name'' dec_str, req fs ''record_count'' dec_u64,
             req fs ''by'' dec_str) of
         (Some i, Some n, Some k, Some y) \<Rightarrow> Some (ChannelDeleted i n k y) | _ \<Rightarrow> None) b
     else None)"

text \<open>\<open>Record\<close>: tagged by \<open>kind\<close>; the message variant flattens its envelope, so it reads
  from an object only.\<close>

fun enc_record :: "log_record \<Rightarrow> json" where
  "enc_record (MessageRec e) = JObj ((''kind'', JStr ''message'') # enc_envelope_fields e)"
| "enc_record (SystemRec i ts ev) = JObj [(''kind'', JStr ''system''), (''id'', enc_u64 i),
     (''timestamp'', enc_u64 ts), (''event'', enc_event ev)]"

definition dec_record :: "json \<Rightarrow> log_record option" where
  "dec_record j = (case untag ''kind'' j of None \<Rightarrow> None | Some (tag, b) \<Rightarrow>
     if tag = ''message'' then
       (case b of JObj kv \<Rightarrow> map_option MessageRec (dec_envelope_fields (map_of kv)) | _ \<Rightarrow> None)
     else if tag = ''system'' then dec2 [''id'', ''timestamp'', ''event''] (\<lambda>fs.
       case (req fs ''id'' dec_u64, req fs ''timestamp'' dec_u64, req fs ''event'' dec_event) of
         (Some i, Some ts, Some ev) \<Rightarrow> Some (SystemRec i ts ev) | _ \<Rightarrow> None) b
     else None)"

fun ack_state_name :: "ack_state \<Rightarrow> string" where
  "ack_state_name Held = ''held''"
| "ack_state_name Relayed = ''relayed''"
| "ack_state_name Processed = ''processed''"
| "ack_state_name Failed = ''failed''"

definition enc_ack_state :: "ack_state \<Rightarrow> json" where
  "enc_ack_state s = JStr (ack_state_name s)"

definition dec_ack_state :: "json \<Rightarrow> ack_state option" where
  "dec_ack_state j = (case j of JStr s \<Rightarrow>
      if s = ''held'' then Some Held else if s = ''relayed'' then Some Relayed
      else if s = ''processed'' then Some Processed else if s = ''failed'' then Some Failed else None
    | _ \<Rightarrow> None)"

definition enc_ack_status :: "ack_status \<Rightarrow> json" where
  "enc_ack_status a = JObj ([(''recipient'', JStr (as_recipient a)), (''state'', enc_ack_state (as_state a))]
     @ opt_field ''reason'' JStr (as_reason a) @ opt_field ''held_at'' enc_u64 (as_held_at a)
     @ opt_field ''relayed_at'' enc_u64 (as_relayed_at a)
     @ opt_field ''processed_at'' enc_u64 (as_processed_at a)
     @ opt_field ''failed_at'' enc_u64 (as_failed_at a))"

definition dec_ack_status :: "json \<Rightarrow> ack_status option" where
  "dec_ack_status j = dec2 [''recipient'', ''state'', ''reason'', ''held_at'', ''relayed_at'', ''processed_at'', ''failed_at''] (\<lambda>fs.
     case (req fs ''recipient'' dec_str, req fs ''state'' dec_ack_state, opt fs ''reason'' dec_str,
           opt fs ''held_at'' dec_u64, opt fs ''relayed_at'' dec_u64, opt fs ''processed_at'' dec_u64,
           opt fs ''failed_at'' dec_u64) of
       (Some r, Some s, Some w, Some h, Some l, Some p, Some f) \<Rightarrow>
         Some \<lparr>as_recipient = r, as_state = s, as_reason = w, as_held_at = h, as_relayed_at = l,
               as_processed_at = p, as_failed_at = f\<rparr>
     | _ \<Rightarrow> None) j"

definition enc_ack_transition :: "ack_transition \<Rightarrow> json" where
  "enc_ack_transition a = JObj ([(''kind'', JStr (at_kind a)), (''message_id'', enc_u64 (at_message_id a)),
     (''recipient'', JStr (at_recipient a)), (''state'', enc_ack_state (at_state a)),
     (''timestamp'', enc_u64 (at_timestamp a))] @ opt_field ''reason'' JStr (at_reason a))"

definition dec_ack_transition :: "json \<Rightarrow> ack_transition option" where
  "dec_ack_transition j = dec2 [''kind'', ''message_id'', ''recipient'', ''state'', ''timestamp'', ''reason''] (\<lambda>fs.
     case (req fs ''kind'' dec_str, req fs ''message_id'' dec_u64, req fs ''recipient'' dec_str,
           req fs ''state'' dec_ack_state, req fs ''timestamp'' dec_u64, opt fs ''reason'' dec_str) of
       (Some k, Some i, Some r, Some s, Some ts, Some w) \<Rightarrow>
         Some \<lparr>at_kind = k, at_message_id = i, at_recipient = r, at_state = s, at_timestamp = ts, at_reason = w\<rparr>
     | _ \<Rightarrow> None) j"

text \<open>\<open>WatchEvent\<close> is untagged: the first variant that reads wins.\<close>

fun enc_watch_event :: "watch_event \<Rightarrow> json" where
  "enc_watch_event (WatchRecord r) = enc_record r"
| "enc_watch_event (WatchAck a) = enc_ack_transition a"

definition dec_watch_event :: "json \<Rightarrow> watch_event option" where
  "dec_watch_event j = (case dec_record j of Some r \<Rightarrow> Some (WatchRecord r)
     | None \<Rightarrow> map_option WatchAck (dec_ack_transition j))"


section \<open>Parameters and results of the methods\<close>

record client_info =
  ci_harness :: "string option"
  ci_version :: string
  ci_pid :: u32
  ci_cwd :: string

definition enc_client_info :: "client_info \<Rightarrow> json" where
  "enc_client_info c = JObj (opt_field ''harness'' JStr (ci_harness c)
     @ [(''version'', JStr (ci_version c)), (''pid'', enc_u32 (ci_pid c)), (''cwd'', JStr (ci_cwd c))])"

definition dec_client_info :: "json \<Rightarrow> client_info option" where
  "dec_client_info = dec2 [''harness'', ''version'', ''pid'', ''cwd''] (\<lambda>fs.
     case (opt fs ''harness'' dec_str, req fs ''version'' dec_str, req fs ''pid'' dec_u32, req fs ''cwd'' dec_str) of
       (Some h, Some v, Some p, Some c) \<Rightarrow>
         Some \<lparr>ci_harness = h, ci_version = v, ci_pid = p, ci_cwd = c\<rparr>
     | _ \<Rightarrow> None)"

record hello_params =
  hp_client_info :: client_info
  hp_auth_token :: "string option"

definition enc_hello_params :: "hello_params \<Rightarrow> json" where
  "enc_hello_params p = JObj ((''client_info'', enc_client_info (hp_client_info p))
     # opt_field ''auth_token'' JStr (hp_auth_token p))"

definition dec_hello_params :: "json \<Rightarrow> hello_params option" where
  "dec_hello_params = dec2 [''client_info'', ''auth_token''] (\<lambda>fs.
     case (req fs ''client_info'' dec_client_info, opt fs ''auth_token'' dec_str) of
       (Some c, Some t) \<Rightarrow> Some \<lparr>hp_client_info = c, hp_auth_token = t\<rparr>
     | _ \<Rightarrow> None)"

definition enc_hello_result :: "string \<Rightarrow> u64 \<Rightarrow> json" where
  "enc_hello_result version sid = JObj [(''broker_version'', JStr version), (''session_id'', enc_u64 sid)]"

record codex_coordinates =
  cx_app_server :: string
  cx_thread_id :: string

definition enc_codex :: "codex_coordinates \<Rightarrow> json" where
  "enc_codex c = JObj [(''app_server'', JStr (cx_app_server c)), (''thread_id'', JStr (cx_thread_id c))]"

definition dec_codex :: "json \<Rightarrow> codex_coordinates option" where
  "dec_codex = dec2 [''app_server'', ''thread_id''] (\<lambda>fs.
     case (req fs ''app_server'' dec_str, req fs ''thread_id'' dec_str) of
       (Some a, Some t) \<Rightarrow> Some \<lparr>cx_app_server = a, cx_thread_id = t\<rparr>
     | _ \<Rightarrow> None)"

record register_params =
  rp_name :: string
  rp_codex :: "codex_coordinates option"
  rp_admin_token :: "string option"

definition enc_register_params :: "register_params \<Rightarrow> json" where
  "enc_register_params p = JObj ((''name'', JStr (rp_name p)) # opt_field ''codex'' enc_codex (rp_codex p)
     @ opt_field ''admin_token'' JStr (rp_admin_token p))"

definition dec_register_params :: "json \<Rightarrow> register_params option" where
  "dec_register_params = dec2 [''name'', ''codex'', ''admin_token''] (\<lambda>fs.
     case (req fs ''name'' dec_str, opt fs ''codex'' dec_codex, opt fs ''admin_token'' dec_str) of
       (Some n, Some c, Some t) \<Rightarrow> Some \<lparr>rp_name = n, rp_codex = c, rp_admin_token = t\<rparr>
     | _ \<Rightarrow> None)"

definition enc_register_result :: "string \<Rightarrow> json" where
  "enc_register_result p = JObj [(''principal'', JStr p)]"

record send_params =
  sp_channels :: "string list"
  sp_principals :: "string list"
  sp_body :: string
  sp_thread_id :: "u64 option"

definition enc_send_params :: "send_params \<Rightarrow> json" where
  "enc_send_params p = JObj ([(''channels'', enc_list JStr (sp_channels p)),
     (''principals'', enc_list JStr (sp_principals p)), (''body'', JStr (sp_body p))]
     @ opt_field ''thread_id'' enc_u64 (sp_thread_id p))"

definition dec_send_params :: "json \<Rightarrow> send_params option" where
  "dec_send_params = dec2 [''channels'', ''principals'', ''body'', ''thread_id''] (\<lambda>fs.
     case (dflt fs ''channels'' (dec_list dec_str) [], dflt fs ''principals'' (dec_list dec_str) [],
           req fs ''body'' dec_str, opt fs ''thread_id'' dec_u64) of
       (Some c, Some p, Some b, Some t) \<Rightarrow>
         Some \<lparr>sp_channels = c, sp_principals = p, sp_body = b, sp_thread_id = t\<rparr>
     | _ \<Rightarrow> None)"

record failed_delivery =
  fd_principal :: string
  fd_reason :: string

definition enc_failed_delivery :: "failed_delivery \<Rightarrow> json" where
  "enc_failed_delivery f = JObj [(''principal'', JStr (fd_principal f)), (''reason'', JStr (fd_reason f))]"

datatype empty_audience = NoSubscribers | EmptyIntersection

fun enc_empty_audience :: "empty_audience \<Rightarrow> json" where
  "enc_empty_audience NoSubscribers = JStr ''no_subscribers''"
| "enc_empty_audience EmptyIntersection = JStr ''empty_intersection''"

record delivery_report =
  dr_delivered :: "string list"
  dr_failed :: "failed_delivery list"
  dr_empty_audience :: "empty_audience option"

definition enc_delivery_report :: "delivery_report \<Rightarrow> json" where
  "enc_delivery_report r = JObj ([(''delivered'', enc_list JStr (dr_delivered r)),
     (''failed'', enc_list enc_failed_delivery (dr_failed r))]
     @ opt_field ''empty_audience'' enc_empty_audience (dr_empty_audience r))"

definition enc_send_result :: "u64 \<Rightarrow> u64 \<Rightarrow> delivery_report \<Rightarrow> json" where
  "enc_send_result mid tid r = JObj [(''message_id'', enc_u64 mid), (''thread_id'', enc_u64 tid),
     (''delivery'', enc_delivery_report r)]"

text \<open>\<open>ChannelParams\<close> has the one field \<open>channel\<close>.\<close>

definition enc_channel_params :: "string \<Rightarrow> json" where
  "enc_channel_params c = JObj [(''channel'', JStr c)]"

definition dec_channel_params :: "json \<Rightarrow> string option" where
  "dec_channel_params = dec2 [''channel''] (\<lambda>fs. req fs ''channel'' dec_str)"

definition enc_channel_create_result :: "string \<Rightarrow> json" where
  "enc_channel_create_result c = JObj [(''channel'', JStr c)]"

datatype history_scope = ScopeChannel string | DmWith string | DmBetween string string

text \<open>Untagged, tried in order; struct variants of an untagged enum read from objects only.\<close>

definition dec_history_scope :: "json \<Rightarrow> history_scope option" where
  "dec_history_scope j = (case j of JObj kv \<Rightarrow>
      (case req (map_of kv) ''channel'' dec_str of Some c \<Rightarrow> Some (ScopeChannel c) | None \<Rightarrow>
      (case req (map_of kv) ''dm_with'' dec_str of Some p \<Rightarrow> Some (DmWith p) | None \<Rightarrow>
      (case req (map_of kv) ''dm_between'' (dec_list dec_str) of
         Some [a, b] \<Rightarrow> Some (DmBetween a b) | _ \<Rightarrow> None)))
    | _ \<Rightarrow> None)"

fun enc_history_scope :: "history_scope \<Rightarrow> json" where
  "enc_history_scope (ScopeChannel c) = JObj [(''channel'', JStr c)]"
| "enc_history_scope (DmWith p) = JObj [(''dm_with'', JStr p)]"
| "enc_history_scope (DmBetween a b) = JObj [(''dm_between'', enc_list JStr [a, b])]"

record history_params =
  hi_scope :: history_scope
  hi_before_message_id :: "u64 option"
  hi_limit :: u32

definition enc_history_params :: "history_params \<Rightarrow> json" where
  "enc_history_params p = JObj ((''scope'', enc_history_scope (hi_scope p))
     # opt_field ''before_message_id'' enc_u64 (hi_before_message_id p) @ [(''limit'', enc_u32 (hi_limit p))])"

definition dec_history_params :: "json \<Rightarrow> history_params option" where
  "dec_history_params = dec2 [''scope'', ''before_message_id'', ''limit''] (\<lambda>fs.
     case (req fs ''scope'' dec_history_scope, opt fs ''before_message_id'' dec_u64, req fs ''limit'' dec_u32) of
       (Some s, Some b, Some l) \<Rightarrow> Some \<lparr>hi_scope = s, hi_before_message_id = b, hi_limit = l\<rparr>
     | _ \<Rightarrow> None)"

record history_result =
  hr_records :: "log_record list"
  hr_next_cursor :: "u64 option"

definition enc_history_result :: "history_result \<Rightarrow> json" where
  "enc_history_result r = JObj ((''records'', enc_list enc_record (hr_records r))
     # opt_field ''next_cursor'' enc_u64 (hr_next_cursor r))"

definition dec_history_result :: "json \<Rightarrow> history_result option" where
  "dec_history_result = dec2 [''records'', ''next_cursor''] (\<lambda>fs.
     case (req fs ''records'' (dec_list dec_record), opt fs ''next_cursor'' dec_u64) of
       (Some r, Some c) \<Rightarrow> Some \<lparr>hr_records = r, hr_next_cursor = c\<rparr>
     | _ \<Rightarrow> None)"

definition enc_channel_entry :: "string \<times> string list \<Rightarrow> json" where
  "enc_channel_entry e = JObj [(''channel'', JStr (fst e)), (''subscribers'', enc_list JStr (snd e))]"

definition enc_principal_entry :: "string \<times> bool \<Rightarrow> json" where
  "enc_principal_entry e = JObj [(''principal'', JStr (fst e)), (''active'', JBool (snd e))]"

definition enc_who_result :: "(string \<times> string list) list \<Rightarrow> (string \<times> bool) list \<Rightarrow> json" where
  "enc_who_result cs ps = JObj [(''channels'', enc_list enc_channel_entry cs),
     (''principals'', enc_list enc_principal_entry ps)]"

record admin_subscription_params =
  sb_principal :: string
  sb_channel :: string

definition dec_admin_subscription_params :: "json \<Rightarrow> admin_subscription_params option" where
  "dec_admin_subscription_params = dec2 [''principal'', ''channel''] (\<lambda>fs.
     case (req fs ''principal'' dec_str, req fs ''channel'' dec_str) of
       (Some p, Some c) \<Rightarrow> Some \<lparr>sb_principal = p, sb_channel = c\<rparr>
     | _ \<Rightarrow> None)"

record rename_params =
  rn_channel :: string
  rn_new_name :: string

definition dec_rename_params :: "json \<Rightarrow> rename_params option" where
  "dec_rename_params = dec2 [''channel'', ''new_name''] (\<lambda>fs.
     case (req fs ''channel'' dec_str, req fs ''new_name'' dec_str) of
       (Some c, Some n) \<Rightarrow> Some \<lparr>rn_channel = c, rn_new_name = n\<rparr>
     | _ \<Rightarrow> None)"

definition enc_channel_delete_result :: "string \<Rightarrow> json" where
  "enc_channel_delete_result t = JObj [(''confirmation_token'', JStr t)]"

record delete_confirm_params =
  dc_channel :: string
  dc_confirmation_token :: string

definition dec_delete_confirm_params :: "json \<Rightarrow> delete_confirm_params option" where
  "dec_delete_confirm_params = dec2 [''channel'', ''confirmation_token''] (\<lambda>fs.
     case (req fs ''channel'' dec_str, req fs ''confirmation_token'' dec_str) of
       (Some c, Some t) \<Rightarrow> Some \<lparr>dc_channel = c, dc_confirmation_token = t\<rparr>
     | _ \<Rightarrow> None)"

definition dec_message_status_params :: "json \<Rightarrow> u64 option" where
  "dec_message_status_params = dec2 [''message_id''] (\<lambda>fs. req fs ''message_id'' dec_u64)"

definition enc_message_status_result :: "ack_status list \<Rightarrow> json" where
  "enc_message_status_result acks = JObj [(''acks'', enc_list enc_ack_status acks)]"

definition dec_message_status_result :: "json \<Rightarrow> ack_status list option" where
  "dec_message_status_result = dec2 [''acks''] (\<lambda>fs. req fs ''acks'' (dec_list dec_ack_status))"

record session_info =
  si_session_id :: u64
  si_principal :: "string option"
  si_admin :: bool
  si_client_info :: client_info

definition enc_session_info :: "session_info \<Rightarrow> json" where
  "enc_session_info s = JObj ((''session_id'', enc_u64 (si_session_id s))
     # opt_field ''principal'' JStr (si_principal s)
     @ [(''admin'', JBool (si_admin s)), (''client_info'', enc_client_info (si_client_info s))])"

definition enc_daemon_status_result :: "string \<Rightarrow> u64 \<Rightarrow> session_info list \<Rightarrow> u64 \<Rightarrow> u64 \<Rightarrow> json" where
  "enc_daemon_status_result version uptime ss channel_count principal_count = JObj [
     (''broker_version'', JStr version), (''uptime_seconds'', enc_u64 uptime),
     (''sessions'', enc_list enc_session_info ss), (''channel_count'', enc_u64 channel_count),
     (''principal_count'', enc_u64 principal_count)]"

definition dec_watch_start_params :: "json \<Rightarrow> string list option option" where
  "dec_watch_start_params = dec2 [''channels''] (\<lambda>fs. opt fs ''channels'' (dec_list dec_str))"

record deliver_params =
  dp_recipient :: string
  dp_envelope :: envelope

definition enc_deliver_params :: "deliver_params \<Rightarrow> json" where
  "enc_deliver_params p = JObj [(''recipient'', JStr (dp_recipient p)), (''envelope'', enc_envelope (dp_envelope p))]"

definition dec_deliver_params :: "json \<Rightarrow> deliver_params option" where
  "dec_deliver_params = dec2 [''recipient'', ''envelope''] (\<lambda>fs.
     case (req fs ''recipient'' dec_str, req fs ''envelope'' dec_envelope) of
       (Some r, Some e) \<Rightarrow> Some \<lparr>dp_recipient = r, dp_envelope = e\<rparr>
     | _ \<Rightarrow> None)"

definition enc_deliver_result :: "string \<Rightarrow> json" where
  "enc_deliver_result status = JObj [(''status'', JStr status)]"

definition dec_processed_params :: "json \<Rightarrow> (u64 \<times> string) option" where
  "dec_processed_params = dec2 [''message_id'', ''recipient''] (\<lambda>fs.
     case (req fs ''message_id'' dec_u64, req fs ''recipient'' dec_str) of
       (Some i, Some r) \<Rightarrow> Some (i, r)
     | _ \<Rightarrow> None)"

section \<open>Delivery rendering\<close>

definition newline :: string where
  "newline = [CHR 0x0A]"

definition render_delivery :: "envelope \<Rightarrow> string" where
  "render_delivery e =
     (let via = (if to_channels (recipients_of e) = [] then ''(direct message)''
                 else join '' '' (to_channels (recipients_of e)))
      in ''Bus message on '' @ via @ '' from '' @ sender e @ '' (thread '' @ show_u64 (thread_id e)
         @ ''):'' @ newline @ newline @ body e @ newline @ newline
         @ ''To reply, call the send tool with thread_id '' @ show_u64 (thread_id e)
         @ '' addressed to the originating channel and/or sender.'')"

section \<open>Names\<close>

definition name_char :: "char \<Rightarrow> bool" where
  "name_char c \<longleftrightarrow> (CHR ''a'' \<le> c \<and> c \<le> CHR ''z'') \<or> is_digit c \<or> c = CHR ''-''"

definition valid_channel_name :: "string \<Rightarrow> bool" where
  "valid_channel_name n = (case strip_prefix ''#'' n of
     None \<Rightarrow> False | Some rest \<Rightarrow> rest \<noteq> [] \<and> list_all name_char rest)"

definition valid_principal_name :: "string \<Rightarrow> bool" where
  "valid_principal_name n = (case strip_prefix ''@'' n of
     None \<Rightarrow> False | Some rest \<Rightarrow> rest \<noteq> [] \<and> list_all name_char rest)"

end
