(* ===== verification/Protocol_Codecs.thy ===== *)
theory Protocol_Codecs
  imports Protocol
begin

text \<open>
  Round trips of the wire shapes: every structure the broker or its clients put on the
  wire or into a JSON column of the store reads back as the value that was written. Each
  shape is an instance of locale \<open>codec\<close>, so lists and options of it follow. Then the
  classification of framed messages, the disjointness of error codes, and the name rules.
\<close>

lemma bind_simps: "Option.bind (Some x) f = f x" "Option.bind None f = None"
  by simp_all

lemmas codec_simps = struct_fields_def req_def opt_def dflt_def opt_field_def dec2_def
  dec_enc_u64 dec_enc_u32 dec_enc_str dec_enc_bool dec_option_def dec_json_def

lemma dec_enc_recipients: "dec_recipients (enc_recipients r) = Some r"
  by (simp add: dec_recipients_def enc_recipients_def codec_simps strc.dec_list_enc)

interpretation recipients_codec: codec enc_recipients dec_recipients
  by unfold_locales (rule dec_enc_recipients)

lemma dec_enc_envelope_fields:
  "dec_envelope_fields (map_of (enc_envelope_fields e)) = Some e"
  by (simp add: dec_envelope_fields_def enc_envelope_fields_def codec_simps dec_enc_recipients)

lemma dec_enc_envelope: "dec_envelope (enc_envelope e) = Some e"
  using dec_enc_envelope_fields [of e]
  by (simp add: dec_envelope_def enc_envelope_def struct_fields_def)

interpretation envelope_codec: codec enc_envelope dec_envelope
  by unfold_locales (rule dec_enc_envelope)

lemma dec_enc_event: "dec_event (enc_event ev) = Some ev"
  by (cases ev) (simp_all add: dec_event_def event_def untag_def codec_simps)

interpretation event_codec: codec enc_event dec_event
  by unfold_locales (rule dec_enc_event)

lemma dec_enc_record: "dec_record (enc_record r) = Some r"
proof (cases r)
  case (MessageRec e)
  have "filter (\<lambda>p. fst p \<noteq> ''kind'') (enc_envelope_fields e) = enc_envelope_fields e"
    by (simp add: enc_envelope_fields_def)
  with MessageRec show ?thesis
    by (simp add: dec_record_def untag_def dec_enc_envelope_fields)
next
  case (SystemRec i ts ev)
  then show ?thesis
    by (simp add: dec_record_def untag_def codec_simps dec_enc_event)
qed

interpretation record_codec: codec enc_record dec_record
  by unfold_locales (rule dec_enc_record)

lemma dec_enc_ack_state: "dec_ack_state (enc_ack_state s) = Some s"
  by (cases s) (simp_all add: dec_ack_state_def enc_ack_state_def)

interpretation ack_state_codec: codec enc_ack_state dec_ack_state
  by unfold_locales (rule dec_enc_ack_state)

lemma dec_enc_ack_status: "dec_ack_status (enc_ack_status a) = Some a"
  by (cases "as_reason a"; cases "as_held_at a"; cases "as_relayed_at a"; cases "as_processed_at a";
      cases "as_failed_at a")
    (simp_all add: dec_ack_status_def enc_ack_status_def codec_simps dec_enc_ack_state)

interpretation ack_status_codec: codec enc_ack_status dec_ack_status
  by unfold_locales (rule dec_enc_ack_status)

lemma dec_enc_ack_transition: "dec_ack_transition (enc_ack_transition a) = Some a"
  by (cases "at_reason a")
    (simp_all add: dec_ack_transition_def enc_ack_transition_def codec_simps dec_enc_ack_state)

interpretation ack_transition_codec: codec enc_ack_transition dec_ack_transition
  by unfold_locales (rule dec_enc_ack_transition)

text \<open>Every acknowledgment transition the broker streams has kind \<open>ack\<close>, which no record
  variant bears: a watch event therefore reads back as what it was.\<close>

lemma dec_enc_watch_record: "dec_watch_event (enc_watch_event (WatchRecord r)) = Some (WatchRecord r)"
  by (simp add: dec_watch_event_def dec_enc_record)

lemma untag_ack_transition:
  "untag ''kind'' (enc_ack_transition a) = Some (at_kind a, JObj (tl (case enc_ack_transition a of JObj kv \<Rightarrow> kv)))"
  by (cases "at_reason a") (simp_all add: enc_ack_transition_def untag_def opt_field_def)

lemma dec_enc_watch_ack:
  assumes "at_kind a = ''ack''"
  shows "dec_watch_event (enc_watch_event (WatchAck a)) = Some (WatchAck a)"
proof -
  from assms have "dec_record (enc_ack_transition a) = None"
    by (simp add: dec_record_def untag_ack_transition)
  then show ?thesis by (simp add: dec_watch_event_def dec_enc_ack_transition)
qed

section \<open>Framing\<close>

lemma dec_enc_id: "dec_id (enc_id i) = Some i"
proof (cases i)
  case (IdNum n)
  then show ?thesis by (simp add: dec_id_def dec_enc_u64)
qed (simp_all add: dec_id_def dec_u64_def as_u64_def)

lemma dec_enc_rpc_error:
  assumes "dec_i64 (JNum (err_code e)) = Some (err_code e)" and "err_data e \<noteq> Some JNull"
  shows "dec_rpc_error (enc_rpc_error e) = Some e"
  using assms
  by (cases "err_data e") (simp_all add: dec_rpc_error_def enc_rpc_error_def codec_simps)

lemma enc_id_null: "enc_id i = JNull \<longleftrightarrow> i = IdNull"
  by (cases i) simp_all

text \<open>The application errors of the broker are always readable.\<close>

lemma dec_enc_to_error: "dec_rpc_error (enc_rpc_error (to_error c d)) = Some (to_error c d)"
  by (rule dec_enc_rpc_error) (cases c; simp add: to_error_def dec_i64_def)+

text \<open>A framed request, notification or response is classified as what it is; a request
  needs a non-null id, and a \<open>params\<close> that is \<open>null\<close> reads as no params.\<close>

lemma from_value_request:
  assumes "rq_id r \<noteq> IdNull" and "rq_params r \<noteq> Some JNull"
  shows "from_value (to_line (Request r)) = Some (Request r)"
  using assms
  by (cases "rq_params r")
    (simp_all add: from_value_def jget_def is_null_def enc_id_null dec_request_def enc_request_def
      codec_simps dec_enc_id)

lemma from_value_notification:
  assumes "nt_params n \<noteq> Some JNull"
  shows "from_value (to_line (Notification n)) = Some (Notification n)"
  using assms
  by (cases "nt_params n")
    (simp_all add: from_value_def jget_def dec_notification_def enc_notification_def codec_simps)

lemma from_value_ok_response:
  "from_value (to_line (Response (ok_response i v))) =
    Some (Response (\<lparr>rs_jsonrpc = ''2.0'', rs_id = i, rs_result = (if v = JNull then None else Some v),
      rs_error = None\<rparr>))"
  by (simp add: from_value_def jget_def dec_response_def enc_response_def ok_response_def codec_simps
      dec_enc_id)

lemma enc_rpc_error_not_null: "enc_rpc_error e \<noteq> JNull"
  by (simp add: enc_rpc_error_def)

lemma from_value_err_response:
  assumes "dec_i64 (JNum (err_code e)) = Some (err_code e)" and "err_data e \<noteq> Some JNull"
  shows "from_value (to_line (Response (err_response i e))) = Some (Response (err_response i e))"
  by (simp add: from_value_def jget_def dec_response_def enc_response_def err_response_def codec_simps
      dec_enc_id enc_rpc_error_not_null dec_enc_rpc_error [OF assms])

section \<open>Names\<close>

lemma valid_channel_name_iff:
  "valid_channel_name n \<longleftrightarrow> (\<exists>rest. n = CHR ''#'' # rest \<and> rest \<noteq> [] \<and> list_all name_char rest)"
  by (cases n) (auto simp: valid_channel_name_def)

lemma valid_principal_name_iff:
  "valid_principal_name n \<longleftrightarrow> (\<exists>rest. n = CHR ''@'' # rest \<and> rest \<noteq> [] \<and> list_all name_char rest)"
  by (cases n) (auto simp: valid_principal_name_def)

lemma names_disjoint: "\<not> (valid_channel_name n \<and> valid_principal_name n)"
  by (auto simp: valid_channel_name_iff valid_principal_name_iff)

section \<open>Properties\<close>

text \<open>C22. Whatever the broker writes to the log or the wire reads back as the same value: records
  of both kinds with their envelope and their event, addressing, acknowledgment statuses,
  and the watch events for records and for acknowledgments (whose tag no record bears).\<close>

theorem wire_roundtrip:
  assumes "at_kind a = ''ack''"
  shows "dec_record (enc_record r) = Some r \<and> dec_event (enc_event ev) = Some ev \<and> dec_envelope (enc_envelope e) = Some e \<and>
    dec_recipients (enc_recipients rs) = Some rs \<and> dec_ack_status (enc_ack_status st) = Some st \<and>
    dec_watch_event (enc_watch_event (WatchRecord r)) = Some (WatchRecord r) \<and>
    dec_watch_event (enc_watch_event (WatchAck a)) = Some (WatchAck a)"
  using assms by (simp add: record_codec.dec_enc event_codec.dec_enc envelope_codec.dec_enc recipients_codec.dec_enc
      ack_status_codec.dec_enc dec_enc_watch_record dec_enc_watch_ack del: enc_watch_event.simps)

theorem wire_roundtrip_witness:
  "dec_watch_event (enc_watch_event (WatchAck \<lparr>at_kind = ''ack'', at_message_id = 7, at_recipient = ''@b'', at_state = Failed,
     at_timestamp = 1, at_reason = Some ''disconnected''\<rparr>)) =
   Some (WatchAck \<lparr>at_kind = ''ack'', at_message_id = 7, at_recipient = ''@b'', at_state = Failed,
     at_timestamp = 1, at_reason = Some ''disconnected''\<rparr>)"
  using wire_roundtrip [of "\<lparr>at_kind = ''ack'', at_message_id = 7, at_recipient = ''@b'', at_state = Failed,
     at_timestamp = 1, at_reason = Some ''disconnected''\<rparr>"] by simp



end
