(* ===== verification/Store.thy ===== *)
theory Store
  imports Protocol_Codecs
begin

text \<open>
  The SQLite store (\<open>crates/broker/src/store.rs\<close>). The tables of the schema are lists of
  rows in rowid order; each SQL statement of the source is a function on them that either
  fails or yields a result and the new tables, with the constraints the schema declares
  (primary keys, \<open>UNIQUE\<close>, \<open>NOT NULL\<close>, foreign keys enforced by
  \<open>PRAGMA foreign_keys = ON\<close>, \<open>AUTOINCREMENT\<close>). The connection carries a fault schedule:
  one entry per executed statement, naming the engine error it fails with, so that every
  operation is considered under every possible sequence of storage failures; an exhausted
  schedule is a healthy engine. A transaction that is not committed leaves the tables as
  it found them. \<open>clock\<close> is what \<open>now_ms\<close> reads.
\<close>

section \<open>Rows and tables\<close>

datatype jtext = BadText | Text json

record channel_row =
  ch_id :: int
  ch_name :: string
  ch_archived :: int

record principal_row =
  pr_id :: int
  pr_name :: string

record record_row =
  r_id :: int
  r_kind :: string
  r_timestamp :: int
  r_thread_id :: "int option"
  r_sender :: "string option"
  r_body :: "string option"
  r_truncated :: "int option"
  r_recipients_json :: "jtext option"
  r_event_json :: "jtext option"
  r_channel_ref :: "int option"

record ack_row =
  a_record_id :: int
  a_recipient :: string
  a_state :: string
  a_reason :: "string option"
  a_held_at :: "int option"
  a_relayed_at :: "int option"
  a_processed_at :: "int option"
  a_failed_at :: "int option"

record tables =
  t_schema_version :: "string option"
  t_channels :: "channel_row list"
  t_principals :: "principal_row list"
  t_subscriptions :: "(int \<times> int) list"
  t_overrides :: "((int \<times> int) \<times> string) list"
  t_records :: "record_row list"
  t_record_channels :: "(int \<times> int) list"
  t_record_participants :: "(int \<times> string) list"
  t_acks :: "ack_row list"
  seq_channels :: int
  seq_principals :: int
  seq_records :: int

definition empty_tables :: tables where
  "empty_tables = \<lparr>t_schema_version = None, t_channels = [], t_principals = [], t_subscriptions = [],
     t_overrides = [], t_records = [], t_record_channels = [], t_record_participants = [], t_acks = [],
     seq_channels = 0, seq_principals = 0, seq_records = 0\<rparr>"

definition ack_key :: "ack_row \<Rightarrow> int \<times> string" where
  "ack_key a = (a_record_id a, a_recipient a)"

datatype sql_error = ConstraintViolation string | DiskFull | ConversionFailure | EngineFailure string

datatype store_error = StNameTaken | NewerSchema int int | Sql sql_error

datatype override_mode = Forced | Cancelled

fun as_mode_str :: "override_mode \<Rightarrow> string" where
  "as_mode_str Forced = ''forced''"
| "as_mode_str Cancelled = ''cancelled''"

datatype sub_outcome = Applied log_record | NoChange | Denied override_mode

section \<open>Statements and transactions\<close>

record conn =
  tabs :: tables
  faults :: "string option list"
  clock :: u64

type_synonym 'a db = "(conn, store_error, 'a) em"

definition stmt :: "(tables \<Rightarrow> sql_error + 'a \<times> tables) \<Rightarrow> 'a db" where
  "stmt f c =
     (let c' = c\<lparr>faults := tl (faults c)\<rparr> in
      case faults c of
        Some txt # _ \<Rightarrow> (Inl (Sql (EngineFailure txt)), c')
      | _ \<Rightarrow> (case f (tabs c) of
            Inl e \<Rightarrow> (Inl (Sql e), c')
          | Inr (x, t) \<Rightarrow> (Inr x, c'\<lparr>tabs := t\<rparr>)))"

definition query :: "(tables \<Rightarrow> 'a) \<Rightarrow> 'a db" where
  "query q = stmt (\<lambda>t. Inr (q t, t))"

text \<open>A query whose rows are converted one by one; the first row that does not convert
  fails the query.\<close>

fun convert_rows :: "('r \<Rightarrow> 'a option) \<Rightarrow> 'r list \<Rightarrow> 'a list option" where
  "convert_rows f [] = Some []"
| "convert_rows f (r # rs) =
     (case f r of None \<Rightarrow> None | Some x \<Rightarrow> map_option (Cons x) (convert_rows f rs))"

definition query_map :: "('r \<Rightarrow> 'a option) \<Rightarrow> (tables \<Rightarrow> 'r list) \<Rightarrow> 'a list db" where
  "query_map f q = stmt (\<lambda>t. case convert_rows f (q t) of
     None \<Rightarrow> Inl ConversionFailure | Some xs \<Rightarrow> Inr (xs, t))"

text \<open>\<open>query_row(..).optional()\<close>: the first row if there is one.\<close>

definition query_row :: "('r \<Rightarrow> 'a option) \<Rightarrow> (tables \<Rightarrow> 'r list) \<Rightarrow> 'a option db" where
  "query_row f q = stmt (\<lambda>t. case q t of
     [] \<Rightarrow> Inr (None, t)
   | r # _ \<Rightarrow> (case f r of None \<Rightarrow> Inl ConversionFailure | Some x \<Rightarrow> Inr (Some x, t)))"

text \<open>A transaction ends with \<open>commit()\<close> or is dropped, which rolls back.\<close>

datatype 'a tx_end = Commit 'a | Drop 'a

definition nop :: "tables \<Rightarrow> sql_error + unit \<times> tables" where
  "nop t = Inr ((), t)"

definition transaction :: "'a tx_end db \<Rightarrow> 'a db" where
  "transaction m c = (case bindE (stmt nop) (\<lambda>_. m) c of
      (Inl e, c') \<Rightarrow> (Inl e, c'\<lparr>tabs := tabs c\<rparr>)
    | (Inr (Drop x), c') \<Rightarrow> (Inr x, c'\<lparr>tabs := tabs c\<rparr>)
    | (Inr (Commit x), c') \<Rightarrow> (case stmt nop c' of
          (Inl e, c'') \<Rightarrow> (Inl e, c''\<lparr>tabs := tabs c\<rparr>)
        | (Inr _, c'') \<Rightarrow> (Inr x, c'')))"

text \<open>\<open>now_ms\<close>.\<close>

definition now_ms :: "u64 db" where
  "now_ms = getE clock"

text \<open>\<open>AUTOINCREMENT\<close>: one more than the largest rowid ever used; a full table is an
  error.\<close>

definition max_rowid :: int where
  "max_rowid = 2 ^ 63 - 1"

section \<open>The statements\<close>

definition ins_channel :: "string \<Rightarrow> tables \<Rightarrow> sql_error + int \<times> tables" where
  "ins_channel nm t =
     (if seq_channels t \<ge> max_rowid then Inl DiskFull
      else if nm \<in> ch_name ` set (t_channels t) then Inl (ConstraintViolation ''UNIQUE constraint failed: channels.name'')
      else let i = seq_channels t + 1 in
        Inr (i, t\<lparr>t_channels := t_channels t @ [\<lparr>ch_id = i, ch_name = nm, ch_archived = 0\<rparr>],
                  seq_channels := i\<rparr>))"

definition upd_channel_name :: "string \<Rightarrow> int \<Rightarrow> tables \<Rightarrow> sql_error + unit \<times> tables" where
  "upd_channel_name nm i t =
     (if i \<in> ch_id ` set (t_channels t) \<and> (\<exists>r \<in> set (t_channels t). ch_id r \<noteq> i \<and> ch_name r = nm)
      then Inl (ConstraintViolation ''UNIQUE constraint failed: channels.name'')
      else Inr ((), t\<lparr>t_channels := map (\<lambda>r. if ch_id r = i then r\<lparr>ch_name := nm\<rparr> else r) (t_channels t)\<rparr>))"

definition upd_channel_archived :: "bool \<Rightarrow> int \<Rightarrow> tables \<Rightarrow> sql_error + unit \<times> tables" where
  "upd_channel_archived arch i t =
     Inr ((), t\<lparr>t_channels := map (\<lambda>r. if ch_id r = i then r\<lparr>ch_archived := of_bool arch\<rparr> else r) (t_channels t)\<rparr>)"

definition fk_failed :: sql_error where
  "fk_failed = ConstraintViolation ''FOREIGN KEY constraint failed''"

definition del_channel :: "int \<Rightarrow> tables \<Rightarrow> sql_error + unit \<times> tables" where
  "del_channel i t =
     (if i \<in> ch_id ` set (t_channels t) \<and> (i \<in> snd ` set (t_subscriptions t) \<or>
          i \<in> (snd \<circ> fst) ` set (t_overrides t) \<or> i \<in> snd ` set (t_record_channels t))
      then Inl fk_failed
      else Inr ((), t\<lparr>t_channels := filter (\<lambda>r. ch_id r \<noteq> i) (t_channels t)\<rparr>))"

definition del_subscriptions_of :: "int \<Rightarrow> tables \<Rightarrow> sql_error + unit \<times> tables" where
  "del_subscriptions_of i t =
     Inr ((), t\<lparr>t_subscriptions := filter (\<lambda>s. snd s \<noteq> i) (t_subscriptions t)\<rparr>)"

definition del_overrides_of :: "int \<Rightarrow> tables \<Rightarrow> sql_error + unit \<times> tables" where
  "del_overrides_of i t =
     Inr ((), t\<lparr>t_overrides := filter (\<lambda>s. snd (fst s) \<noteq> i) (t_overrides t)\<rparr>)"

definition ins_principal :: "string \<Rightarrow> tables \<Rightarrow> sql_error + unit \<times> tables" where
  "ins_principal nm t =
     (if nm \<in> pr_name ` set (t_principals t) then Inr ((), t)
      else if seq_principals t \<ge> max_rowid then Inl DiskFull
      else let i = seq_principals t + 1 in
        Inr ((), t\<lparr>t_principals := t_principals t @ [\<lparr>pr_id = i, pr_name = nm\<rparr>], seq_principals := i\<rparr>))"

definition fk_pair :: "int \<Rightarrow> int \<Rightarrow> tables \<Rightarrow> bool" where
  "fk_pair p c t \<longleftrightarrow> p \<in> pr_id ` set (t_principals t) \<and> c \<in> ch_id ` set (t_channels t)"

text \<open>\<open>ON CONFLICT DO NOTHING\<close> and \<open>DELETE\<close> yield the number of changed rows.\<close>

definition ins_subscription :: "int \<Rightarrow> int \<Rightarrow> tables \<Rightarrow> sql_error + nat \<times> tables" where
  "ins_subscription p c t =
     (if (p, c) \<in> set (t_subscriptions t) then Inr (0, t)
      else if \<not> fk_pair p c t then Inl fk_failed
      else Inr (1, t\<lparr>t_subscriptions := t_subscriptions t @ [(p, c)]\<rparr>))"

definition del_subscription :: "int \<Rightarrow> int \<Rightarrow> tables \<Rightarrow> sql_error + nat \<times> tables" where
  "del_subscription p c t =
     Inr (length (filter (\<lambda>s. s = (p, c)) (t_subscriptions t)),
          t\<lparr>t_subscriptions := filter (\<lambda>s. s \<noteq> (p, c)) (t_subscriptions t)\<rparr>)"

definition upsert_override :: "int \<Rightarrow> int \<Rightarrow> string \<Rightarrow> tables \<Rightarrow> sql_error + unit \<times> tables" where
  "upsert_override p c mode t =
     (if (p, c) \<in> fst ` set (t_overrides t)
      then Inr ((), t\<lparr>t_overrides := map (\<lambda>o'. if fst o' = (p, c) then ((p, c), mode) else o') (t_overrides t)\<rparr>)
      else if \<not> fk_pair p c t then Inl fk_failed
      else Inr ((), t\<lparr>t_overrides := t_overrides t @ [((p, c), mode)]\<rparr>))"

text \<open>\<open>INSERT INTO records\<close>: the row is given without its id.\<close>

definition ins_record :: "record_row \<Rightarrow> tables \<Rightarrow> sql_error + int \<times> tables" where
  "ins_record r t =
     (if seq_records t \<ge> max_rowid then Inl DiskFull
      else let i = seq_records t + 1 in
        Inr (i, t\<lparr>t_records := t_records t @ [r\<lparr>r_id := i\<rparr>], seq_records := i\<rparr>))"

definition upd_thread_id :: "int \<Rightarrow> int \<Rightarrow> tables \<Rightarrow> sql_error + unit \<times> tables" where
  "upd_thread_id th i t =
     Inr ((), t\<lparr>t_records := map (\<lambda>r. if r_id r = i then r\<lparr>r_thread_id := Some th\<rparr> else r) (t_records t)\<rparr>)"

definition ins_record_channel :: "int \<Rightarrow> int \<Rightarrow> tables \<Rightarrow> sql_error + unit \<times> tables" where
  "ins_record_channel i c t =
     (if (i, c) \<in> set (t_record_channels t) then
        Inl (ConstraintViolation ''UNIQUE constraint failed: record_channels.record_id, record_channels.channel_id'')
      else if i \<notin> r_id ` set (t_records t) \<or> c \<notin> ch_id ` set (t_channels t) then Inl fk_failed
      else Inr ((), t\<lparr>t_record_channels := t_record_channels t @ [(i, c)]\<rparr>))"

definition ins_participant :: "int \<Rightarrow> string \<Rightarrow> tables \<Rightarrow> sql_error + unit \<times> tables" where
  "ins_participant i p t =
     (if (i, p) \<in> set (t_record_participants t) then Inr ((), t)
      else if i \<notin> r_id ` set (t_records t) then Inl fk_failed
      else Inr ((), t\<lparr>t_record_participants := t_record_participants t @ [(i, p)]\<rparr>))"

definition ins_ack :: "ack_row \<Rightarrow> tables \<Rightarrow> sql_error + unit \<times> tables" where
  "ins_ack a t =
     (if ack_key a \<in> ack_key ` set (t_acks t) then
        Inl (ConstraintViolation ''UNIQUE constraint failed: acks.record_id, acks.recipient'')
      else if a_record_id a \<notin> r_id ` set (t_records t) then Inl fk_failed
      else Inr ((), t\<lparr>t_acks := t_acks t @ [a]\<rparr>))"

definition upd_ack :: "int \<Rightarrow> string \<Rightarrow> (ack_row \<Rightarrow> ack_row) \<Rightarrow> tables \<Rightarrow> sql_error + unit \<times> tables" where
  "upd_ack i p f t =
     Inr ((), t\<lparr>t_acks := map (\<lambda>a. if ack_key a = (i, p) then f a else a) (t_acks t)\<rparr>)"

definition del_acks_of :: "int \<Rightarrow> tables \<Rightarrow> sql_error + unit \<times> tables" where
  "del_acks_of i t = Inr ((), t\<lparr>t_acks := filter (\<lambda>a. a_record_id a \<noteq> i) (t_acks t)\<rparr>)"

definition del_participants_of :: "int \<Rightarrow> tables \<Rightarrow> sql_error + unit \<times> tables" where
  "del_participants_of i t =
     Inr ((), t\<lparr>t_record_participants := filter (\<lambda>p. fst p \<noteq> i) (t_record_participants t)\<rparr>)"

definition del_record_channels_of :: "int \<Rightarrow> tables \<Rightarrow> sql_error + unit \<times> tables" where
  "del_record_channels_of c t =
     Inr ((), t\<lparr>t_record_channels := filter (\<lambda>p. snd p \<noteq> c) (t_record_channels t)\<rparr>)"

definition del_record :: "int \<Rightarrow> tables \<Rightarrow> sql_error + unit \<times> tables" where
  "del_record i t =
     (if i \<in> r_id ` set (t_records t) \<and> (i \<in> fst ` set (t_record_channels t) \<or>
          i \<in> fst ` set (t_record_participants t) \<or> i \<in> a_record_id ` set (t_acks t))
      then Inl fk_failed
      else Inr ((), t\<lparr>t_records := filter (\<lambda>r. r_id r \<noteq> i) (t_records t)\<rparr>))"

definition detach_channel_ref :: "int \<Rightarrow> tables \<Rightarrow> sql_error + unit \<times> tables" where
  "detach_channel_ref c t =
     Inr ((), t\<lparr>t_records := map (\<lambda>r. if r_channel_ref r = Some c then r\<lparr>r_channel_ref := None\<rparr> else r) (t_records t)\<rparr>)"


section \<open>System records\<close>

definition system_row :: "u64 \<Rightarrow> system_event \<Rightarrow> int option \<Rightarrow> record_row" where
  "system_row ts ev channel_ref = \<lparr>r_id = 0, r_kind = ''system'', r_timestamp = sint ts, r_thread_id = None,
     r_sender = None, r_body = None, r_truncated = None, r_recipients_json = None,
     r_event_json = Some (Text (enc_event ev)), r_channel_ref = channel_ref\<rparr>"

definition append_system_in :: "system_event \<Rightarrow> int option \<Rightarrow> log_record db" where
  "append_system_in ev channel_ref =
     bindE now_ms (\<lambda>ts.
     bindE (stmt (ins_record (system_row ts ev channel_ref))) (\<lambda>i.
     returnE (SystemRec (word_of_int i) ts ev)))"

section \<open>Schema\<close>

definition schema_version :: int where
  "schema_version = 2"

definition current_version :: string where
  "current_version = ''2''"

text \<open>The tables of a database that was just made.\<close>

definition versioned :: "tables \<Rightarrow> tables" where
  "versioned t = t\<lparr>t_schema_version := Some current_version\<rparr>"

definition new_tables :: tables where
  "new_tables = versioned empty_tables"

text \<open>\<open>str::parse::<i64>\<close>: an optional sign, digits, in range.\<close>

definition parse_i64 :: "string \<Rightarrow> int option" where
  "parse_i64 s = (case s of
      c # cs \<Rightarrow> if c = CHR ''-'' then
          (if cs \<noteq> [] \<and> list_all is_digit cs \<and> digits_val 0 cs \<le> 2 ^ 63 then Some (- int (digits_val 0 cs)) else None)
        else map_option int (parse_unsigned (2 ^ 63) s)
    | [] \<Rightarrow> None)"

text \<open>\<open>IF NOT EXISTS\<close>: the schema is in place in every database, empty or not, so a batch of
  these statements changes nothing unless it fails; the same goes for a pragma.\<close>

definition ensure_schema :: "unit db" where
  "ensure_schema = stmt (\<lambda>t. Inr ((), t))"

definition pragma_update :: "unit db" where
  "pragma_update = stmt (\<lambda>t. Inr ((), t))"

definition migrate :: "unit db" where
  "migrate =
     bindE ensure_schema (\<lambda>_.
     bindE (query t_schema_version) (\<lambda>found.
     bindE (case found of None \<Rightarrow> returnE ()
            | Some v \<Rightarrow> (let n = (case parse_i64 v of None \<Rightarrow> 0 | Some n \<Rightarrow> n) in
                if n > schema_version then failE (NewerSchema n schema_version) else returnE ())) (\<lambda>_.
     bindE ensure_schema (\<lambda>_.
     stmt (\<lambda>t. Inr ((), versioned t))))))"

text \<open>Opening: the parent directory is made if the path has one, and the connection opened; how
  these go is given.\<close>

datatype open_error = OpenIo string | OpenStore store_error

definition finish_open :: "unit db \<Rightarrow> string + conn \<Rightarrow> open_error + conn" where
  "finish_open m connection = (case connection of
      Inl e \<Rightarrow> Inl (OpenIo e)
    | Inr c \<Rightarrow> (case m c of (Inl e, _) \<Rightarrow> Inl (OpenStore e) | (Inr _, c') \<Rightarrow> Inr c'))"

definition open_store :: "(string + unit) option \<Rightarrow> string + conn \<Rightarrow> open_error + conn" where
  "open_store parent connection = (case parent of
      Some (Inl e) \<Rightarrow> Inl (OpenIo e)
    | _ \<Rightarrow> finish_open (bindE pragma_update (\<lambda>_. bindE pragma_update (\<lambda>_. migrate))) connection)"

definition open_in_memory :: "string + conn \<Rightarrow> open_error + conn" where
  "open_in_memory = finish_open (bindE pragma_update (\<lambda>_. migrate))"

section \<open>Channels\<close>

text \<open>A constraint violation of an insert or rename of a channel means the name is taken;
  any other SQL error passes through.\<close>

definition name_taken_on_constraint :: "'a db \<Rightarrow> 'a db" where
  "name_taken_on_constraint m = handleE m
     (\<lambda>e. failE (case e of Sql (ConstraintViolation _) \<Rightarrow> StNameTaken | _ \<Rightarrow> e)) returnE"

definition create_channel_logged :: "string \<Rightarrow> string \<Rightarrow> (int \<times> log_record) db" where
  "create_channel_logged nm actor = transaction (
     bindE (name_taken_on_constraint (stmt (ins_channel nm))) (\<lambda>i.
     bindE (append_system_in (ChannelCreated nm actor) (Some i)) (\<lambda>record.
     returnE (Commit (i, record)))))"

definition channel_by_name :: "string \<Rightarrow> channel_row option db" where
  "channel_by_name nm = query_row Some (\<lambda>t. filter (\<lambda>r. ch_name r = nm) (t_channels t))"

definition rename_channel_logged :: "int \<Rightarrow> string \<Rightarrow> string \<Rightarrow> string \<Rightarrow> log_record db" where
  "rename_channel_logged i old_name new_name actor = transaction (
     bindE (name_taken_on_constraint (stmt (upd_channel_name new_name i))) (\<lambda>_.
     bindE (append_system_in (ChannelRenamed old_name new_name actor) (Some i)) (\<lambda>record.
     returnE (Commit record))))"

text \<open>\<open>SELECT p.name FROM subscriptions s JOIN principals p .. ORDER BY p.name\<close>.\<close>

definition subscriber_names :: "int \<Rightarrow> tables \<Rightarrow> string list" where
  "subscriber_names c t = sort (concat (map (\<lambda>s. if snd s = c
     then map pr_name (filter (\<lambda>p. pr_id p = fst s) (t_principals t)) else []) (t_subscriptions t)))"

definition archive_channel :: "int \<Rightarrow> string \<Rightarrow> string \<Rightarrow> bool \<Rightarrow> log_record list db" where
  "archive_channel i nm actor archive = transaction (
     bindE (stmt (upd_channel_archived archive i)) (\<lambda>_.
     if archive then
       bindE (query (subscriber_names i)) (\<lambda>names.
       bindE (stmt (del_subscriptions_of i)) (\<lambda>_.
       bindE (stmt (del_overrides_of i)) (\<lambda>_.
       bindE (mapE (\<lambda>p. append_system_in (Unsubscribed p nm True) (Some i)) names) (\<lambda>records.
       bindE (append_system_in (ChannelArchived nm actor) (Some i)) (\<lambda>record.
       returnE (Commit (records @ [record])))))))
     else
       bindE (append_system_in (ChannelUnarchived nm actor) (Some i)) (\<lambda>record.
       returnE (Commit [record]))))"

text \<open>The records that belong to this channel and to no other.\<close>

definition sole_records :: "int \<Rightarrow> tables \<Rightarrow> int list" where
  "sole_records c t = map fst (filter (\<lambda>rc. snd rc = c \<and>
     \<not> (\<exists>o' \<in> set (t_record_channels t). fst o' = fst rc \<and> snd o' \<noteq> c)) (t_record_channels t))"

definition delete_channel_logged :: "int \<Rightarrow> string \<Rightarrow> string \<Rightarrow> (u64 \<times> log_record) db" where
  "delete_channel_logged c nm actor = transaction (
     bindE (query (sole_records c)) (\<lambda>sole.
     bindE (eachE (\<lambda>rid. bindE (stmt (del_acks_of rid)) (\<lambda>_. stmt (del_participants_of rid))) sole) (\<lambda>_.
     bindE (stmt (del_record_channels_of c)) (\<lambda>_.
     bindE (eachE (\<lambda>rid. stmt (del_record rid)) sole) (\<lambda>_.
     bindE (stmt (detach_channel_ref c)) (\<lambda>_.
     bindE (stmt (del_subscriptions_of c)) (\<lambda>_.
     bindE (stmt (del_overrides_of c)) (\<lambda>_.
     bindE (stmt (del_channel c)) (\<lambda>_.
     bindE (append_system_in (ChannelDeleted (word_of_int c) nm (of_nat (length sole)) actor) None) (\<lambda>record.
     returnE (Commit (of_nat (length sole), record))))))))))))"

definition live_channels :: "channel_row list db" where
  "live_channels = query (\<lambda>t. sort_key ch_name (filter (\<lambda>r. ch_archived r = 0) (t_channels t)))"

definition channel_count :: "u64 db" where
  "channel_count = query (\<lambda>t. of_nat (length (t_channels t)))"

section \<open>Principals\<close>

definition register_principal :: "string \<Rightarrow> bool \<Rightarrow> log_record db" where
  "register_principal nm admin = transaction (
     bindE (stmt (ins_principal nm)) (\<lambda>_.
     bindE (append_system_in (Registered nm admin) None) (\<lambda>record.
     returnE (Commit record))))"

definition principal_id :: "string \<Rightarrow> int option db" where
  "principal_id nm = query_row (\<lambda>r. Some (pr_id r)) (\<lambda>t. filter (\<lambda>r. pr_name r = nm) (t_principals t))"

definition all_principals :: "string list db" where
  "all_principals = query (\<lambda>t. sort (map pr_name (t_principals t)))"

definition principal_count :: "u64 db" where
  "principal_count = query (\<lambda>t. of_nat (length (t_principals t)))"

section \<open>Subscriptions\<close>

definition parse_mode :: "string \<Rightarrow> override_mode option" where
  "parse_mode s = (if s = ''forced'' then Some Forced else if s = ''cancelled'' then Some Cancelled else None)"

definition override_in :: "int \<Rightarrow> int \<Rightarrow> override_mode option db" where
  "override_in p c =
     bindE (query_row (\<lambda>o'. Some (snd o')) (\<lambda>t. filter (\<lambda>o'. fst o' = (p, c)) (t_overrides t))) (\<lambda>mode.
     returnE (Option.bind mode parse_mode))"

definition apply_membership :: "int \<Rightarrow> int \<Rightarrow> bool \<Rightarrow> bool db" where
  "apply_membership p c subscribe =
     bindE (if subscribe then stmt (ins_subscription p c) else stmt (del_subscription p c)) (\<lambda>changed.
     returnE (changed > 0))"

definition subscription_event :: "string \<Rightarrow> string \<Rightarrow> bool \<Rightarrow> bool \<Rightarrow> system_event" where
  "subscription_event pname channel subscribe by_admin =
     (if subscribe then Subscribed pname channel by_admin else Unsubscribed pname channel by_admin)"

definition self_subscription :: "int \<Rightarrow> int \<Rightarrow> bool \<Rightarrow> string \<Rightarrow> string \<Rightarrow> sub_outcome db" where
  "self_subscription p c subscribe pname channel = transaction (
     bindE (override_in p c) (\<lambda>mode.
     if subscribe \<and> mode = Some Cancelled then returnE (Drop (Denied Cancelled))
     else if \<not> subscribe \<and> mode = Some Forced then returnE (Drop (Denied Forced))
     else bindE (apply_membership p c subscribe) (\<lambda>changed.
       if \<not> changed then returnE (Commit NoChange)
       else bindE (append_system_in (subscription_event pname channel subscribe False) (Some c)) (\<lambda>record.
         returnE (Commit (Applied record))))))"

definition admin_subscription :: "int \<Rightarrow> int \<Rightarrow> bool \<Rightarrow> string \<Rightarrow> string \<Rightarrow> log_record option db" where
  "admin_subscription p c subscribe pname channel =
     (let mode = (if subscribe then Forced else Cancelled) in transaction (
     bindE (override_in p c) (\<lambda>old.
     let policy_changed = (old \<noteq> Some mode) in
     bindE (stmt (upsert_override p c (as_mode_str mode))) (\<lambda>_.
     bindE (apply_membership p c subscribe) (\<lambda>membership_changed.
     if \<not> policy_changed \<and> \<not> membership_changed then returnE (Commit None)
     else bindE (append_system_in (subscription_event pname channel subscribe True) (Some c)) (\<lambda>record.
       returnE (Commit (Some record))))))))"

definition subscribers_of :: "int \<Rightarrow> string list db" where
  "subscribers_of c = query (subscriber_names c)"

definition is_subscribed :: "int \<Rightarrow> int \<Rightarrow> bool db" where
  "is_subscribed p c = bindE (query_row (\<lambda>_. Some ()) (\<lambda>t. filter (\<lambda>s. s = (p, c)) (t_subscriptions t)))
     (\<lambda>r. returnE (r \<noteq> None))"

section \<open>Messages\<close>

text \<open>The row \<open>INSERT INTO records\<close> writes for a message, before the thread id is set.\<close>

definition message_row :: "u64 \<Rightarrow> u64 option \<Rightarrow> string \<Rightarrow> string \<Rightarrow> bool \<Rightarrow> recipients \<Rightarrow> record_row" where
  "message_row ts thread author contents trunc rcpts = \<lparr>r_id = 0, r_kind = ''message'', r_timestamp = sint ts,
     r_thread_id = map_option sint thread, r_sender = Some author, r_body = Some contents,
     r_truncated = Some (of_bool trunc), r_recipients_json = Some (Text (enc_recipients rcpts)),
     r_event_json = None, r_channel_ref = None\<rparr>"

definition held_row :: "int \<Rightarrow> u64 \<Rightarrow> string \<Rightarrow> ack_row" where
  "held_row i ts p = \<lparr>a_record_id = i, a_recipient = p, a_state = ''held'', a_reason = None,
     a_held_at = Some (sint ts), a_relayed_at = None, a_processed_at = None, a_failed_at = None\<rparr>"

definition absent_row :: "int \<Rightarrow> u64 \<Rightarrow> string \<Rightarrow> ack_row" where
  "absent_row i ts p = \<lparr>a_record_id = i, a_recipient = p, a_state = ''failed'', a_reason = Some ''disconnected'',
     a_held_at = None, a_relayed_at = None, a_processed_at = None, a_failed_at = Some (sint ts)\<rparr>"

definition append_message_with_acks ::
  "string \<Rightarrow> recipients \<Rightarrow> string \<Rightarrow> bool \<Rightarrow> u64 option \<Rightarrow> int list \<Rightarrow> string list \<Rightarrow> string list \<Rightarrow> envelope db" where
  "append_message_with_acks author rcpts contents trunc thread channel_ids held failed_disconnected = transaction (
     bindE now_ms (\<lambda>ts.
     bindE (stmt (ins_record (message_row ts thread author contents trunc rcpts))) (\<lambda>i.
     let th = (case thread of None \<Rightarrow> word_of_int i | Some w \<Rightarrow> w) in
     bindE (stmt (upd_thread_id (sint th) i)) (\<lambda>_.
     bindE (eachE (\<lambda>c. stmt (ins_record_channel i c)) channel_ids) (\<lambda>_.
     bindE (if channel_ids = []
            then bindE (stmt (ins_participant i author)) (\<lambda>_.
                 eachE (\<lambda>p. stmt (ins_participant i p)) (to_principals rcpts))
            else returnE ()) (\<lambda>_.
     bindE (eachE (\<lambda>p. stmt (ins_ack (held_row i ts p))) held) (\<lambda>_.
     bindE (eachE (\<lambda>p. stmt (ins_ack (absent_row i ts p))) failed_disconnected) (\<lambda>_.
     returnE (Commit \<lparr>message_id = word_of_int i, thread_id = th, timestamp = ts, sender = author,
       recipients_of = rcpts, body = contents, truncated = trunc\<rparr>)))))))))"

definition append_system :: "system_event \<Rightarrow> int option \<Rightarrow> log_record db" where
  "append_system ev channel_ref = append_system_in ev channel_ref"

definition message_exists :: "u64 \<Rightarrow> bool db" where
  "message_exists i = bindE (query_row (\<lambda>_. Some ())
       (\<lambda>t. filter (\<lambda>r. r_id r = sint i \<and> r_kind r = ''message'') (t_records t)))
     (\<lambda>r. returnE (r \<noteq> None))"

definition json_column :: "(json \<Rightarrow> 'a option) \<Rightarrow> jtext \<Rightarrow> 'a option" where
  "json_column d raw = (case raw of BadText \<Rightarrow> None | Text j \<Rightarrow> d j)"

definition row_to_envelope :: "record_row \<Rightarrow> envelope option" where
  "row_to_envelope r = (case (r_recipients_json r, r_thread_id r, r_sender r, r_body r, r_truncated r) of
      (Some raw, Some th, Some s, Some b, Some tr) \<Rightarrow> (case json_column dec_recipients raw of
          None \<Rightarrow> None
        | Some rcpts \<Rightarrow> Some \<lparr>message_id = word_of_int (r_id r), thread_id = word_of_int th,
            timestamp = word_of_int (r_timestamp r), sender = s, recipients_of = rcpts, body = b,
            truncated = (tr \<noteq> 0)\<rparr>)
    | _ \<Rightarrow> None)"

definition row_to_record :: "record_row \<Rightarrow> log_record option" where
  "row_to_record r =
     (if r_kind r = ''message'' then
        (case r_recipients_json r of None \<Rightarrow> None
         | Some raw \<Rightarrow> (case json_column dec_recipients raw of None \<Rightarrow> None
           | Some rcpts \<Rightarrow> Some (MessageRec \<lparr>message_id = word_of_int (r_id r),
               thread_id = word_of_int (case r_thread_id r of None \<Rightarrow> 0 | Some th \<Rightarrow> th),
               timestamp = word_of_int (r_timestamp r),
               sender = (case r_sender r of None \<Rightarrow> [] | Some s \<Rightarrow> s), recipients_of = rcpts,
               body = (case r_body r of None \<Rightarrow> [] | Some b \<Rightarrow> b),
               truncated = ((case r_truncated r of None \<Rightarrow> 0 | Some v \<Rightarrow> v) \<noteq> 0)\<rparr>)))
      else
        (case r_event_json r of None \<Rightarrow> None
         | Some raw \<Rightarrow> map_option (SystemRec (word_of_int (r_id r)) (word_of_int (r_timestamp r)))
             (json_column dec_event raw)))"

definition envelope_of :: "u64 \<Rightarrow> envelope option db" where
  "envelope_of i = query_row row_to_envelope
     (\<lambda>t. filter (\<lambda>r. r_id r = sint i \<and> r_kind r = ''message'') (t_records t))"

text \<open>\<open>ORDER BY r.id DESC LIMIT n\<close>, then reversed: newest last.\<close>

definition before_bound :: "u64 option \<Rightarrow> int" where
  "before_bound b = (case b of None \<Rightarrow> max_rowid | Some w \<Rightarrow> sint w)"

definition page :: "u32 \<Rightarrow> record_row list \<Rightarrow> record_row list" where
  "page limit rows = take (unat limit) (rev (sort_key r_id rows))"

definition in_channel :: "tables \<Rightarrow> int \<Rightarrow> record_row \<Rightarrow> bool" where
  "in_channel t c r \<longleftrightarrow> (r_id r, c) \<in> set (t_record_channels t) \<or>
     (r_kind r = ''system'' \<and> r_channel_ref r = Some c)"

definition history_channel :: "int \<Rightarrow> u64 option \<Rightarrow> u32 \<Rightarrow> log_record list db" where
  "history_channel c before limit =
     bindE (query_map row_to_record (\<lambda>t. page limit
       (filter (\<lambda>r. r_id r < before_bound before \<and> in_channel t c r) (t_records t)))) (\<lambda>rows.
     returnE (rev rows))"

definition in_dm :: "tables \<Rightarrow> string \<Rightarrow> string \<Rightarrow> record_row \<Rightarrow> bool" where
  "in_dm t a b r \<longleftrightarrow> r_kind r = ''message'' \<and> (r_id r, a) \<in> set (t_record_participants t) \<and>
     (r_id r, b) \<in> set (t_record_participants t)"

definition history_dm :: "string \<Rightarrow> string \<Rightarrow> u64 option \<Rightarrow> u32 \<Rightarrow> log_record list db" where
  "history_dm a b before limit =
     bindE (query_map row_to_record (\<lambda>t. page limit
       (filter (\<lambda>r. r_id r < before_bound before \<and> in_dm t a b r) (t_records t)))) (\<lambda>rows.
     returnE (rev rows))"

section \<open>Acknowledgments\<close>

fun ack_rank :: "ack_state \<Rightarrow> nat" where
  "ack_rank Held = 0"
| "ack_rank Relayed = 1"
| "ack_rank Processed = 2"
| "ack_rank Failed = 2"

fun ack_column :: "ack_state \<Rightarrow> string \<times> string" where
  "ack_column Held = (''held_at'', ''held'')"
| "ack_column Relayed = (''relayed_at'', ''relayed'')"
| "ack_column Processed = (''processed_at'', ''processed'')"
| "ack_column Failed = (''failed_at'', ''failed'')"

definition parse_ack_state :: "string \<Rightarrow> ack_state" where
  "parse_ack_state s = (if s = ''held'' then Held else if s = ''relayed'' then Relayed
     else if s = ''processed'' then Processed else Failed)"

text \<open>\<open>SET {col} = ts\<close> for a column named at run time.\<close>

definition set_column :: "string \<Rightarrow> int \<Rightarrow> ack_row \<Rightarrow> ack_row" where
  "set_column col ts a =
     (if col = ''held_at'' then a\<lparr>a_held_at := Some ts\<rparr>
      else if col = ''relayed_at'' then a\<lparr>a_relayed_at := Some ts\<rparr>
      else if col = ''processed_at'' then a\<lparr>a_processed_at := Some ts\<rparr>
      else if col = ''failed_at'' then a\<lparr>a_failed_at := Some ts\<rparr> else a)"

definition ack_set :: "u64 \<Rightarrow> string \<Rightarrow> ack_state \<Rightarrow> string option \<Rightarrow> u64 option db" where
  "ack_set rid recipient st reason =
     bindE now_ms (\<lambda>ts.
     let col = fst (ack_column st); st_name = snd (ack_column st) in
     bindE (query_row (\<lambda>a. Some (a_state a))
       (\<lambda>t. filter (\<lambda>a. ack_key a = (sint rid, recipient)) (t_acks t))) (\<lambda>current.
     case current of None \<Rightarrow> returnE None
     | Some cur \<Rightarrow>
         if ack_rank st > ack_rank (parse_ack_state cur) then
           bindE (stmt (upd_ack (sint rid) recipient
             (\<lambda>a. set_column col (sint ts) (a\<lparr>a_state := st_name, a_reason := reason\<rparr>)))) (\<lambda>_.
           returnE (Some ts))
         else
           bindE (stmt (upd_ack (sint rid) recipient (set_column col (sint ts)))) (\<lambda>_.
           returnE None)))"

definition row_to_ack :: "ack_row \<Rightarrow> ack_status" where
  "row_to_ack a = \<lparr>as_recipient = a_recipient a, as_state = parse_ack_state (a_state a), as_reason = a_reason a,
     as_held_at = map_option word_of_int (a_held_at a), as_relayed_at = map_option word_of_int (a_relayed_at a),
     as_processed_at = map_option word_of_int (a_processed_at a),
     as_failed_at = map_option word_of_int (a_failed_at a)\<rparr>"

definition acks_for :: "u64 \<Rightarrow> ack_status list db" where
  "acks_for rid = query (\<lambda>t. map row_to_ack
     (sort_key a_recipient (filter (\<lambda>a. a_record_id a = sint rid) (t_acks t))))"

definition held_for :: "string \<Rightarrow> u64 list db" where
  "held_for recipient = query (\<lambda>t. map (\<lambda>a. word_of_int (a_record_id a))
     (sort_key a_record_id (filter (\<lambda>a. a_recipient a = recipient \<and> a_state a = ''held'') (t_acks t))))"

definition held_all :: "(u64 \<times> string) list db" where
  "held_all = query (\<lambda>t. map (\<lambda>a. (word_of_int (a_record_id a), a_recipient a))
     (sort_key a_record_id (filter (\<lambda>a. a_state a = ''held'') (t_acks t))))"

end
