(* ===== verification/Store_Runs.thy ===== *)
theory Store_Runs
  imports Store
begin

text \<open>
  Running the store: what a statement, a query and a transaction do under any fault
  schedule, and for each operation the closed form of the tables it leaves when it
  succeeds. The atomicity facts are here: an operation that reports an error left the
  tables as they were, wherever in it the failure struck.
\<close>

section \<open>Statements under faults\<close>

lemma stmt_okD:
  assumes "stmt f c = (Inr x, c')"
  shows "f (tabs c) = Inr (x, tabs c')" "clock c' = clock c" "faults c = [] \<Longrightarrow> faults c' = []"
  using assms by (auto simp: stmt_def Let_def split: list.splits option.splits sum.splits)

lemma stmt_errD:
  assumes "stmt f c = (Inl e, c')"
  shows "tabs c' = tabs c" "clock c' = clock c" "faults c = [] \<Longrightarrow> faults c' = []"
  using assms by (auto simp: stmt_def Let_def split: list.splits option.splits sum.splits)

lemma stmt_healthy:
  assumes "faults c = []"
  shows "stmt f c = (case f (tabs c) of Inl e \<Rightarrow> (Inl (Sql e), c) | Inr (x, t) \<Rightarrow> (Inr x, c\<lparr>tabs := t\<rparr>))"
  using assms by (cases c) (auto simp: stmt_def Let_def split: sum.splits)

lemma query_okD:
  assumes "query q c = (Inr x, c')"
  shows "x = q (tabs c)" "tabs c' = tabs c" "clock c' = clock c" "faults c = [] \<Longrightarrow> faults c' = []"
  using assms by (auto simp: query_def dest: stmt_okD)

lemma query_healthy [simp]: "faults c = [] \<Longrightarrow> query q c = (Inr (q (tabs c)), c)"
  by (cases c) (simp add: query_def stmt_healthy)

lemma query_row_healthy:
  "faults c = [] \<Longrightarrow> query_row f q c = (case q (tabs c) of [] \<Rightarrow> (Inr None, c)
     | r # _ \<Rightarrow> (case f r of None \<Rightarrow> (Inl (Sql ConversionFailure), c) | Some x \<Rightarrow> (Inr (Some x), c)))"
  by (cases c) (simp add: query_row_def stmt_healthy split: list.split option.split)

lemma query_row_okD:
  assumes "query_row f q c = (Inr x, c')"
  shows "tabs c' = tabs c" "clock c' = clock c" "faults c = [] \<Longrightarrow> faults c' = []"
    "(q (tabs c) = [] \<and> x = None) \<or> (\<exists>r rs y. q (tabs c) = r # rs \<and> f r = Some y \<and> x = Some y)"
  using stmt_okD [OF assms [unfolded query_row_def]]
  by (cases "q (tabs c)"; auto split: option.splits)+

lemma query_map_okD:
  assumes "query_map f q c = (Inr xs, c')"
  shows "tabs c' = tabs c" "clock c' = clock c" "faults c = [] \<Longrightarrow> faults c' = []"
    "convert_rows f (q (tabs c)) = Some xs"
  using stmt_okD [OF assms [unfolded query_map_def]]
  by (auto split: option.splits)

lemma convert_rows_eq: "convert_rows f rs = Some xs \<longleftrightarrow> map f rs = map Some xs"
  by (induction rs arbitrary: xs) (auto split: option.splits simp: Cons_eq_map_conv)

lemma now_ms_run [simp]: "now_ms c = (Inr (clock c), c)"
  by (simp add: now_ms_def getE_def)

section \<open>The environment of a run\<close>

text \<open>No operation sets the clock, and a healthy engine stays healthy.\<close>

definition env_kept :: "conn \<Rightarrow> conn \<Rightarrow> bool" where
  "env_kept c c' \<longleftrightarrow> clock c' = clock c \<and> (faults c = [] \<longrightarrow> faults c' = [])"

interpretation env: frame env_kept
  by unfold_locales (auto simp: env_kept_def)

lemma env_stmt: "within env_kept (stmt f)"
proof (rule withinI)
  fix c r c' assume "stmt f c = (r, c')"
  then show "env_kept c c'" by (cases r) (auto simp: env_kept_def dest: stmt_okD stmt_errD)
qed

lemma env_kept_tabs [simp]: "env_kept c (c'\<lparr>tabs := t\<rparr>) = env_kept c c'"
  by (simp add: env_kept_def)

section \<open>Transactions\<close>

lemma transaction_rollback:
  assumes "transaction m c = (Inl e, c')"
  shows "tabs c' = tabs c"
  using assms
  by (auto simp: transaction_def nop_def dest: stmt_okD split: prod.splits sum.splits tx_end.splits)

lemma env_transaction:
  assumes "within env_kept m"
  shows "within env_kept (transaction m)"
proof (rule withinI)
  fix c r c' assume run: "transaction m c = (r, c')"
  obtain q c1 where body: "bindE (stmt nop) (\<lambda>_. m) c = (q, c1)" by fastforce
  have "within env_kept (bindE (stmt nop) (\<lambda>_. m))"
    by (intro env.within_bind env_stmt assms)
  then have step: "env_kept c c1" using body by (rule withinD)
  obtain q2 c2 where fin: "stmt nop c1 = (q2, c2)" by fastforce
  with step have "env_kept c c2" by (blast intro: env.frame_trans withinD [OF env_stmt])
  with run body fin step show "env_kept c c'"
    by (auto simp: transaction_def split: sum.splits tx_end.splits)
qed

lemma transaction_okE:
  assumes "transaction m c = (Inr x, c')"
  obtains (dropped) c1 c2 where "tabs c1 = tabs c" "clock c1 = clock c" "m c1 = (Inr (Drop x), c2)"
      "tabs c' = tabs c"
    | (committed) c1 c2 where "tabs c1 = tabs c" "clock c1 = clock c" "m c1 = (Inr (Commit x), c2)"
      "tabs c' = tabs c2"
proof -
  obtain q c1 where start: "stmt nop c = (q, c1)" by fastforce
  then have c1: "tabs c1 = tabs c \<and> clock c1 = clock c"
    by (cases q) (auto simp: nop_def dest: stmt_okD stmt_errD)
  from start assms obtain u where q: "q = Inr u"
    by (cases q) (auto simp: transaction_def)
  obtain r c2 where body: "m c1 = (r, c2)" by fastforce
  show thesis
  proof (cases r)
    case (Inl e)
    with start q body assms show ?thesis by (simp add: transaction_def)
  next
    case (Inr y)
    show ?thesis
    proof (cases y)
      case (Drop z)
      with start q body assms Inr c1 dropped show ?thesis by (auto simp: transaction_def)
    next
      case (Commit z)
      with start q body assms Inr have fin: "stmt nop c2 = (Inr (), c')" "z = x"
        by (auto simp: transaction_def split: prod.splits sum.splits)
      from stmt_okD(1) [OF fin(1)] have "tabs c' = tabs c2" by (simp add: nop_def)
      with body Inr Commit fin c1 committed show ?thesis by auto
    qed
  qed
qed

text \<open>A transaction on a healthy engine.\<close>

lemma stmt_nop_healthy: "faults c = [] \<Longrightarrow> stmt nop c = (Inr (), c)"
  by (cases c) (simp add: stmt_healthy nop_def)

lemma transaction_healthy:
  assumes "faults c = []"
  shows "m c = (Inl e, c') \<Longrightarrow> transaction m c = (Inl e, c'\<lparr>tabs := tabs c\<rparr>)"
    and "m c = (Inr (Drop x), c') \<Longrightarrow> transaction m c = (Inr x, c'\<lparr>tabs := tabs c\<rparr>)"
    and "m c = (Inr (Commit x), c') \<Longrightarrow> faults c' = [] \<Longrightarrow> transaction m c = (Inr x, c')"
  using assms by (simp_all add: transaction_def stmt_nop_healthy)

text \<open>A property of the tables that every statement keeps is kept by the whole run.\<close>

abbreviation keeps_tabs :: "(tables \<Rightarrow> bool) \<Rightarrow> 'a db \<Rightarrow> bool" where
  "keeps_tabs I \<equiv> keeps (\<lambda>c. I (tabs c))"

lemma keeps_stmt:
  assumes "\<And>t x t'. I t \<Longrightarrow> f t = Inr (x, t') \<Longrightarrow> I t'"
  shows "keeps_tabs I (stmt f)"
proof (rule withinI, rule impI)
  fix c r c' assume run: "stmt f c = (r, c')" and I: "I (tabs c)"
  show "I (tabs c')"
  proof (cases r)
    case (Inl e)
    with run I show ?thesis by (auto dest: stmt_errD)
  next
    case (Inr x)
    with run have "f (tabs c) = Inr (x, tabs c')" by (auto dest: stmt_okD)
    with assms I show ?thesis by blast
  qed
qed

lemma keeps_transaction:
  assumes "keeps_tabs I m"
  shows "keeps_tabs I (transaction m)"
proof (rule withinI, rule impI)
  fix c r c' assume run: "transaction m c = (r, c')" and I: "I (tabs c)"
  show "I (tabs c')"
  proof (cases r)
    case (Inl e)
    with run I show ?thesis by (simp add: transaction_rollback)
  next
    case (Inr x)
    with run have "transaction m c = (Inr x, c')" by simp
    then show ?thesis
    proof (cases rule: transaction_okE)
      case (committed c1 c2)
      with assms I show ?thesis by (metis keepsD)
    qed (use I in simp)
  qed
qed

lemma keeps_query: "keeps_tabs I (query q)"
  unfolding query_def by (rule keeps_stmt) auto

lemma keeps_query_row: "keeps_tabs I (query_row f q)"
  unfolding query_row_def by (rule keeps_stmt) (auto split: list.splits option.splits)

lemma keeps_query_map: "keeps_tabs I (query_map f q)"
  unfolding query_map_def by (rule keeps_stmt) (auto split: option.splits)

lemma keeps_now_ms: "keeps_tabs I now_ms"
  unfolding now_ms_def by (rule kp.within_get)

lemmas keeps_rules = kp.within_rules keeps_transaction keeps_query keeps_query_row keeps_query_map keeps_now_ms

text \<open>The reading operations leave the tables alone.\<close>

abbreviation reads :: "'a db \<Rightarrow> bool" where
  "reads \<equiv> same tabs"

lemma reads_stmt: "(\<And>t x t'. f t = Inr (x, t') \<Longrightarrow> t' = t) \<Longrightarrow> reads (stmt f)"
  by (rule withinI) (metis stmt_okD(1) stmt_errD(1) old.sum.exhaust)

lemma reads_query: "reads (query q)"
  unfolding query_def by (rule reads_stmt) auto

lemma reads_query_row: "reads (query_row f q)"
  unfolding query_row_def by (rule reads_stmt) (auto split: list.splits option.splits)

lemma reads_query_map: "reads (query_map f q)"
  unfolding query_map_def by (rule reads_stmt) (auto split: option.splits)

lemmas reads_rules = sm.within_rules reads_query reads_query_row reads_query_map

lemma reads_channel_by_name: "reads (channel_by_name nm)"
  by (simp add: channel_by_name_def reads_query_row)

lemma reads_principal_id: "reads (principal_id nm)"
  by (simp add: principal_id_def reads_query_row)

lemma reads_lists: "reads live_channels" "reads channel_count" "reads all_principals" "reads principal_count"
  "reads (subscribers_of ch)" "reads (acks_for i)" "reads (held_for p)" "reads held_all"
  by (simp_all add: live_channels_def channel_count_def all_principals_def principal_count_def
      subscribers_of_def acks_for_def held_for_def held_all_def reads_query)

lemma reads_is_subscribed: "reads (is_subscribed p ch)"
  unfolding is_subscribed_def by (intro reads_rules)

lemma reads_message_exists: "reads (message_exists i)"
  unfolding message_exists_def by (intro reads_rules)

lemma reads_envelope_of: "reads (envelope_of i)"
  by (simp add: envelope_of_def reads_query_row)

lemma reads_history: "reads (history_channel ch before limit)" "reads (history_dm a b before limit)"
  unfolding history_channel_def history_dm_def by (intro reads_rules)+

lemmas reading = reads_channel_by_name reads_principal_id reads_lists reads_is_subscribed
  reads_message_exists reads_envelope_of reads_history

lemma reads_keeps: "reads m \<Longrightarrow> keeps_tabs I m"
  by (erule within_mono) simp

section \<open>What a successful statement did\<close>

text \<open>The conclusion of a successful run, statement by statement, in terms of the tables.\<close>

lemma stmt_run: "stmt f c = (Inr x, c') \<Longrightarrow> Inr (x, tabs c') = f (tabs c) \<and> clock c' = clock c"
  by (auto dest: stmt_okD)

lemma query_run: "query q c = (Inr x, c') \<Longrightarrow> x = q (tabs c) \<and> tabs c' = tabs c \<and> clock c' = clock c"
  by (auto dest: query_okD)

lemma query_row_run:
  "query_row f q c = (Inr x, c') \<Longrightarrow> tabs c' = tabs c \<and> clock c' = clock c \<and>
    ((q (tabs c) = [] \<and> x = None) \<or> (\<exists>r rs y. q (tabs c) = r # rs \<and> f r = Some y \<and> x = Some y))"
  by (metis query_row_okD(1,2,4))

lemma name_taken_run: "name_taken_on_constraint m c = (Inr x, c') \<Longrightarrow> m c = (Inr x, c')"
  by (auto simp: name_taken_on_constraint_def handleE_ok returnE_ok failE_ok)

lemmas runs = stmt_run query_run query_row_run name_taken_run

definition push_record :: "record_row \<Rightarrow> tables \<Rightarrow> tables" where
  "push_record r t = t\<lparr>t_records := t_records t @ [r\<lparr>r_id := seq_records t + 1\<rparr>], seq_records := seq_records t + 1\<rparr>"

lemma ins_record_run:
  "Inr (i, t') = ins_record r t \<longleftrightarrow> seq_records t < max_rowid \<and> i = seq_records t + 1 \<and> t' = push_record r t"
  by (auto simp: ins_record_def push_record_def Let_def)

lemma append_system_run:
  "append_system_in ev ref c = (Inr rec, c') \<Longrightarrow>
     rec = SystemRec (word_of_int (seq_records (tabs c) + 1)) (clock c) ev \<and>
     tabs c' = push_record (system_row (clock c) ev ref) (tabs c) \<and> clock c' = clock c"
  by (auto simp: append_system_in_def bindE_ok returnE_ok ins_record_run dest!: stmt_run)

lemma push_record_sel [simp]:
  "t_channels (push_record r t) = t_channels t" "t_principals (push_record r t) = t_principals t"
  "t_subscriptions (push_record r t) = t_subscriptions t" "t_overrides (push_record r t) = t_overrides t"
  "t_record_channels (push_record r t) = t_record_channels t" "t_acks (push_record r t) = t_acks t"
  "t_record_participants (push_record r t) = t_record_participants t"
  "t_records (push_record r t) = t_records t @ [r\<lparr>r_id := seq_records t + 1\<rparr>]"
  "seq_records (push_record r t) = seq_records t + 1" "seq_channels (push_record r t) = seq_channels t"
  "seq_principals (push_record r t) = seq_principals t" "t_schema_version (push_record r t) = t_schema_version t"
  by (simp_all add: push_record_def)

text \<open>The record an audited operation appends: what it returns and the row it leaves.\<close>

definition audited :: "system_event \<Rightarrow> int option \<Rightarrow> conn \<Rightarrow> log_record" where
  "audited ev ref c = SystemRec (word_of_int (seq_records (tabs c) + 1)) (clock c) ev"

section \<open>Audited operations\<close>

lemma create_channel_run:
  assumes "create_channel_logged nm actor c = (Inr (i, record), c')"
  shows "nm \<notin> ch_name ` set (t_channels (tabs c)) \<and> i = seq_channels (tabs c) + 1 \<and>
    record = audited (ChannelCreated nm actor) (Some i) c \<and>
    tabs c' = push_record (system_row (clock c) (ChannelCreated nm actor) (Some i))
      ((tabs c)\<lparr>t_channels := t_channels (tabs c) @ [\<lparr>ch_id = i, ch_name = nm, ch_archived = 0\<rparr>], seq_channels := i\<rparr>)"
  using assms unfolding create_channel_logged_def
  by (cases rule: transaction_okE)
    (auto simp: bindE_ok returnE_ok audited_def ins_channel_def Let_def
      dest!: name_taken_run stmt_run append_system_run split: if_splits)

lemma rename_channel_run:
  assumes "rename_channel_logged i old_name new_name actor c = (Inr record, c')"
  shows "(i \<in> ch_id ` set (t_channels (tabs c)) \<longrightarrow>
        (\<forall>r \<in> set (t_channels (tabs c)). ch_id r \<noteq> i \<longrightarrow> ch_name r \<noteq> new_name)) \<and>
    record = audited (ChannelRenamed old_name new_name actor) (Some i) c \<and>
    tabs c' = push_record (system_row (clock c) (ChannelRenamed old_name new_name actor) (Some i))
      ((tabs c)\<lparr>t_channels := map (\<lambda>r. if ch_id r = i then r\<lparr>ch_name := new_name\<rparr> else r) (t_channels (tabs c))\<rparr>)"
  using assms unfolding rename_channel_logged_def
  by (cases rule: transaction_okE)
    (auto simp: bindE_ok returnE_ok audited_def upd_channel_name_def
      dest!: name_taken_run stmt_run append_system_run split: if_splits)

lemma register_principal_run:
  assumes "register_principal nm admin c = (Inr record, c')"
  shows "record = audited (Registered nm admin) None c \<and>
    tabs c' = push_record (system_row (clock c) (Registered nm admin) None)
      (if nm \<in> pr_name ` set (t_principals (tabs c)) then tabs c
       else (tabs c)\<lparr>t_principals := t_principals (tabs c) @ [\<lparr>pr_id = seq_principals (tabs c) + 1, pr_name = nm\<rparr>],
         seq_principals := seq_principals (tabs c) + 1\<rparr>)"
  using assms unfolding register_principal_def
  by (cases rule: transaction_okE)
    (auto simp: bindE_ok returnE_ok audited_def ins_principal_def Let_def
      dest!: stmt_run append_system_run split: if_splits)

text \<open>The archive sweep: one record per name, in order.\<close>

fun push_all :: "record_row list \<Rightarrow> tables \<Rightarrow> tables" where
  "push_all [] t = t"
| "push_all (r # rs) t = push_all rs (push_record r t)"

lemma push_all_append [simp]: "push_all (rs @ rs') t = push_all rs' (push_all rs t)"
  by (induction rs arbitrary: t) auto

lemma push_all_sel [simp]:
  "t_channels (push_all rs t) = t_channels t" "t_principals (push_all rs t) = t_principals t"
  "t_subscriptions (push_all rs t) = t_subscriptions t" "t_overrides (push_all rs t) = t_overrides t"
  "t_record_channels (push_all rs t) = t_record_channels t" "t_acks (push_all rs t) = t_acks t"
  "t_record_participants (push_all rs t) = t_record_participants t"
  "seq_records (push_all rs t) = seq_records t + int (length rs)" "seq_channels (push_all rs t) = seq_channels t"
  "seq_principals (push_all rs t) = seq_principals t"
  by (induction rs arbitrary: t) auto

text \<open>The records of events appended one after the other.\<close>

fun numbered :: "int \<Rightarrow> u64 \<Rightarrow> system_event list \<Rightarrow> log_record list" where
  "numbered i ts [] = []"
| "numbered i ts (ev # evs) = SystemRec (word_of_int i) ts ev # numbered (i + 1) ts evs"

lemma numbered_append [simp]:
  "numbered i ts (evs @ evs') = numbered i ts evs @ numbered (i + int (length evs)) ts evs'"
  by (induction evs arbitrary: i) (auto simp: algebra_simps)

lemma archive_sweep_run:
  assumes "mapE (\<lambda>p. append_system_in (ev p) ref) ps c = (Inr records, c')"
  shows "tabs c' = push_all (map (\<lambda>p. system_row (clock c) (ev p) ref) ps) (tabs c) \<and> clock c' = clock c \<and>
    records = numbered (seq_records (tabs c) + 1) (clock c) (map ev ps)"
  using assms
proof (induction ps arbitrary: c records)
  case Nil
  then show ?case by (simp add: returnE_ok)
next
  case (Cons p ps)
  then obtain r c1 rs where first: "append_system_in (ev p) ref c = (Inr r, c1)"
    and rest: "mapE (\<lambda>p. append_system_in (ev p) ref) ps c1 = (Inr rs, c')" and "records = r # rs"
    by (auto simp: bindE_ok returnE_ok)
  with append_system_run [OF first] Cons.IH [OF rest] show ?case by simp
qed

lemma subscriber_names_channels [simp]: "subscriber_names i (t\<lparr>t_channels := x\<rparr>) = subscriber_names i t"
  by (simp add: subscriber_names_def cong: if_cong)

definition archive_events :: "int \<Rightarrow> string \<Rightarrow> string \<Rightarrow> tables \<Rightarrow> system_event list" where
  "archive_events i nm actor t =
     map (\<lambda>p. Unsubscribed p nm True) (subscriber_names i t) @ [ChannelArchived nm actor]"

lemma archive_channel_run:
  assumes "archive_channel i nm actor True c = (Inr records, c')"
  shows "tabs c' = push_all (map (\<lambda>ev. system_row (clock c) ev (Some i)) (archive_events i nm actor (tabs c)))
      ((tabs c)\<lparr>t_channels := map (\<lambda>r. if ch_id r = i then r\<lparr>ch_archived := 1\<rparr> else r) (t_channels (tabs c)),
         t_subscriptions := filter (\<lambda>s. snd s \<noteq> i) (t_subscriptions (tabs c)),
         t_overrides := filter (\<lambda>s. snd (fst s) \<noteq> i) (t_overrides (tabs c))\<rparr>) \<and>
    records = numbered (seq_records (tabs c) + 1) (clock c) (archive_events i nm actor (tabs c))"
  using assms unfolding archive_channel_def
proof (cases rule: transaction_okE)
  case (committed c1 c2)
  then show ?thesis
    by (auto simp: bindE_ok returnE_ok upd_channel_archived_def del_subscriptions_of_def del_overrides_of_def
        archive_events_def comp_def dest!: stmt_run query_run append_system_run archive_sweep_run cong: map_cong)
qed (auto simp: bindE_ok returnE_ok)

lemma unarchive_channel_run:
  assumes "archive_channel i nm actor False c = (Inr records, c')"
  shows "records = [audited (ChannelUnarchived nm actor) (Some i) c] \<and>
    tabs c' = push_record (system_row (clock c) (ChannelUnarchived nm actor) (Some i))
      ((tabs c)\<lparr>t_channels := map (\<lambda>r. if ch_id r = i then r\<lparr>ch_archived := 0\<rparr> else r) (t_channels (tabs c))\<rparr>)"
  using assms unfolding archive_channel_def
  by (cases rule: transaction_okE)
    (auto simp: bindE_ok returnE_ok audited_def upd_channel_archived_def dest!: stmt_run append_system_run cong: map_cong)

section \<open>Deletion\<close>

definition purge :: "int \<Rightarrow> tables \<Rightarrow> tables" where
  "purge c t = (let sole = set (sole_records c t) in
     t\<lparr>t_acks := filter (\<lambda>a. a_record_id a \<notin> sole) (t_acks t),
       t_record_participants := filter (\<lambda>p. fst p \<notin> sole) (t_record_participants t),
       t_record_channels := filter (\<lambda>p. snd p \<noteq> c) (t_record_channels t),
       t_records := map (\<lambda>r. if r_channel_ref r = Some c then r\<lparr>r_channel_ref := None\<rparr> else r)
         (filter (\<lambda>r. r_id r \<notin> sole) (t_records t)),
       t_subscriptions := filter (\<lambda>s. snd s \<noteq> c) (t_subscriptions t),
       t_overrides := filter (\<lambda>s. snd (fst s) \<noteq> c) (t_overrides t),
       t_channels := filter (\<lambda>r. ch_id r \<noteq> c) (t_channels t)\<rparr>)"

lemma drop_dependents_run:
  assumes "eachE (\<lambda>rid. bindE (stmt (del_acks_of rid)) (\<lambda>_. stmt (del_participants_of rid))) ids c = (Inr u, c')"
  shows "tabs c' = (tabs c)\<lparr>t_acks := filter (\<lambda>a. a_record_id a \<notin> set ids) (t_acks (tabs c)),
      t_record_participants := filter (\<lambda>p. fst p \<notin> set ids) (t_record_participants (tabs c))\<rparr> \<and> clock c' = clock c"
  using assms
proof (induction ids arbitrary: c)
  case Nil
  then show ?case by (simp add: returnE_ok)
next
  case (Cons i ids)
  then obtain c1 c2 where "stmt (del_acks_of i) c = (Inr (), c1)" "stmt (del_participants_of i) c1 = (Inr (), c2)"
    and rest: "eachE (\<lambda>rid. bindE (stmt (del_acks_of rid)) (\<lambda>_. stmt (del_participants_of rid))) ids c2 = (Inr u, c')"
    by (auto simp: bindE_ok)
  then have "tabs c2 = (tabs c)\<lparr>t_acks := filter (\<lambda>a. a_record_id a \<noteq> i) (t_acks (tabs c)),
      t_record_participants := filter (\<lambda>p. fst p \<noteq> i) (t_record_participants (tabs c))\<rparr> \<and> clock c2 = clock c"
    by (auto simp: del_acks_of_def del_participants_of_def dest!: stmt_run)
  with Cons.IH [OF rest] show ?case
    by (simp add: conj_commute)
qed

lemma drop_records_run:
  assumes "eachE (\<lambda>rid. stmt (del_record rid)) ids c = (Inr u, c')"
  shows "tabs c' = (tabs c)\<lparr>t_records := filter (\<lambda>r. r_id r \<notin> set ids) (t_records (tabs c))\<rparr> \<and> clock c' = clock c"
  using assms
proof (induction ids arbitrary: c)
  case Nil
  then show ?case by (simp add: returnE_ok)
next
  case (Cons i ids)
  then obtain c1 where "stmt (del_record i) c = (Inr (), c1)"
    and rest: "eachE (\<lambda>rid. stmt (del_record rid)) ids c1 = (Inr u, c')"
    by (auto simp: bindE_ok)
  then have "tabs c1 = (tabs c)\<lparr>t_records := filter (\<lambda>r. r_id r \<noteq> i) (t_records (tabs c))\<rparr> \<and> clock c1 = clock c"
    by (auto simp: del_record_def dest!: stmt_run split: if_splits)
  with Cons.IH [OF rest] show ?case
    by (simp add: conj_commute)
qed

lemma sole_records_cong: "t_record_channels t' = t_record_channels t \<Longrightarrow> sole_records c t' = sole_records c t"
  by (simp add: sole_records_def)

lemma purge_steps_run:
  assumes "stmt (del_record_channels_of ch) c = (Inr (), c1)"
    and "eachE (\<lambda>rid. stmt (del_record rid)) sole c1 = (Inr (), c2)"
    and "stmt (detach_channel_ref ch) c2 = (Inr (), c3)"
    and "stmt (del_subscriptions_of ch) c3 = (Inr (), c4)" and "stmt (del_overrides_of ch) c4 = (Inr (), c5)"
    and "stmt (del_channel ch) c5 = (Inr (), c')"
  shows "tabs c' = (tabs c)\<lparr>t_record_channels := filter (\<lambda>p. snd p \<noteq> ch) (t_record_channels (tabs c)),
       t_records := map (\<lambda>r. if r_channel_ref r = Some ch then r\<lparr>r_channel_ref := None\<rparr> else r)
         (filter (\<lambda>r. r_id r \<notin> set sole) (t_records (tabs c))),
       t_subscriptions := filter (\<lambda>s. snd s \<noteq> ch) (t_subscriptions (tabs c)),
       t_overrides := filter (\<lambda>s. snd (fst s) \<noteq> ch) (t_overrides (tabs c)),
       t_channels := filter (\<lambda>r. ch_id r \<noteq> ch) (t_channels (tabs c))\<rparr> \<and> clock c' = clock c"
  using stmt_run [OF assms(1)] drop_records_run [OF assms(2)] stmt_run [OF assms(3)] stmt_run [OF assms(4)]
    stmt_run [OF assms(5)] stmt_run [OF assms(6)]
  by (simp add: del_record_channels_of_def detach_channel_ref_def del_subscriptions_of_def
      del_overrides_of_def del_channel_def split: if_splits)

lemma delete_channel_run:
  assumes "delete_channel_logged ch nm actor c = (Inr (n, record), c')"
  shows "let ev = ChannelDeleted (word_of_int ch) nm n actor in
    n = of_nat (length (sole_records ch (tabs c))) \<and> record = audited ev None c \<and>
    tabs c' = push_record (system_row (clock c) ev None) (purge ch (tabs c))"
  using assms unfolding delete_channel_logged_def
proof (cases rule: transaction_okE)
  case (dropped c1 c2)
  then show ?thesis by (auto simp: bindE_ok returnE_ok)
next
  case (committed c1 c2)
  then obtain sole c3 c4 d1 d2 d3 d4 d5 d6 where q: "query (sole_records ch) c1 = (Inr sole, c3)"
    and deps: "eachE (\<lambda>rid. bindE (stmt (del_acks_of rid)) (\<lambda>_. stmt (del_participants_of rid))) sole c3 = (Inr (), c4)"
    and steps: "stmt (del_record_channels_of ch) c4 = (Inr (), d1)"
      "eachE (\<lambda>rid. stmt (del_record rid)) sole d1 = (Inr (), d2)"
      "stmt (detach_channel_ref ch) d2 = (Inr (), d3)" "stmt (del_subscriptions_of ch) d3 = (Inr (), d4)"
      "stmt (del_overrides_of ch) d4 = (Inr (), d5)" "stmt (del_channel ch) d5 = (Inr (), d6)"
    and rec: "append_system_in (ChannelDeleted (word_of_int ch) nm (of_nat (length sole)) actor) None d6 = (Inr record, c2)"
    and n: "n = of_nat (length sole)"
    by (auto simp: bindE_ok returnE_ok)
  from query_run [OF q] committed have c3: "sole = sole_records ch (tabs c)" "tabs c3 = tabs c" "clock c3 = clock c"
    by simp_all
  from purge_steps_run [OF steps] drop_dependents_run [OF deps] c3
  have d6: "tabs d6 = purge ch (tabs c)" "clock d6 = clock c" by (simp_all add: purge_def Let_def)
  from append_system_run [OF rec] d6 n c3 committed show ?thesis
    by (simp add: audited_def Let_def purge_def)
qed

section \<open>Subscriptions\<close>

definition policy_of :: "tables \<Rightarrow> int \<Rightarrow> int \<Rightarrow> override_mode option" where
  "policy_of t p c = Option.bind (map_of (t_overrides t) (p, c)) parse_mode"

lemma map_of_filter_hd:
  "map_of kv k = (case filter (\<lambda>x. fst x = k) kv of [] \<Rightarrow> None | x # _ \<Rightarrow> Some (snd x))"
  by (induction kv) auto

lemma override_in_run:
  "override_in p ch c = (Inr m, c') \<Longrightarrow> m = policy_of (tabs c) p ch \<and> tabs c' = tabs c \<and> clock c' = clock c"
  by (auto simp: override_in_def policy_of_def bindE_ok returnE_ok map_of_filter_hd dest!: query_row_run)

definition with_membership :: "int \<Rightarrow> int \<Rightarrow> bool \<Rightarrow> tables \<Rightarrow> tables" where
  "with_membership p c subscribe t =
     (if subscribe then (if (p, c) \<in> set (t_subscriptions t) then t
        else t\<lparr>t_subscriptions := t_subscriptions t @ [(p, c)]\<rparr>)
      else t\<lparr>t_subscriptions := filter (\<lambda>s. s \<noteq> (p, c)) (t_subscriptions t)\<rparr>)"

definition membership_changes :: "int \<Rightarrow> int \<Rightarrow> bool \<Rightarrow> tables \<Rightarrow> bool" where
  "membership_changes p c subscribe t \<longleftrightarrow> ((p, c) \<in> set (t_subscriptions t)) \<noteq> subscribe"

lemma apply_membership_run:
  "apply_membership p ch subscribe c = (Inr changed, c') \<Longrightarrow>
     changed = membership_changes p ch subscribe (tabs c) \<and>
     tabs c' = with_membership p ch subscribe (tabs c) \<and> clock c' = clock c"
  by (auto simp: apply_membership_def with_membership_def membership_changes_def bindE_ok returnE_ok
      ins_subscription_def del_subscription_def filter_empty_conv dest!: stmt_run split: if_splits)

lemma with_membership_idle: "\<not> membership_changes p c subscribe t \<Longrightarrow> with_membership p c subscribe t = t"
  by (auto simp: membership_changes_def with_membership_def filter_id_conv intro!: tables.equality)

abbreviation blocking_mode :: "bool \<Rightarrow> override_mode" where
  "blocking_mode subscribe \<equiv> (if subscribe then Cancelled else Forced)"

lemma self_subscription_blocked:
  assumes "self_subscription p ch subscribe pname channel c = (Inr out, c')"
    and "policy_of (tabs c) p ch = Some (blocking_mode subscribe)"
  shows "out = Denied (blocking_mode subscribe) \<and> tabs c' = tabs c"
  using assms unfolding self_subscription_def
  by (cases subscribe; cases rule: transaction_okE) (auto simp: bindE_ok returnE_ok dest!: override_in_run)

lemma self_subscription_run:
  assumes run: "self_subscription p ch subscribe pname channel c = (Inr out, c')"
    and free: "policy_of (tabs c) p ch \<noteq> Some (blocking_mode subscribe)"
  shows "if membership_changes p ch subscribe (tabs c)
       then let ev = subscription_event pname channel subscribe False in
         out = Applied (audited ev (Some ch) c) \<and>
         tabs c' = push_record (system_row (clock c) ev (Some ch)) (with_membership p ch subscribe (tabs c))
       else out = NoChange \<and> tabs c' = tabs c"
  using run unfolding self_subscription_def
proof (cases rule: transaction_okE)
  case (dropped c1 c2)
  with free show ?thesis
    by (auto simp: bindE_ok returnE_ok dest!: override_in_run split: if_splits)
next
  case (committed c1 c2)
  then obtain changed c3 c4 where "apply_membership p ch subscribe c3 = (Inr changed, c4)"
    and c3: "tabs c3 = tabs c" "clock c3 = clock c"
    and rest: "(if \<not> changed then returnE (Commit NoChange)
      else bindE (append_system_in (subscription_event pname channel subscribe False) (Some ch)) (\<lambda>record.
         returnE (Commit (Applied record)))) c4 = (Inr (Commit out), c2)"
    by (auto simp: bindE_ok returnE_ok dest!: override_in_run split: if_splits)
  then have c4: "tabs c4 = with_membership p ch subscribe (tabs c) \<and> clock c4 = clock c \<and>
      changed = membership_changes p ch subscribe (tabs c)"
    by (auto dest: apply_membership_run)
  show ?thesis
  proof (cases "membership_changes p ch subscribe (tabs c)")
    case True
    with c4 rest committed(4) show ?thesis
      by (auto simp: bindE_ok returnE_ok audited_def with_membership_def Let_def dest!: append_system_run)
  next
    case False
    with c4 rest committed(4) show ?thesis by (simp add: returnE_ok with_membership_idle)
  qed
qed

definition with_policy :: "int \<Rightarrow> int \<Rightarrow> override_mode \<Rightarrow> tables \<Rightarrow> tables" where
  "with_policy p c mode t =
     (if (p, c) \<in> fst ` set (t_overrides t)
      then t\<lparr>t_overrides := map (\<lambda>ov. if fst ov = (p, c) then ((p, c), as_mode_str mode) else ov) (t_overrides t)\<rparr>
      else t\<lparr>t_overrides := t_overrides t @ [((p, c), as_mode_str mode)]\<rparr>)"

lemma upsert_override_run:
  "Inr (x, t') = upsert_override p c (as_mode_str mode) t \<Longrightarrow> t' = with_policy p c mode t"
  by (auto simp: upsert_override_def with_policy_def split: if_splits)

definition admin_mode :: "bool \<Rightarrow> override_mode" where
  "admin_mode subscribe = (if subscribe then Forced else Cancelled)"

definition admin_changes :: "int \<Rightarrow> int \<Rightarrow> bool \<Rightarrow> tables \<Rightarrow> bool" where
  "admin_changes p c subscribe t \<longleftrightarrow>
     policy_of t p c \<noteq> Some (admin_mode subscribe) \<or> membership_changes p c subscribe t"

lemma with_policy_sel [simp]:
  "t_subscriptions (with_policy p c m t) = t_subscriptions t"
  "seq_records (with_policy p c m t) = seq_records t"
  "t_channels (with_policy p c m t) = t_channels t" "t_principals (with_policy p c m t) = t_principals t"
  "t_records (with_policy p c m t) = t_records t" "t_acks (with_policy p c m t) = t_acks t"
  "t_record_channels (with_policy p c m t) = t_record_channels t"
  "t_record_participants (with_policy p c m t) = t_record_participants t"
  "seq_channels (with_policy p c m t) = seq_channels t" "seq_principals (with_policy p c m t) = seq_principals t"
  by (simp_all add: with_policy_def)

lemma with_membership_sel [simp]:
  "t_overrides (with_membership p c s t) = t_overrides t"
  "seq_records (with_membership p c s t) = seq_records t"
  "t_channels (with_membership p c s t) = t_channels t" "t_principals (with_membership p c s t) = t_principals t"
  "t_records (with_membership p c s t) = t_records t" "t_acks (with_membership p c s t) = t_acks t"
  "t_record_channels (with_membership p c s t) = t_record_channels t"
  "t_record_participants (with_membership p c s t) = t_record_participants t"
  "seq_channels (with_membership p c s t) = seq_channels t" "seq_principals (with_membership p c s t) = seq_principals t"
  by (simp_all add: with_membership_def)

lemma membership_changes_policy [simp]:
  "membership_changes p c s (with_policy p' c' m t) = membership_changes p c s t"
  by (simp add: membership_changes_def)

lemma admin_subscription_run:
  assumes "admin_subscription p ch subscribe pname channel c = (Inr out, c')"
  shows "let t = with_membership p ch subscribe (with_policy p ch (admin_mode subscribe) (tabs c));
       ev = subscription_event pname channel subscribe True in
     if admin_changes p ch subscribe (tabs c)
     then out = Some (audited ev (Some ch) c) \<and> tabs c' = push_record (system_row (clock c) ev (Some ch)) t
     else out = None \<and> tabs c' = t"
  using assms [unfolded admin_subscription_def Let_def]
proof (cases rule: transaction_okE)
  case (dropped c1 c2)
  then show ?thesis by (auto simp: bindE_ok returnE_ok split: if_splits)
next
  case (committed c1 c2)
  then obtain old changed c3 c4 c5 where ov: "override_in p ch c1 = (Inr old, c3)"
    and up: "stmt (upsert_override p ch (as_mode_str (admin_mode subscribe))) c3 = (Inr (), c4)"
    and mem: "apply_membership p ch subscribe c4 = (Inr changed, c5)"
    and rest: "(if \<not> old \<noteq> Some (admin_mode subscribe) \<and> \<not> changed then returnE (Commit None)
      else bindE (append_system_in (subscription_event pname channel subscribe True) (Some ch)) (\<lambda>record.
         returnE (Commit (Some record)))) c5 = (Inr (Commit out), c2)"
    by (auto simp: bindE_ok admin_mode_def)
  from override_in_run [OF ov] committed have c3: "old = policy_of (tabs c) p ch" "tabs c3 = tabs c" "clock c3 = clock c"
    by simp_all
  from stmt_run [OF up] c3 have c4: "tabs c4 = with_policy p ch (admin_mode subscribe) (tabs c)" "clock c4 = clock c"
    by (simp_all add: upsert_override_run)
  from apply_membership_run [OF mem] c4 have c5: "changed = membership_changes p ch subscribe (tabs c)"
      "tabs c5 = with_membership p ch subscribe (with_policy p ch (admin_mode subscribe) (tabs c))" "clock c5 = clock c"
    by simp_all
  show ?thesis
  proof (cases "admin_changes p ch subscribe (tabs c)")
    case True
    then have "\<not> (\<not> old \<noteq> Some (admin_mode subscribe) \<and> \<not> changed)"
      by (simp add: admin_changes_def c3 c5)
    with rest have "bindE (append_system_in (subscription_event pname channel subscribe True) (Some ch))
        (\<lambda>record. returnE (Commit (Some record))) c5 = (Inr (Commit out), c2)"
      by (simp only: if_False)
    with True c5 committed(4) show ?thesis
      by (auto simp: bindE_ok returnE_ok audited_def Let_def dest!: append_system_run)
  next
    case False
    with c3 c5 rest committed(4) show ?thesis by (simp add: returnE_ok admin_changes_def Let_def)
  qed
qed

section \<open>Messages\<close>

text \<open>Names in the order of their first occurrence, added to those already there.\<close>

fun add_new :: "string list \<Rightarrow> string list \<Rightarrow> string list" where
  "add_new acc [] = acc"
| "add_new acc (p # ps) = add_new (if p \<in> set acc then acc else acc @ [p]) ps"

lemma set_add_new [simp]: "set (add_new acc ps) = set acc \<union> set ps"
  by (induction acc ps rule: add_new.induct) auto

lemma distinct_add_new: "distinct acc \<Longrightarrow> distinct (add_new acc ps)"
  by (induction acc ps rule: add_new.induct) auto

lemma record_channels_loop:
  assumes "eachE (\<lambda>ch. stmt (ins_record_channel i ch)) chs c = (Inr u, c')"
  shows "tabs c' = (tabs c)\<lparr>t_record_channels := t_record_channels (tabs c) @ map (Pair i) chs\<rparr> \<and>
    clock c' = clock c \<and> set chs \<subseteq> ch_id ` set (t_channels (tabs c)) \<and>
    distinct chs \<and> (\<forall>ch \<in> set chs. (i, ch) \<notin> set (t_record_channels (tabs c)))"
  using assms
proof (induction chs arbitrary: c)
  case Nil
  then show ?case by (simp add: returnE_ok)
next
  case (Cons ch chs)
  then obtain c1 where first: "stmt (ins_record_channel i ch) c = (Inr (), c1)"
    and rest: "eachE (\<lambda>ch. stmt (ins_record_channel i ch)) chs c1 = (Inr u, c')"
    by (auto simp: bindE_ok)
  from stmt_run [OF first]
  have "tabs c1 = (tabs c)\<lparr>t_record_channels := t_record_channels (tabs c) @ [(i, ch)]\<rparr>" "clock c1 = clock c"
    "(i, ch) \<notin> set (t_record_channels (tabs c))" "ch \<in> ch_id ` set (t_channels (tabs c))"
    by (auto simp: ins_record_channel_def split: if_splits)
  with Cons.IH [OF rest] show ?case by auto
qed

lemma participants_loop:
  assumes "eachE (\<lambda>p. stmt (ins_participant i p)) ps c = (Inr u, c')"
    and "t_record_participants (tabs c) = P @ map (Pair i) acc" and "i \<notin> fst ` set P"
  shows "tabs c' = (tabs c)\<lparr>t_record_participants := P @ map (Pair i) (add_new acc ps)\<rparr> \<and> clock c' = clock c"
  using assms
proof (induction ps arbitrary: c acc)
  case Nil
  then show ?case by (auto simp: returnE_ok)
next
  case (Cons p ps)
  then obtain c1 where first: "stmt (ins_participant i p) c = (Inr (), c1)"
    and rest: "eachE (\<lambda>p. stmt (ins_participant i p)) ps c1 = (Inr u, c')"
    by (auto simp: bindE_ok)
  from Cons.prems have "(i, p) \<in> set (t_record_participants (tabs c)) \<longleftrightarrow> p \<in> set acc"
    by (auto simp: image_iff)
  with stmt_run [OF first] Cons.prems(2)
  have c1: "tabs c1 = (tabs c)\<lparr>t_record_participants := P @ map (Pair i) (if p \<in> set acc then acc else acc @ [p])\<rparr>"
    "clock c1 = clock c"
    by (auto simp: ins_participant_def split: if_splits)
  from Cons.IH [OF rest _ Cons.prems(3), of "if p \<in> set acc then acc else acc @ [p]"] c1 show ?case by simp
qed

lemma acks_loop:
  assumes "eachE (\<lambda>p. stmt (ins_ack (mk p))) ps c = (Inr u, c')" and "\<And>p. ack_key (mk p) = (i, p)"
  shows "tabs c' = (tabs c)\<lparr>t_acks := t_acks (tabs c) @ map mk ps\<rparr> \<and> clock c' = clock c \<and>
    distinct ps \<and> (\<forall>p \<in> set ps. (i, p) \<notin> ack_key ` set (t_acks (tabs c)))"
  using assms(1)
proof (induction ps arbitrary: c)
  case Nil
  then show ?case by (simp add: returnE_ok)
next
  case (Cons p ps)
  then obtain c1 where first: "stmt (ins_ack (mk p)) c = (Inr (), c1)"
    and rest: "eachE (\<lambda>p. stmt (ins_ack (mk p))) ps c1 = (Inr u, c')"
    by (auto simp: bindE_ok)
  from stmt_run [OF first]
  have "tabs c1 = (tabs c)\<lparr>t_acks := t_acks (tabs c) @ [mk p]\<rparr>" "clock c1 = clock c"
    "(i, p) \<notin> ack_key ` set (t_acks (tabs c))"
    by (auto simp: ins_ack_def assms(2) split: if_splits)
  with Cons.IH [OF rest] assms(2) show ?case by auto
qed

definition thread_or :: "u64 option \<Rightarrow> int \<Rightarrow> u64" where
  "thread_or thread i = (case thread of None \<Rightarrow> word_of_int i | Some w \<Rightarrow> w)"

definition stored_message :: "int \<Rightarrow> u64 \<Rightarrow> u64 option \<Rightarrow> string \<Rightarrow> string \<Rightarrow> bool \<Rightarrow> recipients \<Rightarrow> record_row" where
  "stored_message i ts thread author contents trunc rcpts =
     (message_row ts thread author contents trunc rcpts)\<lparr>r_id := i, r_thread_id := Some (sint (thread_or thread i))\<rparr>"

definition add_message :: "u64 \<Rightarrow> string \<Rightarrow> recipients \<Rightarrow> string \<Rightarrow> bool \<Rightarrow> u64 option \<Rightarrow> int list \<Rightarrow>
    string list \<Rightarrow> string list \<Rightarrow> tables \<Rightarrow> tables" where
  "add_message ts author rcpts contents trunc thread chs held absent t = (let i = seq_records t + 1 in
     t\<lparr>t_records := t_records t @ [stored_message i ts thread author contents trunc rcpts],
       t_record_channels := t_record_channels t @ map (Pair i) chs,
       t_record_participants := t_record_participants t @
         (if chs = [] then map (Pair i) (add_new [] (author # to_principals rcpts)) else []),
       t_acks := t_acks t @ map (held_row i ts) held @ map (absent_row i ts) absent,
       seq_records := i\<rparr>)"

text \<open>What the log needs for the thread id update to touch the new record only.\<close>

definition fresh_ids :: "tables \<Rightarrow> bool" where
  "fresh_ids t \<longleftrightarrow> (\<forall>r \<in> set (t_records t). r_id r \<le> seq_records t) \<and>
     (\<forall>p \<in> set (t_record_participants t). fst p \<le> seq_records t)"

lemma append_message_run:
  assumes run: "append_message_with_acks author rcpts contents trunc thread chs held absent c = (Inr env, c')"
    and fresh: "fresh_ids (tabs c)"
  shows "tabs c' = add_message (clock c) author rcpts contents trunc thread chs held absent (tabs c) \<and>
    env = \<lparr>message_id = word_of_int (seq_records (tabs c) + 1),
      thread_id = thread_or thread (seq_records (tabs c) + 1), timestamp = clock c, sender = author,
      recipients_of = rcpts, body = contents, truncated = trunc\<rparr> \<and>
    distinct chs \<and> set chs \<subseteq> ch_id ` set (t_channels (tabs c)) \<and> distinct (held @ absent)"
  using run unfolding append_message_with_acks_def
proof (cases rule: transaction_okE)
  case (dropped c1 c2)
  then show ?thesis by (auto simp: bindE_ok returnE_ok Let_def)
next
  case (committed c1 c2)
  define i where "i = seq_records (tabs c) + 1"
  from committed obtain j d1 d2 d3 d4 d5 where
    ins: "stmt (ins_record (message_row (clock c) thread author contents trunc rcpts)) c1 = (Inr j, d1)"
    and upd: "stmt (upd_thread_id (sint (thread_or thread j)) j) d1 = (Inr (), d2)"
    and chl: "eachE (\<lambda>ch. stmt (ins_record_channel j ch)) chs d2 = (Inr (), d3)"
    and par: "(if chs = [] then bindE (stmt (ins_participant j author)) (\<lambda>_.
                 eachE (\<lambda>p. stmt (ins_participant j p)) (to_principals rcpts))
            else returnE ()) d3 = (Inr (), d4)"
    and hld: "eachE (\<lambda>p. stmt (ins_ack (held_row j (clock c) p))) held d4 = (Inr (), d5)"
    and abs: "eachE (\<lambda>p. stmt (ins_ack (absent_row j (clock c) p))) absent d5 = (Inr (), c2)"
    and env: "env = \<lparr>message_id = word_of_int j, thread_id = thread_or thread j, timestamp = clock c, sender = author,
       recipients_of = rcpts, body = contents, truncated = trunc\<rparr>"
    by (auto simp: bindE_ok returnE_ok Let_def thread_or_def)
  from stmt_run [OF ins] committed have j: "j = i" and d1:
    "tabs d1 = push_record (message_row (clock c) thread author contents trunc rcpts) (tabs c)" "clock d1 = clock c"
    by (auto simp: ins_record_run i_def)
  have old: "map (\<lambda>r. if r_id r = i then f r else r) (t_records (tabs c)) = t_records (tabs c)" for f
    using fresh by (force simp: fresh_ids_def i_def intro!: map_idI)
  from stmt_run [OF upd] d1 old have d2: "tabs d2 = (tabs c)\<lparr>t_records := t_records (tabs c) @
       [stored_message i (clock c) thread author contents trunc rcpts], seq_records := i\<rparr>" "clock d2 = clock c"
    by (simp_all add: upd_thread_id_def j push_record_def stored_message_def i_def [symmetric])
  from record_channels_loop [OF chl] d2 j have d3: "tabs d3 = (tabs d2)\<lparr>t_record_channels :=
      t_record_channels (tabs d2) @ map (Pair i) chs\<rparr>" "clock d3 = clock c" by simp_all
  have nopart: "i \<notin> fst ` set (t_record_participants (tabs c))"
    using fresh by (force simp: fresh_ids_def i_def)
  have "tabs d4 = (tabs d3)\<lparr>t_record_participants := t_record_participants (tabs c) @
        (if chs = [] then map (Pair i) (add_new [] (author # to_principals rcpts)) else [])\<rparr> \<and> clock d4 = clock c"
  proof (cases "chs = []")
    case True
    with par have "eachE (\<lambda>p. stmt (ins_participant i p)) (author # to_principals rcpts) d3 = (Inr (), d4)"
      by (simp add: j)
    from participants_loop [OF this _ nopart, of "[]"] d2 d3 True show ?thesis by simp
  next
    case False
    with par d2 d3 show ?thesis by (simp add: returnE_ok)
  qed
  note d4 = this
  from acks_loop [OF hld, of i] j have d5: "tabs d5 = (tabs d4)\<lparr>t_acks := t_acks (tabs d4) @ map (held_row i (clock c)) held\<rparr>"
    "clock d5 = clock d4" "distinct held" by (simp_all add: ack_key_def held_row_def)
  from acks_loop [OF abs, of i] j d4 d5
  have c2: "tabs c2 = (tabs d5)\<lparr>t_acks := t_acks (tabs d5) @ map (absent_row i (clock c)) absent\<rparr>"
    "distinct absent" "\<forall>p \<in> set absent. (i, p) \<notin> ack_key ` set (t_acks (tabs d5))"
    by (simp_all add: ack_key_def absent_row_def)
  have "ack_key (held_row i (clock c) p) = (i, p)" for p by (simp add: ack_key_def held_row_def)
  then have "(i, p) \<in> ack_key ` set (t_acks (tabs d5))" if "p \<in> set held" for p
    using that by (auto simp: d5(1) image_Un image_image)
  with c2(3) have "set held \<inter> set absent = {}" by blast
  moreover have "tabs c' = add_message (clock c) author rcpts contents trunc thread chs held absent (tabs c)"
    unfolding committed(4) c2(1) d5(1) d4 [THEN conjunct1] d3(1) d2(1) by (simp add: add_message_def Let_def i_def)
  moreover from record_channels_loop [OF chl] d2(1)
  have "distinct chs" "set chs \<subseteq> ch_id ` set (t_channels (tabs c))" by simp_all
  ultimately show ?thesis using env d5(3) c2(2) by (simp add: j i_def)
qed

section \<open>Acknowledgments\<close>

definition ack_of :: "tables \<Rightarrow> int \<Rightarrow> string \<Rightarrow> ack_row option" where
  "ack_of t i p = List.find (\<lambda>a. ack_key a = (i, p)) (t_acks t)"

lemma find_filter_hd: "List.find P xs = (case filter P xs of [] \<Rightarrow> None | x # _ \<Rightarrow> Some x)"
  by (induction xs) auto

text \<open>The row update of \<open>ack_set\<close>.\<close>

definition ack_advance :: "ack_state \<Rightarrow> string option \<Rightarrow> u64 \<Rightarrow> ack_row \<Rightarrow> ack_row" where
  "ack_advance st reason ts a =
     (if ack_rank st > ack_rank (parse_ack_state (a_state a))
      then set_column (fst (ack_column st)) (sint ts) (a\<lparr>a_state := snd (ack_column st), a_reason := reason\<rparr>)
      else set_column (fst (ack_column st)) (sint ts) a)"

lemma ack_set_run:
  assumes "ack_set rid recipient st reason c = (Inr r, c')" and "distinct (map ack_key (t_acks (tabs c)))"
  shows "case ack_of (tabs c) (sint rid) recipient of
      None \<Rightarrow> r = None \<and> tabs c' = tabs c
    | Some a \<Rightarrow> r = (if ack_rank st > ack_rank (parse_ack_state (a_state a)) then Some (clock c) else None) \<and>
        tabs c' = (tabs c)\<lparr>t_acks := map (\<lambda>a. if ack_key a = (sint rid, recipient)
          then ack_advance st reason (clock c) a else a) (t_acks (tabs c))\<rparr>"
proof (cases "ack_of (tabs c) (sint rid) recipient")
  case None
  with assms(1) show ?thesis
    by (auto simp: ack_set_def ack_of_def find_filter_hd bindE_ok returnE_ok Let_def
        dest!: query_row_run split: list.splits)
next
  case (Some a)
  then have a: "a \<in> set (t_acks (tabs c))" "ack_key a = (sint rid, recipient)"
    by (auto simp: ack_of_def dest: find_Some_in)
  have uniq: "map (\<lambda>b. if ack_key b = (sint rid, recipient) then f b else b) (t_acks (tabs c)) =
      map (\<lambda>b. if ack_key b = (sint rid, recipient) then g b else b) (t_acks (tabs c))" if "f a = g a" for f g
  proof -
    have "b = a" if "b \<in> set (t_acks (tabs c))" and "ack_key b = (sint rid, recipient)" for b
      using distinct_map_inj_unique [OF assms(2) that(1) a(1)] that(2) a(2) by simp
    with \<open>f a = g a\<close> show ?thesis by (auto intro!: map_cong)
  qed
  from Some assms(1) obtain c1 where c1: "tabs c1 = tabs c"
    and rest: "(if ack_rank st > ack_rank (parse_ack_state (a_state a)) then
           bindE (stmt (upd_ack (sint rid) recipient
             (\<lambda>a. set_column (fst (ack_column st)) (sint (clock c)) (a\<lparr>a_state := snd (ack_column st), a_reason := reason\<rparr>)))) (\<lambda>_.
           returnE (Some (clock c)))
         else
           bindE (stmt (upd_ack (sint rid) recipient (set_column (fst (ack_column st)) (sint (clock c))))) (\<lambda>_.
           returnE None)) c1 = (Inr r, c')"
    by (auto simp: ack_set_def ack_of_def find_filter_hd bindE_ok Let_def dest!: query_row_run split: list.splits)
  show ?thesis
  proof (cases "ack_rank st > ack_rank (parse_ack_state (a_state a))")
    case True
    with rest c1 have "r = Some (clock c) \<and> tabs c' = (tabs c)\<lparr>t_acks := map (\<lambda>b. if ack_key b = (sint rid, recipient)
        then set_column (fst (ack_column st)) (sint (clock c)) (b\<lparr>a_state := snd (ack_column st), a_reason := reason\<rparr>)
        else b) (t_acks (tabs c))\<rparr>"
      by (auto simp: bindE_ok returnE_ok upd_ack_def dest!: stmt_run)
    with True Some show ?thesis
      by (subst uniq [where g = "\<lambda>b. set_column (fst (ack_column st)) (sint (clock c))
        (b\<lparr>a_state := snd (ack_column st), a_reason := reason\<rparr>)"]) (simp_all add: ack_advance_def)
  next
    case False
    with rest c1 have "r = None \<and> tabs c' = (tabs c)\<lparr>t_acks := map (\<lambda>b. if ack_key b = (sint rid, recipient)
        then set_column (fst (ack_column st)) (sint (clock c)) b else b) (t_acks (tabs c))\<rparr>"
      by (auto simp: bindE_ok returnE_ok upd_ack_def dest!: stmt_run)
    with False Some show ?thesis
      by (subst uniq [where g = "set_column (fst (ack_column st)) (sint (clock c))"]) (simp_all add: ack_advance_def)
  qed
qed

end
