(* ===== verification/Store_Integrity.thy ===== *)
theory Store_Integrity
  imports Store_Runs
begin

text \<open>
  What the schema promises of the stored data, whatever operations run and whatever
  statements fail: every operation of the store is a sequence of the SQL statements of
  \<open>sql_step\<close>, and each statement keeps the keys, the references, the row formats and the
  id counters. \<open>store_op\<close> and \<open>store_step\<close> put the operations together into one transition
  system, whose reachable states are the databases the broker can have.
\<close>

section \<open>Relations on tables kept by a run\<close>

locale tables_frame =
  fixes R :: "tables \<Rightarrow> tables \<Rightarrow> bool"
  assumes t_refl: "R t t"
    and t_trans: "R t t' \<Longrightarrow> R t' t'' \<Longrightarrow> R t t''"
begin

lemma tf_stmt:
  assumes "\<And>t x t'. f t = Inr (x, t') \<Longrightarrow> R t t'"
  shows "within (\<lambda>c c'. R (tabs c) (tabs c')) (stmt f)"
proof (rule withinI)
  fix c r c' assume run: "stmt f c = (r, c')"
  then show "R (tabs c) (tabs c')"
    by (cases r) (auto dest: stmt_okD intro: assms simp: stmt_errD(1) t_refl)
qed

lemma tf_transaction:
  assumes "within (\<lambda>c c'. R (tabs c) (tabs c')) m"
  shows "within (\<lambda>c c'. R (tabs c) (tabs c')) (transaction m)"
proof (rule withinI)
  fix c r c' assume run: "transaction m c = (r, c')"
  show "R (tabs c) (tabs c')"
  proof (cases r)
    case (Inl e)
    with run show ?thesis by (simp add: transaction_rollback t_refl)
  next
    case (Inr x)
    with run have "transaction m c = (Inr x, c')" by simp
    then show ?thesis
    proof (cases rule: transaction_okE)
      case (committed c1 c2)
      with withinD [OF assms committed(3)] show ?thesis by simp
    qed (simp add: t_refl)
  qed
qed

lemma tf_reads: "reads m \<Longrightarrow> within (\<lambda>c c'. R (tabs c) (tabs c')) m"
  by (erule within_mono) (simp add: t_refl)

lemma tf_frame: "frame (\<lambda>c c'. R (tabs c) (tabs c'))"
  by unfold_locales (auto intro: t_refl t_trans)

end

section \<open>The statements an operation issues\<close>

definition ack_state_name :: "string \<Rightarrow> bool" where
  "ack_state_name s \<longleftrightarrow> s \<in> {''held'', ''relayed'', ''processed'', ''failed''}"

definition ack_update_ok :: "(ack_row \<Rightarrow> ack_row) \<Rightarrow> bool" where
  "ack_update_ok f \<longleftrightarrow> (\<forall>a. ack_key (f a) = ack_key a \<and>
     (ack_state_name (a_state a) \<longrightarrow> ack_state_name (a_state (f a))))"

inductive sql_step :: "bool \<Rightarrow> tables \<Rightarrow> tables \<Rightarrow> bool" for purging where
  s_ins_channel: "ins_channel nm t = Inr (i, t') \<Longrightarrow> sql_step purging t t'"
| s_upd_channel_name: "upd_channel_name nm i t = Inr (u, t') \<Longrightarrow> sql_step purging t t'"
| s_upd_channel_archived: "upd_channel_archived b i t = Inr (u, t') \<Longrightarrow> sql_step purging t t'"
| s_del_subscriptions_of: "del_subscriptions_of c t = Inr (u, t') \<Longrightarrow> sql_step purging t t'"
| s_del_overrides_of: "del_overrides_of c t = Inr (u, t') \<Longrightarrow> sql_step purging t t'"
| s_ins_principal: "ins_principal nm t = Inr (u, t') \<Longrightarrow> sql_step purging t t'"
| s_ins_subscription: "ins_subscription p c t = Inr (n, t') \<Longrightarrow> sql_step purging t t'"
| s_del_subscription: "del_subscription p c t = Inr (n, t') \<Longrightarrow> sql_step purging t t'"
| s_upsert_override: "upsert_override p c (as_mode_str m) t = Inr (u, t') \<Longrightarrow> sql_step purging t t'"
| s_ins_system: "ins_record (system_row ts ev ref) t = Inr (i, t') \<Longrightarrow> sql_step purging t t'"
| s_ins_message: "ins_record (message_row ts th a b tr rc) t = Inr (i, t') \<Longrightarrow> sql_step purging t t'"
| s_upd_thread_id: "upd_thread_id th i t = Inr (u, t') \<Longrightarrow> sql_step purging t t'"
| s_ins_record_channel: "ins_record_channel i c t = Inr (u, t') \<Longrightarrow> sql_step purging t t'"
| s_ins_participant: "ins_participant i p t = Inr (u, t') \<Longrightarrow> sql_step purging t t'"
| s_ins_held: "ins_ack (held_row i ts p) t = Inr (u, t') \<Longrightarrow> sql_step purging t t'"
| s_ins_absent: "ins_ack (absent_row i ts p) t = Inr (u, t') \<Longrightarrow> sql_step purging t t'"
| s_upd_ack: "upd_ack i p f t = Inr (u, t') \<Longrightarrow> ack_update_ok f \<Longrightarrow> sql_step purging t t'"
| s_del_acks_of: "purging \<Longrightarrow> del_acks_of i t = Inr (u, t') \<Longrightarrow> sql_step purging t t'"
| s_del_participants_of: "purging \<Longrightarrow> del_participants_of i t = Inr (u, t') \<Longrightarrow> sql_step purging t t'"
| s_del_record_channels_of: "purging \<Longrightarrow> del_record_channels_of c t = Inr (u, t') \<Longrightarrow> sql_step purging t t'"
| s_del_record: "purging \<Longrightarrow> del_record i t = Inr (u, t') \<Longrightarrow> sql_step purging t t'"
| s_detach: "purging \<Longrightarrow> detach_channel_ref c t = Inr (u, t') \<Longrightarrow> sql_step purging t t'"
| s_del_channel: "purging \<Longrightarrow> del_channel c t = Inr (u, t') \<Longrightarrow> sql_step purging t t'"

interpretation sqls: tables_frame "(sql_step b)\<^sup>*\<^sup>*" for b
  by unfold_locales auto

interpretation sqlf: frame "\<lambda>c c'. (sql_step b)\<^sup>*\<^sup>* (tabs c) (tabs c')" for b
  by (rule sqls.tf_frame)

abbreviation touches :: "bool \<Rightarrow> 'a db \<Rightarrow> bool" where
  "touches b \<equiv> within (\<lambda>c c'. (sql_step b)\<^sup>*\<^sup>* (tabs c) (tabs c'))"

lemma touches_stmt: "(\<And>t x t'. f t = Inr (x, t') \<Longrightarrow> sql_step b t t') \<Longrightarrow> touches b (stmt f)"
  by (rule sqls.tf_stmt) blast

lemma touches_now_ms: "touches b now_ms"
  by (simp add: now_ms_def sqlf.within_get)

lemmas touches_query = sqls.tf_reads [OF reads_query] sqls.tf_reads [OF reads_query_row] sqls.tf_reads [OF reads_query_map]

lemmas touches_rules = sqlf.within_rules sqls.tf_transaction touches_query touches_now_ms

lemma touches_append_system: "touches b (append_system_in ev ref)"
  unfolding append_system_in_def by (intro touches_rules touches_stmt) (rule s_ins_system)

lemma touches_name_taken: "touches b m \<Longrightarrow> touches b (name_taken_on_constraint m)"
  unfolding name_taken_on_constraint_def by (intro touches_rules)

lemma touches_create_channel: "touches b (create_channel_logged nm actor)"
  unfolding create_channel_logged_def
  by (intro touches_rules touches_append_system touches_name_taken touches_stmt) (rule s_ins_channel)

lemma touches_rename_channel: "touches b (rename_channel_logged i old_name new_name actor)"
  unfolding rename_channel_logged_def
  by (intro touches_rules touches_append_system touches_name_taken touches_stmt) (rule s_upd_channel_name)

lemma touches_archive_channel: "touches b (archive_channel i nm actor archive)"
  unfolding archive_channel_def
  by (cases archive; simp only: if_True if_False; intro touches_rules touches_append_system touches_stmt)
    (erule s_upd_channel_archived s_del_subscriptions_of s_del_overrides_of)+

lemma touches_delete_channel: "touches True (delete_channel_logged c nm actor)"
  unfolding delete_channel_logged_def
  by (intro touches_rules touches_append_system touches_stmt)
    (erule s_del_acks_of [OF TrueI] s_del_participants_of [OF TrueI] s_del_record_channels_of [OF TrueI]
      s_del_record [OF TrueI] s_detach [OF TrueI] s_del_subscriptions_of s_del_overrides_of s_del_channel [OF TrueI])+

lemma touches_register_principal: "touches b (register_principal nm admin)"
  unfolding register_principal_def
  by (intro touches_rules touches_append_system touches_stmt) (rule s_ins_principal)

lemma touches_override_in: "touches b (override_in p c)"
  unfolding override_in_def by (intro touches_rules)

lemma touches_apply_membership: "touches b (apply_membership p c subscribe)"
  unfolding apply_membership_def
  by (cases subscribe; simp only: if_True if_False; intro touches_rules touches_stmt)
    (erule s_ins_subscription s_del_subscription)+

lemma touches_if: "touches b m \<Longrightarrow> touches b m' \<Longrightarrow> touches b (if P then m else m')"
  by simp

lemma touches_self_subscription: "touches b (self_subscription p c subscribe pname channel)"
  unfolding self_subscription_def
  by (intro touches_rules touches_append_system touches_override_in touches_apply_membership touches_if)

lemma touches_admin_subscription: "touches b (admin_subscription p c subscribe pname channel)"
  unfolding admin_subscription_def Let_def
  by (intro touches_rules touches_append_system touches_override_in touches_apply_membership touches_if touches_stmt)
    (rule s_upsert_override)

lemma touches_append_message: "touches b (append_message_with_acks author rcpts contents trunc thread chs held absent)"
  unfolding append_message_with_acks_def Let_def
  by (intro touches_rules touches_if touches_stmt)
    (erule s_ins_message s_upd_thread_id s_ins_record_channel s_ins_participant s_ins_held s_ins_absent)+

lemma set_column_sel [simp]:
  "a_record_id (set_column col ts a) = a_record_id a" "a_recipient (set_column col ts a) = a_recipient a"
  "a_state (set_column col ts a) = a_state a" "a_reason (set_column col ts a) = a_reason a"
  by (simp_all add: set_column_def)

lemma ack_update_ok_column: "ack_update_ok (set_column col ts)"
  "ack_update_ok (\<lambda>a. set_column col ts (a\<lparr>a_state := snd (ack_column st), a_reason := reason\<rparr>))"
  by (cases st; simp add: ack_update_ok_def ack_key_def ack_state_name_def)+

lemma touches_ack_set: "touches b (ack_set rid recipient st reason)"
proof -
  have upd: "touches b (stmt (upd_ack i p f))" if "ack_update_ok f" for i p f
    by (rule touches_stmt) (erule s_upd_ack, rule that)
  show ?thesis
    unfolding ack_set_def Let_def
    by (intro touches_rules; simp split: option.split; intro allI touches_rules touches_if upd conjI impI)
      (auto intro: ack_update_ok_column touches_rules upd)
qed

section \<open>Integrity\<close>

definition channels_ok :: "tables \<Rightarrow> bool" where
  "channels_ok t \<longleftrightarrow> distinct (map ch_id (t_channels t)) \<and> distinct (map ch_name (t_channels t)) \<and>
     0 \<le> seq_channels t \<and> (\<forall>r \<in> set (t_channels t). 0 < ch_id r \<and> ch_id r \<le> seq_channels t)"

definition principals_ok :: "tables \<Rightarrow> bool" where
  "principals_ok t \<longleftrightarrow> distinct (map pr_id (t_principals t)) \<and> distinct (map pr_name (t_principals t)) \<and>
     0 \<le> seq_principals t \<and> (\<forall>r \<in> set (t_principals t). 0 < pr_id r \<and> pr_id r \<le> seq_principals t)"

definition subscriptions_ok :: "tables \<Rightarrow> bool" where
  "subscriptions_ok t \<longleftrightarrow> distinct (t_subscriptions t) \<and> (\<forall>s \<in> set (t_subscriptions t). fk_pair (fst s) (snd s) t)"

definition overrides_ok :: "tables \<Rightarrow> bool" where
  "overrides_ok t \<longleftrightarrow> distinct (map fst (t_overrides t)) \<and>
     (\<forall>x \<in> set (t_overrides t). fk_pair (fst (fst x)) (snd (fst x)) t \<and> parse_mode (snd x) \<noteq> None)"

text \<open>A stored row converts back to a record.\<close>

definition row_ok :: "record_row \<Rightarrow> bool" where
  "row_ok r \<longleftrightarrow> row_to_record r \<noteq> None \<and> r_kind r \<in> {''message'', ''system''}"

definition log_ok :: "tables \<Rightarrow> bool" where
  "log_ok t \<longleftrightarrow> sorted_wrt (<) (map r_id (t_records t)) \<and> 0 \<le> seq_records t \<and> seq_records t \<le> max_rowid \<and>
     (\<forall>r \<in> set (t_records t). 0 < r_id r \<and> r_id r \<le> seq_records t \<and> row_ok r)"

definition links_ok :: "tables \<Rightarrow> bool" where
  "links_ok t \<longleftrightarrow> distinct (t_record_channels t) \<and> distinct (t_record_participants t) \<and>
     (\<forall>x \<in> set (t_record_channels t). fst x \<in> r_id ` set (t_records t) \<and> snd x \<in> ch_id ` set (t_channels t)) \<and>
     (\<forall>x \<in> set (t_record_participants t). fst x \<in> r_id ` set (t_records t))"

definition acks_ok :: "tables \<Rightarrow> bool" where
  "acks_ok t \<longleftrightarrow> distinct (map ack_key (t_acks t)) \<and>
     (\<forall>a \<in> set (t_acks t). a_record_id a \<in> r_id ` set (t_records t) \<and>
        ack_state_name (a_state a))"

definition integrity :: "tables \<Rightarrow> bool" where
  "integrity t \<longleftrightarrow> channels_ok t \<and> principals_ok t \<and> subscriptions_ok t \<and> overrides_ok t \<and>
     log_ok t \<and> links_ok t \<and> acks_ok t"

lemma integrity_empty: "integrity empty_tables"
  by (simp add: integrity_def channels_ok_def principals_ok_def subscriptions_ok_def overrides_ok_def
      log_ok_def links_ok_def acks_ok_def empty_tables_def max_rowid_def)

lemma row_to_record_system [simp]:
  "row_to_record ((system_row ts ev ref)\<lparr>r_id := i\<rparr>) = Some (SystemRec (word_of_int i) ts ev)"
  by (simp add: row_to_record_def system_row_def json_column_def event_codec.dec_enc)

lemma row_to_record_message:
  "row_to_record ((message_row ts th a b tr rc)\<lparr>r_id := i, r_thread_id := x\<rparr>) = Some (MessageRec
     \<lparr>message_id = word_of_int i, thread_id = word_of_int (case x of None \<Rightarrow> 0 | Some y \<Rightarrow> y), timestamp = ts,
       sender = a, recipients_of = rc, body = b, truncated = tr\<rparr>)"
  by (simp add: row_to_record_def message_row_def json_column_def recipients_codec.dec_enc)

lemma row_ok_new [simp]: "row_ok ((system_row ts ev ref)\<lparr>r_id := i\<rparr>)" "row_ok ((message_row ts th a b tr rc)\<lparr>r_id := i\<rparr>)"
  by (simp_all add: row_ok_def) (simp_all add: system_row_def message_row_def row_to_record_def json_column_def
      recipients_codec.dec_enc)

lemma row_ok_update [simp]: "row_ok (r\<lparr>r_thread_id := x\<rparr>) = row_ok r" "row_ok (r\<lparr>r_channel_ref := y\<rparr>) = row_ok r"
  by (auto simp: row_ok_def row_to_record_def split: option.splits)

lemmas integrity_parts = channels_ok_def principals_ok_def subscriptions_ok_def overrides_ok_def
  log_ok_def links_ok_def acks_ok_def fk_pair_def

text \<open>Each part from itself, so that a statement is checked one table at a time.\<close>

lemma integrityI:
  assumes "integrity t" and "channels_ok t \<Longrightarrow> channels_ok t'" and "principals_ok t \<Longrightarrow> principals_ok t'"
    and "subscriptions_ok t \<Longrightarrow> subscriptions_ok t'" and "overrides_ok t \<Longrightarrow> overrides_ok t'"
    and "log_ok t \<Longrightarrow> log_ok t'" and "links_ok t \<Longrightarrow> links_ok t'" and "acks_ok t \<Longrightarrow> acks_ok t'"
  shows "integrity t'"
  using assms by (simp add: integrity_def)

lemma distinct_map_upd:
  assumes "distinct (map f xs)" and "distinct (map k xs)" and "\<And>r. r \<in> set xs \<Longrightarrow> k r \<noteq> i \<Longrightarrow> f r \<noteq> v"
    and "\<And>r. f (g r) = v"
  shows "distinct (map f (map (\<lambda>r. if k r = i then g r else r) xs))"
  using assms(1,2,3)
proof (induction xs)
  case Nil
  then show ?case by simp
next
  case (Cons x xs)
  then have IH: "distinct (map f (map (\<lambda>r. if k r = i then g r else r) xs))" by auto
  have rest: "f y = f (if k y = i then g y else y) \<or> k y = i" for y by simp
  show ?case
  proof (cases "k x = i")
    case True
    with Cons.prems(2) have "k r \<noteq> i" if "r \<in> set xs" for r using that by (metis distinct.simps(2) image_eqI list.simps(9) list.set_map)
    with Cons.prems(3) assms(4) IH True show ?thesis by (auto simp: image_iff)
  next
    case False
    with Cons.prems assms(4) IH show ?thesis by (auto simp: image_iff)
  qed
qed

lemma integrity_ins_channel: "integrity t \<Longrightarrow> ins_channel nm t = Inr (i, t') \<Longrightarrow> integrity t'"
  by (erule integrityI; simp add: integrity_parts ins_channel_def Let_def split: if_splits; force)

lemma integrity_same_ids:
  assumes int: "integrity t" and t': "t' = t\<lparr>t_channels := rows\<rparr>"
    and ids: "map ch_id rows = map ch_id (t_channels t)" and names: "distinct (map ch_name rows)"
  shows "integrity t'"
proof -
  from ids have img: "ch_id ` set rows = ch_id ` set (t_channels t)" by (metis list.set_map)
  have "channels_ok t'" if "channels_ok t"
  proof -
    from that have "\<forall>i \<in> ch_id ` set rows. 0 < i \<and> i \<le> seq_channels t"
      unfolding img by (simp add: channels_ok_def)
    with that ids names show ?thesis by (simp add: channels_ok_def t')
  qed
  note part = this
  show ?thesis by (rule integrityI [OF int part]; simp add: t' integrity_parts img)
qed

lemma integrity_upd_channel_name:
  assumes int: "integrity t" and run: "upd_channel_name nm i t = Inr (u, t')"
  shows "integrity t'"
proof (rule integrity_same_ids [OF int])
  let ?rows = "map (\<lambda>r. if ch_id r = i then r\<lparr>ch_name := nm\<rparr> else r) (t_channels t)"
  from run show "t' = t\<lparr>t_channels := ?rows\<rparr>" by (auto simp: upd_channel_name_def split: if_splits)
  show "map ch_id ?rows = map ch_id (t_channels t)" by simp
  show "distinct (map ch_name ?rows)"
  proof (cases "i \<in> ch_id ` set (t_channels t)")
    case True
    with run have "\<forall>r \<in> set (t_channels t). ch_id r \<noteq> i \<longrightarrow> ch_name r \<noteq> nm"
      by (auto simp: upd_channel_name_def split: if_splits)
    with int show ?thesis by (intro distinct_map_upd [where v = nm]) (auto simp: integrity_def channels_ok_def)
  next
    case False
    then have "?rows = t_channels t" by (intro map_idI) auto
    with int show ?thesis by (simp add: integrity_def channels_ok_def)
  qed
qed

lemma integrity_upd_channel_archived:
  assumes int: "integrity t" and run: "upd_channel_archived b i t = Inr (u, t')"
  shows "integrity t'"
  by (rule integrity_same_ids [OF int,
        of _ "map (\<lambda>r. if ch_id r = i then r\<lparr>ch_archived := of_bool b\<rparr> else r) (t_channels t)"])
    (use run int in \<open>simp_all add: upd_channel_archived_def integrity_def channels_ok_def comp_def if_distrib cong: if_cong\<close>)

lemma integrity_del_channel:
  assumes int: "integrity t" and run: "del_channel c t = Inr (u, t')"
  shows "integrity t'"
proof (cases "c \<in> ch_id ` set (t_channels t)")
  case True
  with run have "\<forall>s \<in> set (t_subscriptions t). snd s \<noteq> c" "\<forall>s \<in> set (t_overrides t). snd (fst s) \<noteq> c"
      "\<forall>s \<in> set (t_record_channels t). snd s \<noteq> c"
    and t': "t' = t\<lparr>t_channels := filter (\<lambda>r. ch_id r \<noteq> c) (t_channels t)\<rparr>"
    unfolding del_channel_def comp_def by (metis imageI Inl_Inr_False Inr_inject Pair_inject)+
  moreover have "ch_id ` {r \<in> set (t_channels t). ch_id r \<noteq> c} = ch_id ` set (t_channels t) - {c}" by auto
  ultimately show ?thesis
    by (intro integrityI [OF int]; simp add: integrity_parts distinct_map_filter)
next
  case False
  then have "filter (\<lambda>r. ch_id r \<noteq> c) (t_channels t) = t_channels t" by (auto simp: filter_id_conv)
  with False run int show ?thesis by (simp add: del_channel_def)
qed

lemma integrity_ins_principal: "integrity t \<Longrightarrow> ins_principal nm t = Inr (u, t') \<Longrightarrow> integrity t'"
  by (erule integrityI; simp add: integrity_parts ins_principal_def Let_def split: if_splits; force)

lemma integrity_ins_subscription: "integrity t \<Longrightarrow> ins_subscription p c t = Inr (n, t') \<Longrightarrow> integrity t'"
  by (erule integrityI; simp add: integrity_parts ins_subscription_def split: if_splits; force)

lemma integrity_del_subscription: "integrity t \<Longrightarrow> del_subscription p c t = Inr (n, t') \<Longrightarrow> integrity t'"
  by (erule integrityI; simp add: integrity_parts del_subscription_def; force)

lemma integrity_del_subscriptions_of: "integrity t \<Longrightarrow> del_subscriptions_of c t = Inr (u, t') \<Longrightarrow> integrity t'"
  by (erule integrityI; simp add: integrity_parts del_subscriptions_of_def; force)

lemma integrity_del_overrides_of:
  assumes int: "integrity t" and run: "del_overrides_of c t = Inr (u, t')"
  shows "integrity t'"
proof -
  from run have t': "t' = t\<lparr>t_overrides := filter (\<lambda>s. snd (fst s) \<noteq> c) (t_overrides t)\<rparr>"
    by (simp add: del_overrides_of_def)
  have "overrides_ok t'" if "overrides_ok t"
    using that by (simp add: overrides_ok_def t' distinct_map_filter fk_pair_def del: not_None_eq)
  note part = this
    show ?thesis by (rule integrityI [OF int _ _ _ part]; simp add: integrity_parts t')
qed

lemma integrity_upsert_override:
  assumes int: "integrity t" and run: "upsert_override p c (as_mode_str m) t = Inr (u, t')"
  shows "integrity t'"
proof -
  have mode: "parse_mode (as_mode_str m) = Some m" by (cases m) (simp_all add: parse_mode_def)
  show ?thesis
  proof (cases "(p, c) \<in> fst ` set (t_overrides t)")
    case True
    with run have t': "t' = t\<lparr>t_overrides := map (\<lambda>ov. if fst ov = (p, c) then ((p, c), as_mode_str m) else ov) (t_overrides t)\<rparr>"
      by (simp add: upsert_override_def)
    have keys: "map fst (t_overrides t') = map fst (t_overrides t)" by (simp add: t')
    have "overrides_ok t'" if ok: "overrides_ok t"
    proof -
      have "fk_pair (fst (fst x)) (snd (fst x)) t \<and> parse_mode (snd x) \<noteq> None" if "x \<in> set (t_overrides t')" for x
      proof -
        let ?g = "\<lambda>ov. if fst ov = (p, c) then ((p, c), as_mode_str m) else ov"
        have "set (t_overrides t') = ?g ` set (t_overrides t)" by (simp add: t')
        with that have "x \<in> ?g ` set (t_overrides t)" by (simp only:)
        then obtain y where y: "y \<in> set (t_overrides t)" "x = ?g y" by (rule imageE)
        with ok have "fk_pair (fst (fst y)) (snd (fst y)) t \<and> parse_mode (snd y) \<noteq> None"
          by (simp add: overrides_ok_def)
        with y(2) mode show ?thesis by (simp split: if_splits)
      qed
      with ok show ?thesis unfolding overrides_ok_def keys by (simp add: fk_pair_def t')
    qed
    note part = this
    show ?thesis by (rule integrityI [OF int _ _ _ part]; simp add: integrity_parts t')
  next
    case False
    with run have t': "t' = t\<lparr>t_overrides := t_overrides t @ [((p, c), as_mode_str m)]\<rparr>" and fk: "fk_pair p c t"
      by (simp_all add: upsert_override_def split: if_splits)
    have "overrides_ok t'" if ok: "overrides_ok t"
      using ok False mode fk by (simp add: overrides_ok_def t' fk_pair_def del: not_None_eq)
    note part = this
    show ?thesis by (rule integrityI [OF int _ _ _ part]; simp add: integrity_parts t')
  qed
qed

lemma integrity_ins_record:
  assumes int: "integrity t" and run: "ins_record r t = Inr (i, t')" and ok: "\<And>i. row_ok (r\<lparr>r_id := i\<rparr>)"
  shows "integrity t'"
proof -
  from run have "seq_records t < max_rowid" "t' = push_record r t"
    by (metis ins_record_run)+
  with ok show ?thesis
    by (intro integrityI [OF int]; simp add: integrity_parts sorted_wrt_append; force)
qed

lemma integrity_update_records:
  assumes int: "integrity t" and t': "t' = t\<lparr>t_records := map f (t_records t)\<rparr>"
    and "\<And>r. r_id (f r) = r_id r" and "\<And>r. row_ok (f r) = row_ok r"
  shows "integrity t'"
  by (intro integrityI [OF int]; simp add: integrity_parts t' comp_def assms(3,4) image_image)

lemma integrity_upd_thread_id: "integrity t \<Longrightarrow> upd_thread_id th i t = Inr (u, t') \<Longrightarrow> integrity t'"
  by (erule integrity_update_records [where f = "\<lambda>r. if r_id r = i then r\<lparr>r_thread_id := Some th\<rparr> else r"])
    (auto simp: upd_thread_id_def)

lemma integrity_detach: "integrity t \<Longrightarrow> detach_channel_ref c t = Inr (u, t') \<Longrightarrow> integrity t'"
  by (erule integrity_update_records [where f = "\<lambda>r. if r_channel_ref r = Some c then r\<lparr>r_channel_ref := None\<rparr> else r"])
    (auto simp: detach_channel_ref_def)

lemma integrity_ins_record_channel: "integrity t \<Longrightarrow> ins_record_channel i c t = Inr (u, t') \<Longrightarrow> integrity t'"
  by (erule integrityI; simp add: integrity_parts ins_record_channel_def split: if_splits; force)

lemma integrity_ins_participant: "integrity t \<Longrightarrow> ins_participant i p t = Inr (u, t') \<Longrightarrow> integrity t'"
  by (erule integrityI; simp add: integrity_parts ins_participant_def split: if_splits; force)

lemma integrity_ins_ack:
  "integrity t \<Longrightarrow> ins_ack a t = Inr (u, t') \<Longrightarrow> ack_state_name (a_state a) \<Longrightarrow> integrity t'"
  by (erule integrityI; simp add: integrity_parts ins_ack_def split: if_splits; force)

lemma integrity_upd_ack:
  assumes int: "integrity t" and run: "upd_ack i p f t = Inr (u, t')" and ok: "ack_update_ok f"
  shows "integrity t'"
proof -
  let ?g = "\<lambda>a. if ack_key a = (i, p) then f a else a"
  from run have t': "t' = t\<lparr>t_acks := map ?g (t_acks t)\<rparr>" by (simp add: upd_ack_def)
  have key: "ack_key (?g a) = ack_key a" for a using ok by (simp add: ack_update_ok_def)
  have st: "ack_state_name (a_state a) \<Longrightarrow> ack_state_name (a_state (?g a))" for a
    using ok by (simp add: ack_update_ok_def)
  from key have rid: "a_record_id (?g a) = a_record_id a" for a by (metis ack_key_def fst_conv)
  have "acks_ok t'" if acks: "acks_ok t"
    unfolding acks_ok_def
  proof (intro conjI ballI)
    have "map ack_key (t_acks t') = map ack_key (t_acks t)" by (simp add: t' key cong: map_cong)
    with acks show "distinct (map ack_key (t_acks t'))" by (simp add: acks_ok_def)
  next
    fix b assume "b \<in> set (t_acks t')"
    then obtain a where a: "a \<in> set (t_acks t)" "b = ?g a" by (auto simp: t')
    from acks a(1) have "a_record_id a \<in> r_id ` set (t_records t)" by (simp add: acks_ok_def)
    then show "a_record_id b \<in> r_id ` set (t_records t')" unfolding a(2) rid by (simp add: t')
    from acks a(1) have "ack_state_name (a_state a)" by (simp add: acks_ok_def)
    then show "ack_state_name (a_state b)" unfolding a(2) by (rule st)
  qed
  note part = this
  show ?thesis by (rule integrityI [OF int _ _ _ _ _ _ part]; simp add: integrity_parts t')
qed

lemma integrity_deletes:
  assumes int: "integrity t"
  shows "del_acks_of i t = Inr (u, t') \<Longrightarrow> integrity t'"
    and "del_participants_of i t = Inr (u, t') \<Longrightarrow> integrity t'"
    and "del_record_channels_of c t = Inr (u, t') \<Longrightarrow> integrity t'"
proof -
  show "integrity t'" if "del_acks_of i t = Inr (u, t')"
  proof -
    from that have t': "t' = t\<lparr>t_acks := filter (\<lambda>a. a_record_id a \<noteq> i) (t_acks t)\<rparr>" by (simp add: del_acks_of_def)
    show ?thesis by (rule integrityI [OF int]; simp add: integrity_parts t' distinct_map_filter)
  qed
  show "integrity t'" if "del_participants_of i t = Inr (u, t')"
    using that by (intro integrityI [OF int]; simp add: integrity_parts del_participants_of_def; force)
  show "integrity t'" if "del_record_channels_of c t = Inr (u, t')"
    using that by (intro integrityI [OF int]; simp add: integrity_parts del_record_channels_of_def; force)
qed

lemma integrity_del_record:
  assumes int: "integrity t" and run: "del_record i t = Inr (u, t')"
  shows "integrity t'"
proof (cases "i \<in> r_id ` set (t_records t)")
  case True
  with run have "\<forall>s \<in> set (t_record_channels t). fst s \<noteq> i" "\<forall>s \<in> set (t_record_participants t). fst s \<noteq> i"
      "\<forall>a \<in> set (t_acks t). a_record_id a \<noteq> i"
    and t': "t' = t\<lparr>t_records := filter (\<lambda>r. r_id r \<noteq> i) (t_records t)\<rparr>"
    unfolding del_record_def by (metis imageI Inl_Inr_False Inr_inject Pair_inject)+
  moreover have "r_id ` {r \<in> set (t_records t). r_id r \<noteq> i} = r_id ` set (t_records t) - {i}" by auto
  ultimately show ?thesis
    by (intro integrityI [OF int]; simp add: integrity_parts sorted_wrt_map sorted_wrt_filter)
next
  case False
  then have "filter (\<lambda>r. r_id r \<noteq> i) (t_records t) = t_records t" by (auto simp: filter_id_conv)
  with False run int show ?thesis by (simp add: del_record_def)
qed

lemma ack_state_names [simp]: "ack_state_name (a_state (held_row i ts p))" "ack_state_name (a_state (absent_row i ts p))"
  by (simp_all add: ack_state_name_def held_row_def absent_row_def)

lemma integrity_step: "sql_step b t t' \<Longrightarrow> integrity t \<Longrightarrow> integrity t'"
  by (erule sql_step.cases; simp only:)
    (erule (1) integrity_ins_channel integrity_upd_channel_name integrity_upd_channel_archived
      integrity_del_subscriptions_of integrity_del_overrides_of integrity_ins_principal integrity_ins_subscription
      integrity_del_subscription integrity_upsert_override integrity_upd_thread_id integrity_ins_record_channel
      integrity_ins_participant integrity_upd_ack integrity_deletes integrity_del_record integrity_detach
      integrity_del_channel integrity_ins_record [OF _ _ row_ok_new(1)] integrity_ins_record [OF _ _ row_ok_new(2)]
      integrity_ins_ack [OF _ _ ack_state_names(1)] integrity_ins_ack [OF _ _ ack_state_names(2)] | assumption)+

lemma integrity_steps: "(sql_step b)\<^sup>*\<^sup>* t t' \<Longrightarrow> integrity t \<Longrightarrow> integrity t'"
  by (induction rule: rtranclp_induct) (auto intro: integrity_step)

lemma integrity_fresh: "integrity t \<Longrightarrow> fresh_ids t"
  unfolding integrity_def fresh_ids_def log_ok_def links_ok_def by (metis (no_types, lifting) imageE)

section \<open>The store as a transition system\<close>

datatype store_op =
    CreateChannel string string
  | RenameChannel int string string string
  | ArchiveChannel int string string bool
  | DeleteChannel int string string
  | RegisterPrincipal string bool
  | SelfSubscription int int bool string string
  | AdminSubscription int int bool string string
  | AppendMessage string recipients string bool "u64 option" "int list" "string list" "string list"
  | AppendSystem system_event "int option"
  | AckSet u64 string ack_state "string option"

definition ignore_result :: "'a db \<Rightarrow> unit db" where
  "ignore_result m = bindE m (\<lambda>_. returnE ())"

fun run_op :: "store_op \<Rightarrow> unit db" where
  "run_op (CreateChannel nm actor) = ignore_result (create_channel_logged nm actor)"
| "run_op (RenameChannel i old_name new_name actor) = ignore_result (rename_channel_logged i old_name new_name actor)"
| "run_op (ArchiveChannel i nm actor archive) = ignore_result (archive_channel i nm actor archive)"
| "run_op (DeleteChannel i nm actor) = ignore_result (delete_channel_logged i nm actor)"
| "run_op (RegisterPrincipal nm admin) = ignore_result (register_principal nm admin)"
| "run_op (SelfSubscription p c sub pname channel) = ignore_result (self_subscription p c sub pname channel)"
| "run_op (AdminSubscription p c sub pname channel) = ignore_result (admin_subscription p c sub pname channel)"
| "run_op (AppendMessage author rcpts contents trunc thread chs held absent) =
     ignore_result (append_message_with_acks author rcpts contents trunc thread chs held absent)"
| "run_op (AppendSystem ev ref) = ignore_result (append_system ev ref)"
| "run_op (AckSet i p st reason) = ignore_result (ack_set i p st reason)"

definition is_delete :: "store_op \<Rightarrow> bool" where
  "is_delete op \<longleftrightarrow> (case op of DeleteChannel _ _ _ \<Rightarrow> True | _ \<Rightarrow> False)"

lemma is_delete_simps [simp]:
  "is_delete (DeleteChannel i nm actor)" "\<not> is_delete (CreateChannel nm actor)" "\<not> is_delete (RenameChannel i a b actor)"
  "\<not> is_delete (ArchiveChannel i nm actor arc)" "\<not> is_delete (RegisterPrincipal nm admin)"
  "\<not> is_delete (SelfSubscription p c sub pname channel)" "\<not> is_delete (AdminSubscription p c sub pname channel)"
  "\<not> is_delete (AppendMessage author rcpts contents trunc thread chs held absent)" "\<not> is_delete (AppendSystem ev ref)"
  "\<not> is_delete (AckSet j q st reason)"
  by (simp_all add: is_delete_def)

lemma touches_ignore: "touches b m \<Longrightarrow> touches b (ignore_result m)"
  unfolding ignore_result_def by (intro touches_rules)

lemma touches_run_op: "touches (is_delete op) (run_op op)"
  by (cases op) (simp_all add: touches_ignore touches_create_channel touches_rename_channel touches_archive_channel
      touches_delete_channel touches_register_principal touches_self_subscription touches_admin_subscription
      touches_append_message touches_ack_set append_system_def touches_append_system)

text \<open>Between operations the clock and the storage faults to come may change freely.\<close>

inductive store_step :: "conn \<Rightarrow> store_op option \<Rightarrow> conn \<Rightarrow> bool" where
  step_op: "run_op op c = (r, c') \<Longrightarrow> store_step c (Some op) c'"
| step_env: "store_step c None (c\<lparr>faults := fs, clock := ts\<rparr>)"

inductive_cases step_opE: "store_step c (Some op) c'"

definition store_init :: "conn \<Rightarrow> bool" where
  "store_init c \<longleftrightarrow> tabs c = new_tables"

abbreviation store_reachable :: "conn \<Rightarrow> bool" where
  "store_reachable \<equiv> reachable store_init store_step"

lemma store_step_tabs: "store_step c l c' \<Longrightarrow>
    (sql_step (case l of None \<Rightarrow> False | Some op \<Rightarrow> is_delete op))\<^sup>*\<^sup>* (tabs c) (tabs c')"
  by (erule store_step.cases) (auto dest: withinD [OF touches_run_op])

lemma integrity_version: "integrity (t\<lparr>t_schema_version := v\<rparr>) = integrity t"
  by (simp add: integrity_def integrity_parts)

interpretation store_int: safety store_init store_step "\<lambda>c. integrity (tabs c)"
proof unfold_locales
  fix c assume "store_init c"
  then show "integrity (tabs c)"
    using integrity_empty by (simp add: store_init_def new_tables_def versioned_def integrity_version)
next
  fix c l c' assume "integrity (tabs c)" and "store_step c l c'"
  then show "integrity (tabs c')" by (blast dest: store_step_tabs integrity_steps)
qed

end
