(* ===== verification/Store_Spec.thy ===== *)
theory Store_Spec
  imports Store_Integrity
begin

text \<open>
  The store against its specification. \<open>op_spec\<close> says what each operation is to do to the
  tables, as one function without statements, transactions or failures; the program
  either reports an error and has changed nothing, or has done exactly that, and on a
  healthy engine with the operation's precondition it succeeds. The policy of the
  subscription overrides (ADR-0009) is an invariant of every reachable database.
\<close>

section \<open>The specification\<close>

definition spec_rename :: "int \<Rightarrow> string \<Rightarrow> tables \<Rightarrow> tables" where
  "spec_rename i nm t =
     t\<lparr>t_channels := map (\<lambda>r. if ch_id r = i then r\<lparr>ch_name := nm\<rparr> else r) (t_channels t)\<rparr>"

definition spec_archived :: "int \<Rightarrow> bool \<Rightarrow> tables \<Rightarrow> tables" where
  "spec_archived i b t =
     t\<lparr>t_channels := map (\<lambda>r. if ch_id r = i then r\<lparr>ch_archived := of_bool b\<rparr> else r) (t_channels t)\<rparr>"

definition spec_evict :: "int \<Rightarrow> tables \<Rightarrow> tables" where
  "spec_evict i t = t\<lparr>t_subscriptions := filter (\<lambda>s. snd s \<noteq> i) (t_subscriptions t),
     t_overrides := filter (\<lambda>s. snd (fst s) \<noteq> i) (t_overrides t)\<rparr>"

definition spec_ack :: "u64 \<Rightarrow> string \<Rightarrow> ack_state \<Rightarrow> string option \<Rightarrow> u64 \<Rightarrow> tables \<Rightarrow> tables" where
  "spec_ack rid recipient st reason ts t =
     t\<lparr>t_acks := map (\<lambda>a. if ack_key a = (sint rid, recipient) then ack_advance st reason ts a else a) (t_acks t)\<rparr>"

fun op_spec :: "store_op \<Rightarrow> u64 \<Rightarrow> tables \<Rightarrow> tables" where
  "op_spec (CreateChannel nm actor) ts t = (let i = seq_channels t + 1 in
     push_record (system_row ts (ChannelCreated nm actor) (Some i))
       (t\<lparr>t_channels := t_channels t @ [\<lparr>ch_id = i, ch_name = nm, ch_archived = 0\<rparr>], seq_channels := i\<rparr>))"
| "op_spec (RenameChannel i old_name new_name actor) ts t =
     push_record (system_row ts (ChannelRenamed old_name new_name actor) (Some i)) (spec_rename i new_name t)"
| "op_spec (ArchiveChannel i nm actor archive) ts t =
     (if archive then push_all (map (\<lambda>ev. system_row ts ev (Some i)) (archive_events i nm actor t))
        (spec_evict i (spec_archived i True t))
      else push_record (system_row ts (ChannelUnarchived nm actor) (Some i)) (spec_archived i False t))"
| "op_spec (DeleteChannel i nm actor) ts t =
     push_record (system_row ts (ChannelDeleted (word_of_int i) nm (of_nat (length (sole_records i t))) actor) None) (purge i t)"
| "op_spec (RegisterPrincipal nm admin) ts t = push_record (system_row ts (Registered nm admin) None)
     (if nm \<in> pr_name ` set (t_principals t) then t
      else t\<lparr>t_principals := t_principals t @ [\<lparr>pr_id = seq_principals t + 1, pr_name = nm\<rparr>],
        seq_principals := seq_principals t + 1\<rparr>)"
| "op_spec (SelfSubscription p c sub pname channel) ts t =
     (if policy_of t p c = Some (blocking_mode sub) \<or> \<not> membership_changes p c sub t then t
      else push_record (system_row ts (subscription_event pname channel sub False) (Some c)) (with_membership p c sub t))"
| "op_spec (AdminSubscription p c sub pname channel) ts t =
     (let t' = with_membership p c sub (with_policy p c (admin_mode sub) t) in
      if admin_changes p c sub t
      then push_record (system_row ts (subscription_event pname channel sub True) (Some c)) t' else t')"
| "op_spec (AppendMessage author rcpts contents trunc thread chs held absent) ts t =
     add_message ts author rcpts contents trunc thread chs held absent t"
| "op_spec (AppendSystem ev ref) ts t = push_record (system_row ts ev ref) t"
| "op_spec (AckSet rid recipient st reason) ts t = spec_ack rid recipient st reason ts t"

section \<open>Refinement under storage failures\<close>

lemma ignore_result_cases:
  assumes "ignore_result m c = (r, c')"
  obtains (err) e where "r = Inl e" "m c = (Inl e, c')" | (ok) x where "r = Inr ()" "m c = (Inr x, c')"
  using assms by (cases "m c"; cases "fst (m c)") (auto simp: ignore_result_def bindE_def returnE_def)

lemma append_system_err: "append_system_in ev ref c = (Inl e, c') \<Longrightarrow> tabs c' = tabs c"
  by (auto simp: append_system_in_def bindE_err returnE_ok dest: stmt_errD)

lemma query_row_err: "query_row f q c = (Inl e, c') \<Longrightarrow> tabs c' = tabs c"
  unfolding query_row_def by (rule stmt_errD)

lemma ack_set_err:
  assumes "ack_set rid recipient st reason c = (Inl e, c')"
  shows "tabs c' = tabs c"
proof -
  obtain q c1 where q: "query_row (\<lambda>a. Some (a_state a))
      (\<lambda>t. filter (\<lambda>a. ack_key a = (sint rid, recipient)) (t_acks t)) c = (q, c1)" by fastforce
  then have c1: "tabs c1 = tabs c" by (cases q) (auto dest: query_row_err query_row_run)
  show ?thesis
  proof (cases q)
    case (Inl x)
    with q c1 assms show ?thesis by (simp add: ack_set_def Let_def)
  next
    case (Inr cur)
    with q c1 assms show ?thesis
      by (cases cur) (auto simp: ack_set_def Let_def returnE_ok bindE_err dest: stmt_errD split: if_splits)
  qed
qed

lemma run_op_error: "run_op op c = (Inl e, c') \<Longrightarrow> tabs c' = tabs c"
proof (cases op)
  case (AckSet i p st reason)
  moreover assume "run_op op c = (Inl e, c')"
  ultimately show ?thesis by (auto elim!: ignore_result_cases dest: ack_set_err)
qed (auto elim!: ignore_result_cases simp: create_channel_logged_def rename_channel_logged_def archive_channel_def
    delete_channel_logged_def register_principal_def self_subscription_def admin_subscription_def Let_def
    append_message_with_acks_def append_system_def transaction_rollback append_system_err)

lemma ack_of_None: "ack_of t i p = None \<Longrightarrow> spec_ack rid p st reason ts t = t" if "sint rid = i"
  using that by (auto simp: ack_of_def spec_ack_def find_None_all intro!: tables.equality map_idI)

lemma run_op_success:
  assumes run: "run_op op c = (Inr (), c')" and int: "integrity (tabs c)"
  shows "tabs c' = op_spec op (clock c) (tabs c)"
proof (cases op)
  case (CreateChannel nm actor)
  with run show ?thesis by (auto elim!: ignore_result_cases dest!: create_channel_run simp: Let_def)
next
  case (RenameChannel i a b actor)
  with run show ?thesis by (auto elim!: ignore_result_cases dest!: rename_channel_run simp: spec_rename_def)
next
  case (ArchiveChannel i nm actor archive)
  with run show ?thesis
    by (cases archive) (auto elim!: ignore_result_cases dest!: archive_channel_run unarchive_channel_run
        simp: spec_archived_def spec_evict_def)
next
  case (DeleteChannel i nm actor)
  with run show ?thesis by (auto elim!: ignore_result_cases dest!: delete_channel_run simp: Let_def)
next
  case (RegisterPrincipal nm admin)
  with run show ?thesis by (auto elim!: ignore_result_cases dest!: register_principal_run)
next
  case (SelfSubscription p ch sub pname channel)
  with run obtain out where out: "self_subscription p ch sub pname channel c = (Inr out, c')"
    by (auto elim!: ignore_result_cases)
  show ?thesis
  proof (cases "policy_of (tabs c) p ch = Some (blocking_mode sub)")
    case True
    with self_subscription_blocked [OF out True] SelfSubscription show ?thesis by simp
  next
    case False
    with self_subscription_run [OF out False] SelfSubscription show ?thesis by (simp add: Let_def split: if_splits)
  qed
next
  case (AdminSubscription p ch sub pname channel)
  with run obtain out where "admin_subscription p ch sub pname channel c = (Inr out, c')"
    by (auto elim!: ignore_result_cases)
  from admin_subscription_run [OF this] AdminSubscription show ?thesis by (simp add: Let_def split: if_splits)
next
  case (AppendMessage author rcpts contents trunc thread chs held absent)
  with run obtain env where "append_message_with_acks author rcpts contents trunc thread chs held absent c = (Inr env, c')"
    by (auto elim!: ignore_result_cases)
  from append_message_run [OF this integrity_fresh [OF int]] AppendMessage show ?thesis by simp
next
  case (AppendSystem ev ref)
  with run show ?thesis by (auto elim!: ignore_result_cases dest!: append_system_run simp: append_system_def)
next
  case (AckSet rid recipient st reason)
  with run obtain r where "ack_set rid recipient st reason c = (Inr r, c')"
    by (auto elim!: ignore_result_cases)
  moreover from int have "distinct (map ack_key (t_acks (tabs c)))" by (simp add: integrity_def acks_ok_def)
  ultimately show ?thesis using AckSet ack_of_None [of rid "sint rid" "tabs c"]
    by (auto dest!: ack_set_run simp: spec_ack_def split: option.splits)
qed

section \<open>Total correctness on a healthy engine\<close>

definition total :: "'a db \<Rightarrow> ('a \<Rightarrow> tables \<Rightarrow> bool) \<Rightarrow> tables \<Rightarrow> bool" where
  "total m Q t \<longleftrightarrow> (\<forall>c. faults c = [] \<longrightarrow> tabs c = t \<longrightarrow>
     (\<exists>x c'. m c = (Inr x, c') \<and> faults c' = [] \<and> Q x (tabs c')))"

lemma totalI: "(\<And>c. faults c = [] \<Longrightarrow> tabs c = t \<Longrightarrow> \<exists>x c'. m c = (Inr x, c') \<and> faults c' = [] \<and> Q x (tabs c')) \<Longrightarrow> total m Q t"
  unfolding total_def by blast

lemma total_return: "Q x t \<Longrightarrow> total (returnE x) Q t"
  by (auto simp: total_def returnE_def)

lemma total_now: "(\<And>ts. Q ts t) \<Longrightarrow> total now_ms Q t"
  by (simp add: total_def)

lemma total_bind: "total m (\<lambda>x. total (f x) Q) t \<Longrightarrow> total (bindE m f) Q t"
  unfolding total_def by (metis bindE_simps(1))

lemma total_stmt: "f t = Inr (x, t') \<Longrightarrow> Q x t' \<Longrightarrow> total (stmt f) Q t"
  by (simp add: total_def stmt_healthy)

lemma total_query: "Q (q t) t \<Longrightarrow> total (query q) Q t"
  by (simp add: total_def)

lemma total_if: "(P \<Longrightarrow> total m Q t) \<Longrightarrow> (\<not> P \<Longrightarrow> total m' Q t) \<Longrightarrow> total (if P then m else m') Q t"
  by simp

lemma total_name_taken: "total m Q t \<Longrightarrow> total (name_taken_on_constraint m) Q t"
  unfolding total_def name_taken_on_constraint_def
  by (metis (no_types, lifting) handleE_simps(1) returnE_def)

lemma total_transaction:
  assumes "total m (\<lambda>y t'. case y of Commit x \<Rightarrow> Q x t' | Drop x \<Rightarrow> Q x t) t"
  shows "total (transaction m) Q t"
proof (rule totalI)
  fix c :: conn assume c: "faults c = []" "tabs c = t"
  with assms obtain y c' where "m c = (Inr y, c')" "faults c' = []"
    "case y of Commit x \<Rightarrow> Q x (tabs c') | Drop x \<Rightarrow> Q x t" unfolding total_def by blast
  with c show "\<exists>x c'. transaction m c = (Inr x, c') \<and> faults c' = [] \<and> Q x (tabs c')"
    by (cases y) (simp_all add: transaction_healthy [OF c(1)])
qed

lemma total_mono: "total m Q t \<Longrightarrow> (\<And>x t'. Q x t' \<Longrightarrow> Q' x t') \<Longrightarrow> total m Q' t"
  unfolding total_def by blast

lemma total_append_system:
  "seq_records t < max_rowid \<Longrightarrow> (\<And>r ts. Q r (push_record (system_row ts ev ref) t)) \<Longrightarrow> total (append_system_in ev ref) Q t"
  unfolding append_system_in_def
  by (intro total_bind total_now total_stmt total_return) (auto simp: ins_record_run [symmetric] ins_record_def push_record_def Let_def)

text \<open>A loop: an invariant of the pass number that every pass advances.\<close>

lemma total_each:
  assumes "I 0 t" and "\<And>k t. k < length xs \<Longrightarrow> I k t \<Longrightarrow> total (f (xs ! k)) (\<lambda>_. I (Suc k)) t"
    and "\<And>t. I (length xs) t \<Longrightarrow> Q () t"
  shows "total (eachE f xs) Q t"
  using assms
proof (induction xs arbitrary: I t)
  case Nil
  then show ?case by (auto intro: total_return)
next
  case (Cons x xs)
  have "total (f x) (\<lambda>_. I (Suc 0)) t" using Cons.prems(2) [of 0 t] Cons.prems(1) by simp
  then have "total (f x) (\<lambda>_. total (eachE f xs) Q) t"
  proof (rule total_mono)
    fix u t' assume "I (Suc 0) t'"
    then show "total (eachE f xs) Q t'"
      by (rule Cons.IH [of "\<lambda>k. I (Suc k)"]) (use Cons.prems(2) [of "Suc _"] Cons.prems(3) in auto)
  qed
  then show ?case by (auto intro: total_bind)
qed

lemma total_eachE_simple:
  assumes "I t" and "\<And>x t. x \<in> set xs \<Longrightarrow> I t \<Longrightarrow> total (f x) (\<lambda>_. I) t" and "\<And>t. I t \<Longrightarrow> Q () t"
  shows "total (eachE f xs) Q t"
  by (rule total_each [of "\<lambda>_. I"]) (use assms in auto)

fun op_pre :: "store_op \<Rightarrow> tables \<Rightarrow> bool" where
  "op_pre (CreateChannel nm actor) t \<longleftrightarrow> nm \<notin> ch_name ` set (t_channels t) \<and> seq_channels t < max_rowid \<and> seq_records t < max_rowid"
| "op_pre (RenameChannel i old_name new_name actor) t \<longleftrightarrow>
     (\<forall>r \<in> set (t_channels t). ch_id r \<noteq> i \<longrightarrow> ch_name r \<noteq> new_name) \<and> seq_records t < max_rowid"
| "op_pre (ArchiveChannel i nm actor archive) t \<longleftrightarrow>
     seq_records t + int (length (archive_events i nm actor t)) \<le> max_rowid"
| "op_pre (DeleteChannel i nm actor) t \<longleftrightarrow> seq_records t < max_rowid"
| "op_pre (RegisterPrincipal nm admin) t \<longleftrightarrow>
     (nm \<in> pr_name ` set (t_principals t) \<or> seq_principals t < max_rowid) \<and> seq_records t < max_rowid"
| "op_pre (SelfSubscription p c sub pname channel) t \<longleftrightarrow> fk_pair p c t \<and> seq_records t < max_rowid"
| "op_pre (AdminSubscription p c sub pname channel) t \<longleftrightarrow> fk_pair p c t \<and> seq_records t < max_rowid"
| "op_pre (AppendMessage author rcpts contents trunc thread chs held absent) t \<longleftrightarrow>
     distinct chs \<and> set chs \<subseteq> ch_id ` set (t_channels t) \<and> distinct (held @ absent) \<and> seq_records t < max_rowid"
| "op_pre (AppendSystem ev ref) t \<longleftrightarrow> seq_records t < max_rowid"
| "op_pre (AckSet rid recipient st reason) t \<longleftrightarrow> True"

abbreviation goes :: "'a db \<Rightarrow> tables \<Rightarrow> bool" where
  "goes m \<equiv> total m (\<lambda>_ _. True)"

lemma goes_create: "op_pre (CreateChannel nm actor) t \<Longrightarrow> goes (create_channel_logged nm actor) t"
  unfolding create_channel_logged_def
  by (intro total_transaction total_bind total_name_taken total_stmt total_append_system total_return)
    (auto simp: ins_channel_def Let_def)

lemma goes_rename: "op_pre (RenameChannel i a b actor) t \<Longrightarrow> goes (rename_channel_logged i a b actor) t"
  unfolding rename_channel_logged_def
  by (intro total_transaction total_bind total_name_taken total_stmt total_append_system total_return)
    (auto simp: upd_channel_name_def Let_def)

lemma goes_register: "op_pre (RegisterPrincipal nm admin) t \<Longrightarrow> goes (register_principal nm admin) t"
  unfolding register_principal_def
  by (cases "nm \<in> pr_name ` set (t_principals t)";
      intro total_transaction total_bind total_stmt total_append_system total_return)
    (auto simp: ins_principal_def Let_def)

lemma total_mapE_system:
  "seq_records t + int (length ps) \<le> max_rowid \<Longrightarrow>
    (\<And>rs t'. seq_records t' = seq_records t + int (length ps) \<Longrightarrow> Q rs t') \<Longrightarrow>
    total (mapE (\<lambda>p. append_system_in (ev p) ref) ps) Q t"
proof (induction ps arbitrary: t Q)
  case Nil
  then show ?case by (auto intro: total_return)
next
  case (Cons p ps)
  then show ?case
    by (auto intro!: total_bind total_append_system Cons.IH total_return)
qed

lemma goes_archive: "op_pre (ArchiveChannel i nm actor archive) t \<Longrightarrow> goes (archive_channel i nm actor archive) t"
  unfolding archive_channel_def
  by (cases archive; simp only: if_True if_False)
    (auto simp: upd_channel_archived_def del_subscriptions_of_def del_overrides_of_def archive_events_def
      intro!: total_transaction total_bind total_stmt total_query total_mapE_system total_append_system total_return)

lemma image_except: "f ` {x \<in> A. f x \<noteq> v} = f ` A - {v}"
  by auto

lemma sole_iff: "i \<in> set (sole_records c t) \<longleftrightarrow> (i, c) \<in> set (t_record_channels t) \<and>
    (\<forall>c'. (i, c') \<in> set (t_record_channels t) \<longrightarrow> c' = c)"
  by (auto simp: sole_records_def image_iff)

lemma total_del_channel:
  assumes "c \<notin> snd ` set (t_subscriptions t)" and "c \<notin> (snd \<circ> fst) ` set (t_overrides t)"
    and "c \<notin> snd ` set (t_record_channels t)" and "Q () (t\<lparr>t_channels := filter (\<lambda>r. ch_id r \<noteq> c) (t_channels t)\<rparr>)"
  shows "total (stmt (del_channel c)) Q t"
  by (rule total_stmt [of _ _ "()" "t\<lparr>t_channels := filter (\<lambda>r. ch_id r \<noteq> c) (t_channels t)\<rparr>"])
    (use assms in \<open>simp_all add: del_channel_def\<close>)

text \<open>No foreign key stands in the way of a deletion: what refers to a record or to the
  channel is gone by the time its row is removed.\<close>

lemma goes_delete: "op_pre (DeleteChannel ch nm actor) t \<Longrightarrow> goes (delete_channel_logged ch nm actor) t"
proof -
  assume "op_pre (DeleteChannel ch nm actor) t"
  then have room: "seq_records t < max_rowid" by simp
  define sole where "sole = sole_records ch t"
  define I where "I k t' \<longleftrightarrow> seq_records t' = seq_records t \<and> t_record_channels t' = t_record_channels t \<and>
      (\<forall>j < k. sole ! j \<notin> a_record_id ` set (t_acks t') \<and> sole ! j \<notin> fst ` set (t_record_participants t'))"
    for k :: nat and t' :: tables
  define J where "J t' \<longleftrightarrow> seq_records t' = seq_records t \<and> ch \<notin> snd ` set (t_record_channels t') \<and>
      (\<forall>i \<in> set sole. i \<notin> a_record_id ` set (t_acks t') \<and> i \<notin> fst ` set (t_record_participants t') \<and>
         i \<notin> fst ` set (t_record_channels t'))" for t' :: tables
  have step1: "total (bindE (stmt (del_acks_of (sole ! k))) (\<lambda>_. stmt (del_participants_of (sole ! k)))) (\<lambda>_. I (Suc k)) t'"
    if "I k t'" for k t'
  proof (intro total_bind total_stmt [OF del_acks_of_def] total_stmt [OF del_participants_of_def])
    show "I (Suc k) (t'\<lparr>t_acks := filter (\<lambda>a. a_record_id a \<noteq> sole ! k) (t_acks t'),
        t_record_participants := filter (\<lambda>p. fst p \<noteq> sole ! k)
          (t_record_participants (t'\<lparr>t_acks := filter (\<lambda>a. a_record_id a \<noteq> sole ! k) (t_acks t')\<rparr>))\<rparr>)"
      using that by (simp add: I_def less_Suc_eq image_except)
  qed
  have loop1: "J ((t'\<lparr>t_record_channels := filter (\<lambda>p. snd p \<noteq> ch) (t_record_channels t')\<rparr>))" if "I (length sole) t'" for t'
  proof -
    have gone: "i \<notin> a_record_id ` set (t_acks t') \<and> i \<notin> fst ` set (t_record_participants t')" if "i \<in> set sole" for i
      using that \<open>I (length sole) t'\<close> by (metis I_def in_set_conv_nth)
    have links: "i \<notin> fst ` set (filter (\<lambda>p. snd p \<noteq> ch) (t_record_channels t'))" if "i \<in> set sole" for i
      using that \<open>I (length sole) t'\<close> by (auto simp: I_def sole_def sole_iff)
    from \<open>I (length sole) t'\<close> gone links show ?thesis by (simp add: J_def I_def image_except)
  qed
  have step2: "total (stmt (del_record i)) (\<lambda>_. J) t'" if "i \<in> set sole" "J t'" for i t'
    using that by (intro total_stmt [of _ _ "()" "t'\<lparr>t_records := filter (\<lambda>r. r_id r \<noteq> i) (t_records t')\<rparr>"])
      (simp_all add: J_def del_record_def)
  show ?thesis
    unfolding delete_channel_logged_def
    apply (intro total_transaction total_bind total_query)
    apply (fold sole_def)
    apply (rule total_each [of I])
      apply (simp add: I_def)
     apply (erule step1)
    apply (drule loop1)
    apply (intro total_bind total_stmt [OF del_record_channels_of_def])
    apply (erule total_eachE_simple [of J])
     apply (erule (1) step2)
    subgoal for t1 t2
      by (intro total_bind total_stmt [OF detach_channel_ref_def] total_stmt [OF del_subscriptions_of_def]
          total_stmt [OF del_overrides_of_def] total_del_channel total_append_system total_return)
        (use room in \<open>auto simp: J_def\<close>)
    done
qed

lemma total_override_in:
  assumes "\<And>m. Q m t" shows "total (override_in p c) Q t"
proof -
  have "total (query_row (\<lambda>o'. Some (snd o')) q) (\<lambda>x t'. t' = t) t" for q
    unfolding query_row_def by (cases "q t") (auto intro!: total_stmt)
  then have "total (query_row (\<lambda>o'. Some (snd o')) q) (\<lambda>x. total (returnE (Option.bind x parse_mode)) Q) t" for q
    by (rule total_mono) (auto intro: total_return assms)
  then show ?thesis unfolding override_in_def by (rule total_bind)
qed

lemma total_apply_membership:
  assumes "fk_pair p c t" and "\<And>b. Q b (with_membership p c sub t)" shows "total (apply_membership p c sub) Q t"
  unfolding apply_membership_def
proof (intro total_bind, cases sub)
  case True
  with assms show "total (if sub then stmt (ins_subscription p c) else stmt (del_subscription p c))
      (\<lambda>x. total (returnE (0 < x)) Q) t"
    by (cases "(p, c) \<in> set (t_subscriptions t)")
      (auto simp: ins_subscription_def with_membership_def intro!: total_stmt total_return)
next
  case False
  with assms show "total (if sub then stmt (ins_subscription p c) else stmt (del_subscription p c))
      (\<lambda>x. total (returnE (0 < x)) Q) t"
    by (auto simp: del_subscription_def with_membership_def intro!: total_stmt total_return)
qed

lemma goes_self: "op_pre (SelfSubscription p ch sub pname channel) t \<Longrightarrow> goes (self_subscription p ch sub pname channel) t"
  unfolding self_subscription_def
  by (intro total_transaction total_bind total_override_in total_if total_return total_apply_membership total_append_system)
    (auto split: tx_end.split)

lemma goes_admin: "op_pre (AdminSubscription p ch sub pname channel) t \<Longrightarrow> goes (admin_subscription p ch sub pname channel) t"
  unfolding admin_subscription_def Let_def
  by (intro total_transaction total_bind total_override_in total_stmt [of _ _ "()" "with_policy p ch (admin_mode sub) t"]
      total_if total_apply_membership total_return total_append_system)
    (auto simp: upsert_override_def with_policy_def admin_mode_def fk_pair_def split: tx_end.split)

lemma total_record_channels:
  assumes "set chs \<subseteq> ch_id ` set (t_channels t)" and "distinct chs"
    and "i \<in> r_id ` set (t_records t)" and "\<And>c. c \<in> set chs \<Longrightarrow> (i, c) \<notin> set (t_record_channels t)"
    and "Q () (t\<lparr>t_record_channels := t_record_channels t @ map (Pair i) chs\<rparr>)"
  shows "total (eachE (\<lambda>c. stmt (ins_record_channel i c)) chs) Q t"
  using assms
proof (induction chs arbitrary: t)
  case Nil
  then show ?case by (auto intro: total_return)
next
  case (Cons ch chs)
  show ?case
    by (simp, intro total_bind total_stmt [of _ _ "()" "t\<lparr>t_record_channels := t_record_channels t @ [(i, ch)]\<rparr>"] Cons.IH)
      (use Cons.prems in \<open>auto simp: ins_record_channel_def\<close>)
qed

lemma total_participants:
  assumes "i \<in> r_id ` set (t_records t)"
    and "\<And>t'. i \<in> r_id ` set (t_records t') \<Longrightarrow> t_acks t' = t_acks t \<Longrightarrow> Q () t'"
  shows "total (eachE (\<lambda>p. stmt (ins_participant i p)) ps) Q t"
proof (rule total_eachE_simple [of "\<lambda>t'. i \<in> r_id ` set (t_records t') \<and> t_acks t' = t_acks t"])
  fix p and t' :: tables assume "i \<in> r_id ` set (t_records t') \<and> t_acks t' = t_acks t"
  then show "total (stmt (ins_participant i p)) (\<lambda>_ t'. i \<in> r_id ` set (t_records t') \<and> t_acks t' = t_acks t) t'"
    by (cases "(i, p) \<in> set (t_record_participants t')")
      (rule total_stmt [of _ _ "()"], simp add: ins_participant_def, simp)+
qed (use assms in auto)

lemma total_acks:
  assumes "\<And>p. ack_key (mk p) = (i, p)" and "i \<in> r_id ` set (t_records t)" and "distinct ps"
    and "\<And>p. p \<in> set ps \<Longrightarrow> (i, p) \<notin> ack_key ` set (t_acks t)"
    and "Q () (t\<lparr>t_acks := t_acks t @ map mk ps\<rparr>)"
  shows "total (eachE (\<lambda>p. stmt (ins_ack (mk p))) ps) Q t"
  using assms(2-)
proof (induction ps arbitrary: t)
  case Nil
  then show ?case by (auto intro: total_return)
next
  case (Cons p ps)
  have rid: "a_record_id (mk p) = i" for p using assms(1) [of p] by (simp add: ack_key_def)
  show ?case
    by (simp, intro total_bind total_stmt [of _ _ "()" "t\<lparr>t_acks := t_acks t @ [mk p]\<rparr>"] Cons.IH)
      (use Cons.prems assms(1) rid in \<open>auto simp: ins_ack_def\<close>)
qed

lemma new_keys: "ack_key (held_row i ts p) = (i, p)" "ack_key (absent_row i ts p) = (i, p)"
  by (simp_all add: ack_key_def held_row_def absent_row_def)

lemma goes_message:
  assumes pre: "op_pre (AppendMessage author rcpts contents trunc thread chs held absent) t" and int: "integrity t"
  shows "goes (append_message_with_acks author rcpts contents trunc thread chs held absent) t"
proof -
  let ?i = "seq_records t + 1"
  from int have new: "(?i, c) \<notin> set (t_record_channels t)" "(?i, p) \<notin> ack_key ` set (t_acks t)" for c p
    unfolding integrity_def log_ok_def links_ok_def acks_ok_def ack_key_def by force+
  from pre have room: "seq_records t < max_rowid" and chs: "distinct chs" "set chs \<subseteq> ch_id ` set (t_channels t)"
    and audience: "distinct held" "distinct absent" "set held \<inter> set absent = {}" by auto
  have ins: "ins_record r t = Inr (?i, push_record r t)" for r
    using room by (simp add: ins_record_def push_record_def Let_def)
  have ack_steps: "total (eachE (\<lambda>p. stmt (ins_ack (held_row ?i ts p))) held)
      (\<lambda>_. total (eachE (\<lambda>p. stmt (ins_ack (absent_row ?i ts p))) absent) (\<lambda>_ _. True)) t'"
    if "?i \<in> r_id ` set (t_records t')" "t_acks t' = t_acks t" for ts t'
    by (intro total_acks [where i = ?i]) (use that new audience in \<open>auto simp: new_keys image_image\<close>)
  have index_steps: "total (if chs = [] then bindE (stmt (ins_participant ?i author)) (\<lambda>_.
                 eachE (\<lambda>p. stmt (ins_participant ?i p)) (to_principals rcpts)) else returnE ())
      (\<lambda>_. total (eachE (\<lambda>p. stmt (ins_ack (held_row ?i ts p))) held)
        (\<lambda>_. total (eachE (\<lambda>p. stmt (ins_ack (absent_row ?i ts p))) absent) (\<lambda>_ _. True))) t'"
    if t': "?i \<in> r_id ` set (t_records t')" "t_acks t' = t_acks t" for ts t'
  proof (cases "chs = []")
    case True
    have "total (eachE (\<lambda>p. stmt (ins_participant ?i p)) (author # to_principals rcpts))
      (\<lambda>_. total (eachE (\<lambda>p. stmt (ins_ack (held_row ?i ts p))) held)
        (\<lambda>_. total (eachE (\<lambda>p. stmt (ins_ack (absent_row ?i ts p))) absent) (\<lambda>_ _. True))) t'"
      by (rule total_participants [OF t'(1)]) (use t'(2) in \<open>auto intro: ack_steps\<close>)
    with True show ?thesis by simp
  next
    case False
    with t' show ?thesis by (auto intro: total_return ack_steps)
  qed
  have drop_result: "total m (\<lambda>y t'. case y of Commit x \<Rightarrow> True | Drop x \<Rightarrow> True) t'"
    if "total m (\<lambda>_ _. True) t'" for m :: "envelope tx_end db" and t'
    using that by (rule total_mono) (simp split: tx_end.split)
  show ?thesis
    unfolding append_message_with_acks_def Let_def
    apply (rule total_transaction)
    apply (rule drop_result)
    apply (rule total_bind, rule total_now)
    apply (rule total_bind, rule total_stmt, rule ins)
    apply (rule total_bind, rule total_stmt, rule upd_thread_id_def)
    apply (rule total_bind, rule total_record_channels)
        apply (use chs new in \<open>auto simp: push_record_def\<close>)[4]
    apply (rule total_bind, rule total_mono, rule index_steps)
      apply (auto simp: push_record_def)[2]
    apply (rule total_bind, erule total_mono)
    apply (rule total_bind, erule total_mono)
    apply (rule total_return)
    apply (rule TrueI)
    done
qed

lemma goes_ack: "goes (ack_set rid recipient st reason) t"
  unfolding ack_set_def query_row_def Let_def
  by (intro total_bind total_now, cases "filter (\<lambda>a. ack_key a = (sint rid, recipient)) (t_acks t)")
    (auto intro!: total_stmt total_return total_bind simp: upd_ack_def)

lemma run_op_total:
  assumes "op_pre op t" and "integrity t"
  shows "goes (run_op op) t"
proof -
  have ignore: "goes (ignore_result m) t" if "goes m t" for m :: "'b db"
    unfolding ignore_result_def by (rule total_bind, rule total_mono [OF that], rule total_return) simp
  from assms show ?thesis
    by (cases op) (auto simp only: run_op.simps append_system_def intro!: ignore goes_create goes_rename goes_archive
        goes_delete goes_register goes_self goes_admin goes_message goes_ack, auto intro!: ignore total_append_system)
qed

end
