(* ===== verification/Store_Laws.thy ===== *)
theory Store_Laws
  imports Store_Spec
begin

text \<open>
  The laws the broker relies on, for every reachable database: the override policy of
  ADR-0009, the append-only log with its audit records, the pages of history, the
  lifecycle of acknowledgments, and what deleting or archiving a channel leaves.
\<close>

section \<open>Override policy\<close>

definition policy_inv :: "tables \<Rightarrow> bool" where
  "policy_inv t \<longleftrightarrow> (\<forall>p c. (policy_of t p c = Some Forced \<longrightarrow> (p, c) \<in> set (t_subscriptions t)) \<and>
     (policy_of t p c = Some Cancelled \<longrightarrow> (p, c) \<notin> set (t_subscriptions t)))"

lemma policy_of_cong: "t_overrides t' = t_overrides t \<Longrightarrow> policy_of t' p c = policy_of t p c"
  by (simp add: policy_of_def)

lemma policy_inv_cong:
  "t_overrides t' = t_overrides t \<Longrightarrow> t_subscriptions t' = t_subscriptions t \<Longrightarrow> policy_inv t' = policy_inv t"
  by (simp add: policy_inv_def policy_of_def)

lemma map_of_filter_channel:
  "map_of (filter (\<lambda>s. snd (fst s) \<noteq> i) kv) (p, c) = (if c = i then None else map_of kv (p, c))"
  by (induction kv) auto

lemma policy_inv_evict:
  assumes "policy_inv t" and "t_overrides t' = filter (\<lambda>s. snd (fst s) \<noteq> i) (t_overrides t)"
    and "t_subscriptions t' = filter (\<lambda>s. snd s \<noteq> i) (t_subscriptions t)"
  shows "policy_inv t'"
  using assms by (auto simp: policy_inv_def policy_of_def map_of_filter_channel)

lemma policy_membership [simp]: "policy_of (with_membership p c sub t) p' c' = policy_of t p' c'"
  by (simp add: policy_of_def)

lemma subs_membership: "set (t_subscriptions (with_membership p c sub t)) =
    (if sub then insert (p, c) (set (t_subscriptions t)) else set (t_subscriptions t) - {(p, c)})"
  by (auto simp: with_membership_def)

lemma map_of_upd: "map_of (map (\<lambda>ov. if fst ov = k then (k, v) else ov) kv) k' =
    (if k' = k \<and> k \<in> fst ` set kv then Some v else map_of kv k')"
proof (induction kv)
  case Nil
  then show ?case by simp
next
  case (Cons x kv)
  show ?case
  proof (cases "k' = k")
    case True
    with Cons show ?thesis by (cases x) (auto simp: map_of_eq_None_iff)
  next
    case False
    with Cons show ?thesis by (cases x) simp
  qed
qed

lemma parse_as_mode [simp]: "parse_mode (as_mode_str m) = Some m"
  by (cases m) (simp_all add: parse_mode_def)

lemma policy_with_policy: "policy_of (with_policy p c m t) p' c' =
    (if p' = p \<and> c' = c then Some m else policy_of t p' c')"
proof (cases "(p, c) \<in> fst ` set (t_overrides t)")
  case True
  then show ?thesis by (auto simp: with_policy_def policy_of_def map_of_upd)
next
  case False
  then have "map_of (t_overrides t) (p, c) = None" by (simp add: map_of_eq_None_iff)
  with False show ?thesis by (simp add: with_policy_def policy_of_def map_add_def split: option.split)
qed

lemma policy_inv_membership:
  assumes "policy_inv t" and "policy_of t p c \<noteq> Some (blocking_mode sub)"
  shows "policy_inv (with_membership p c sub t)"
  using assms by (cases sub) (auto simp: policy_inv_def subs_membership)

lemma policy_inv_admin:
  assumes "policy_inv t"
  shows "policy_inv (with_membership p c sub (with_policy p c (admin_mode sub) t))"
  using assms by (cases sub) (auto simp: policy_inv_def subs_membership policy_with_policy admin_mode_def)

lemma policy_inv_push [simp]: "policy_inv (push_record r t) = policy_inv t" "policy_inv (push_all rs t) = policy_inv t"
  by (rule policy_inv_cong; simp)+

lemma policy_inv_spec:
  assumes "policy_inv t" shows "policy_inv (op_spec op ts t)"
proof (cases op)
  case (ArchiveChannel i nm actor archive)
  with assms policy_inv_cong [of "spec_archived i False t" t] show ?thesis
    by (auto intro!: policy_inv_evict [of t _ i] simp: spec_evict_def spec_archived_def)
next
  case (DeleteChannel i nm actor)
  with assms show ?thesis by (auto intro!: policy_inv_evict [of t _ i] simp: purge_def Let_def)
next
  case (SelfSubscription p c sub pname channel)
  with assms show ?thesis by (auto intro: policy_inv_membership)
next
  case (AdminSubscription p c sub pname channel)
  with assms show ?thesis by (auto simp: Let_def intro: policy_inv_admin)
qed (use assms in \<open>auto simp: Let_def spec_rename_def spec_ack_def add_message_def intro: policy_inv_cong [THEN iffD2, rotated 2]\<close>)

lemma step_tables:
  assumes "store_step c l c'" and "integrity (tabs c)"
  shows "tabs c' = tabs c \<or> (\<exists>op. l = Some op \<and> tabs c' = op_spec op (clock c) (tabs c))"
  using assms(1)
proof cases
  case (step_op op r)
  with assms(2) show ?thesis by (cases r) (auto dest: run_op_error run_op_success)
qed simp

definition store_good :: "tables \<Rightarrow> bool" where
  "store_good t \<longleftrightarrow> integrity t \<and> policy_inv t"

interpretation store_safe: safety store_init store_step "\<lambda>c. store_good (tabs c)"
proof unfold_locales
  fix c assume init: "store_init c"
  then have "t_overrides (tabs c) = []"
    by (simp add: store_init_def new_tables_def versioned_def empty_tables_def)
  then show "store_good (tabs c)"
    using store_int.inv_init [OF init] by (simp add: store_good_def policy_inv_def policy_of_def)
next
  fix c l c' assume good: "store_good (tabs c)" and step: "store_step c l c'"
  from good have int: "integrity (tabs c)" and pol: "policy_inv (tabs c)" by (simp_all add: store_good_def)
  from step_tables [OF step int] pol have "policy_inv (tabs c')" by (auto intro: policy_inv_spec)
  with store_int.inv_step [OF int step] show "store_good (tabs c')" by (simp add: store_good_def)
qed

section \<open>The log\<close>

lemma records_push_all: "t_records (push_all rs t) = t_records t @
    map (\<lambda>k. (rs ! k)\<lparr>r_id := seq_records t + 1 + int k\<rparr>) [0..<length rs]"
proof (induction rs arbitrary: t)
  case Nil
  then show ?case by simp
next
  case (Cons r rs)
  have "map (\<lambda>k. ((r # rs) ! k)\<lparr>r_id := seq_records t + 1 + int k\<rparr>) [0..<length (r # rs)] =
      r\<lparr>r_id := seq_records t + 1\<rparr> # map (\<lambda>k. (rs ! k)\<lparr>r_id := seq_records t + 1 + 1 + int k\<rparr>) [0..<length rs]"
    by (simp add: upt_conv_Cons map_Suc_upt [symmetric] comp_def algebra_simps del: upt_Suc)
  with Cons.IH [of "push_record r t"] show ?case by simp
qed

text \<open>The rows an operation appends.\<close>

definition log_grows :: "tables \<Rightarrow> tables \<Rightarrow> bool" where
  "log_grows t t' \<longleftrightarrow> (\<exists>new. t_records t' = t_records t @ new \<and> seq_records t' = seq_records t + int (length new) \<and>
     map r_id new = map (\<lambda>k. seq_records t + 1 + int k) [0..<length new])"

lemma log_grows_refl: "t_records t' = t_records t \<Longrightarrow> seq_records t' = seq_records t \<Longrightarrow> log_grows t t'"
  by (simp add: log_grows_def)

lemma log_grows_push: "t_records t1 = t_records t \<Longrightarrow> seq_records t1 = seq_records t \<Longrightarrow> log_grows t (push_record r t1)"
  by (simp add: log_grows_def)

lemma log_grows_push_all: "t_records t1 = t_records t \<Longrightarrow> seq_records t1 = seq_records t \<Longrightarrow> log_grows t (push_all rs t1)"
  by (auto simp: log_grows_def records_push_all comp_def)

lemma log_grows_message: "log_grows t (add_message ts author rcpts contents trunc thread chs held absent t)"
  by (simp add: log_grows_def add_message_def Let_def stored_message_def)

lemma log_grows_spec:
  assumes "\<not> is_delete op" shows "log_grows t (op_spec op ts t)"
proof (cases op)
  case (ArchiveChannel i nm actor archive)
  then show ?thesis
    by (auto simp: spec_archived_def spec_evict_def intro!: log_grows_push log_grows_push_all)
next
  case (AppendMessage author rcpts contents trunc thread chs held absent)
  then show ?thesis by (simp add: log_grows_message)
qed (use assms in \<open>auto simp: Let_def spec_rename_def spec_ack_def intro: log_grows_push log_grows_refl\<close>)

text \<open>What deletion does to the log: the channel's own records go, the others keep their
  content, and a tombstone is added.\<close>

definition detached :: "int \<Rightarrow> record_row \<Rightarrow> record_row" where
  "detached c r = (if r_channel_ref r = Some c then r\<lparr>r_channel_ref := None\<rparr> else r)"

lemma detached_sel [simp]: "r_id (detached c r) = r_id r" "row_to_record (detached c r) = row_to_record r"
  by (simp_all add: detached_def row_to_record_def cong: option.case_cong)

lemma records_purge: "t_records (purge c t) =
    map (detached c) (filter (\<lambda>r. r_id r \<notin> set (sole_records c t)) (t_records t))"
  by (simp add: purge_def Let_def detached_def)

section \<open>History\<close>

definition before_ok :: "u64 option \<Rightarrow> record_row \<Rightarrow> bool" where
  "before_ok before r \<longleftrightarrow> r_id r < before_bound before"

text \<open>The records of a scope as the log holds them, oldest first.\<close>

definition scope_rows :: "(record_row \<Rightarrow> bool) \<Rightarrow> tables \<Rightarrow> record_row list" where
  "scope_rows P t = filter P (t_records t)"

definition last_n :: "nat \<Rightarrow> 'a list \<Rightarrow> 'a list" where
  "last_n n xs = drop (length xs - n) xs"

lemma last_n_split: "xs = take (length xs - n) xs @ last_n n xs"
  by (simp add: last_n_def)

lemma take_rev_last_n: "take n (rev xs) = rev (last_n n xs)"
  by (simp add: last_n_def take_rev)

lemma sorted_ids:
  assumes "integrity t"
  shows "sort_key r_id (filter P (t_records t)) = filter P (t_records t)"
proof (rule sort_key_id_if_sorted)
  from assms have "sorted_wrt (<) (map r_id (t_records t))" by (simp add: integrity_def log_ok_def)
  then have "sorted_wrt (<) (map r_id (filter P (t_records t)))" by (simp add: sorted_wrt_map sorted_wrt_filter)
  then show "sorted (map r_id (filter P (t_records t)))" by (rule strict_sorted_imp_sorted)
qed

lemma history_rows:
  assumes int: "integrity (tabs c)"
    and run: "bindE (query_map row_to_record (\<lambda>t. page limit (filter (P t) (t_records t)))) (\<lambda>rows. returnE (rev rows)) c
      = (Inr rows, c')"
  shows "tabs c' = tabs c \<and> map Some rows = map row_to_record (last_n (unat limit) (filter (P (tabs c)) (t_records (tabs c))))"
proof -
  from run obtain rs where q: "query_map row_to_record (\<lambda>t. page limit (filter (P t) (t_records t))) c = (Inr rs, c')"
    and rows: "rows = rev rs" by (auto simp: bindE_ok returnE_ok)
  from query_map_okD [OF q] have "map row_to_record (page limit (filter (P (tabs c)) (t_records (tabs c)))) = map Some rs"
    and "tabs c' = tabs c" by (simp_all add: convert_rows_eq)
  then show ?thesis
    by (simp add: rows page_def sorted_ids [OF int] take_rev_last_n rev_map [symmetric]) (metis rev_map rev_rev_ident)
qed

lemma history_channel_rows:
  assumes "integrity (tabs c)" and "history_channel ch before limit c = (Inr rows, c')"
  shows "tabs c' = tabs c \<and> map Some rows = map row_to_record (last_n (unat limit)
    (scope_rows (\<lambda>r. before_ok before r \<and> in_channel (tabs c) ch r) (tabs c)))"
  using history_rows [OF assms(1) assms(2) [unfolded history_channel_def]] by (simp add: scope_rows_def before_ok_def)

lemma history_dm_rows:
  assumes "integrity (tabs c)" and "history_dm a b before limit c = (Inr rows, c')"
  shows "tabs c' = tabs c \<and> map Some rows = map row_to_record (last_n (unat limit)
    (scope_rows (\<lambda>r. before_ok before r \<and> in_dm (tabs c) a b r) (tabs c)))"
  using history_rows [OF assms(1) assms(2) [unfolded history_dm_def]] by (simp add: scope_rows_def before_ok_def)

lemma convert_rows_total: "(\<And>r. r \<in> set rs \<Longrightarrow> row_to_record r \<noteq> None) \<Longrightarrow> \<exists>xs. convert_rows row_to_record rs = Some xs"
  by (induction rs) (auto split: option.split)

lemma history_total:
  assumes int: "integrity t"
  shows "goes (bindE (query_map row_to_record (\<lambda>t. page limit (filter (P t) (t_records t)))) (\<lambda>rows. returnE (rev rows))) t"
proof -
  have "\<exists>xs. convert_rows row_to_record (page limit (filter (P t) (t_records t))) = Some xs"
  proof (rule convert_rows_total)
    fix r assume "r \<in> set (page limit (filter (P t) (t_records t)))"
    then have "r \<in> set (t_records t)" by (auto simp: page_def dest: in_set_takeD)
    with int show "row_to_record r \<noteq> None" by (simp add: integrity_def log_ok_def row_ok_def)
  qed
  then obtain xs where "convert_rows row_to_record (page limit (filter (P t) (t_records t))) = Some xs" by blast
  then show ?thesis
    unfolding query_map_def by (intro total_bind total_stmt [of _ _ xs t] total_return) simp_all
qed

text \<open>The wire id of a stored record reads back as its rowid.\<close>

lemma sint_rowid: "0 \<le> i \<Longrightarrow> i \<le> max_rowid \<Longrightarrow> sint (word_of_int i :: u64) = i"
  by (simp add: max_rowid_def sint_sbintrunc' signed_take_bit_int_eq_self)

lemma record_id_row: "row_to_record r = Some rec \<Longrightarrow> record_id rec = word_of_int (r_id r)"
  by (auto simp: row_to_record_def split: if_splits option.splits)

lemma stored_id:
  "integrity t \<Longrightarrow> r \<in> set (t_records t) \<Longrightarrow> row_to_record r = Some rec \<Longrightarrow> sint (record_id rec) = r_id r"
  by (auto simp: integrity_def log_ok_def record_id_row intro!: sint_rowid)

lemma last_n_join: "last_n n (take (length xs - n) xs) @ last_n n xs = last_n (2 * n) xs"
proof -
  have "last_n n (take (length xs - n) xs) = take (length xs - n - (length xs - 2 * n)) (drop (length xs - 2 * n) xs)"
    by (cases "n \<le> length xs") (simp_all add: last_n_def drop_take mult_2)
  moreover have "length xs - n - (length xs - 2 * n) + (length xs - 2 * n) = length xs - n" by arith
  then have "last_n n xs = drop (length xs - n - (length xs - 2 * n)) (drop (length xs - 2 * n) xs)"
    by (simp only: last_n_def drop_drop)
  ultimately have "last_n n (take (length xs - n) xs) @ last_n n xs = drop (length xs - 2 * n) xs"
    by (simp only: append_take_drop_id)
  then show ?thesis by (simp add: last_n_def [of "2 * n"])
qed

lemma first_is_least: "sorted_wrt (<) (map r_id xs) \<Longrightarrow> filter (\<lambda>r. r_id r < r_id (hd xs)) xs = []"
  by (cases xs) (auto simp: filter_empty_conv)

text \<open>Paging: the records before the first of a page are exactly those not yet shown.\<close>

lemma filter_before_page:
  assumes "sorted_wrt (<) (map r_id xs)" and "n < length xs" and "n \<noteq> 0"
  shows "filter (\<lambda>r. r_id r < r_id (hd (last_n n xs))) xs = take (length xs - n) xs"
proof -
  define older page where "older = take (length xs - n) xs" and "page = last_n n xs"
  have xs: "xs = older @ page" and "page \<noteq> []"
    using last_n_split [of xs n] assms(2,3) by (auto simp: older_def page_def last_n_def)
  then obtain r rs where page: "page = r # rs" by (cases page) auto
  from assms(1) have "\<forall>x \<in> set older. r_id x < r_id r" and "\<forall>x \<in> set rs. r_id r < r_id x"
    unfolding xs page by (auto simp: sorted_wrt_append)
  then have "filter (\<lambda>x. r_id x < r_id r) (older @ page) = older"
    by (simp add: page filter_id_conv) (auto simp: filter_empty_conv)
  then show ?thesis by (simp add: xs [symmetric] older_def [symmetric] page_def [symmetric]) (simp add: page)
qed

section \<open>Messages keep their content\<close>

definition message_at :: "tables \<Rightarrow> u64 \<Rightarrow> record_row list" where
  "message_at t i = filter (\<lambda>r. r_id r = sint i \<and> r_kind r = ''message'') (t_records t)"

lemma envelope_of_healthy:
  assumes "faults c = []"
  shows "envelope_of i c = (case message_at (tabs c) i of [] \<Rightarrow> (Inr None, c)
    | r # _ \<Rightarrow> (case row_to_envelope r of None \<Rightarrow> (Inl (Sql ConversionFailure), c) | Some e \<Rightarrow> (Inr (Some e), c)))"
  by (simp add: envelope_of_def query_row_healthy [OF assms] message_at_def)

definition holds_message :: "tables \<Rightarrow> envelope \<Rightarrow> bool" where
  "holds_message t e \<longleftrightarrow> (\<exists>r. message_at t (message_id e) = [r] \<and> row_to_envelope r = Some e)"

lemma holds_message_read: "holds_message (tabs c) e \<Longrightarrow> faults c = [] \<Longrightarrow> envelope_of (message_id e) c = (Inr (Some e), c)"
  by (auto simp: holds_message_def envelope_of_healthy)

lemma row_to_envelope_stored:
  "row_to_envelope (stored_message i ts thread author contents trunc rcpts) = Some
     \<lparr>message_id = word_of_int i, thread_id = thread_or thread i, timestamp = ts, sender = author,
      recipients_of = rcpts, body = contents, truncated = trunc\<rparr>"
  by (simp add: row_to_envelope_def stored_message_def message_row_def json_column_def recipients_codec.dec_enc)

lemma holds_message_append:
  assumes int: "integrity (tabs c)"
    and run: "append_message_with_acks author rcpts contents trunc thread chs held absent c = (Inr env, c')"
    and room: "seq_records (tabs c) < max_rowid"
  shows "holds_message (tabs c') env"
proof -
  define i where "i = seq_records (tabs c) + 1"
  from append_message_run [OF run integrity_fresh [OF int]]
  have t': "t_records (tabs c') = t_records (tabs c) @ [stored_message i (clock c) thread author contents trunc rcpts]"
    and env: "env = \<lparr>message_id = word_of_int i, thread_id = thread_or thread i, timestamp = clock c, sender = author,
      recipients_of = rcpts, body = contents, truncated = trunc\<rparr>"
    by (simp_all only: i_def [symmetric]) (simp add: add_message_def Let_def i_def)
  from int room have "0 \<le> i" "i \<le> max_rowid" "\<And>r. r \<in> set (t_records (tabs c)) \<Longrightarrow> r_id r \<noteq> i"
    by (force simp: integrity_def log_ok_def i_def)+
  then have "message_at (tabs c') (message_id env) = [stored_message i (clock c) thread author contents trunc rcpts]"
    by (simp add: message_at_def t' env sint_rowid stored_message_def message_row_def filter_empty_conv)
  then show ?thesis by (simp add: holds_message_def row_to_envelope_stored env)
qed

lemma message_id_stored:
  assumes "holds_message t e" and "integrity t" shows "sint (message_id e) \<le> seq_records t"
proof -
  from assms(1) obtain r where "message_at t (message_id e) = [r]" by (auto simp: holds_message_def)
  then have "r \<in> set (message_at t (message_id e))" by simp
  then have "r \<in> set (t_records t)" "r_id r = sint (message_id e)" by (simp_all add: message_at_def)
  with assms(2) show ?thesis by (auto simp: integrity_def log_ok_def)
qed

lemma holds_message_grows:
  assumes "holds_message t e" and "integrity t" and "log_grows t t'"
  shows "holds_message t' e"
proof -
  from assms(3) obtain new where new: "t_records t' = t_records t @ new"
    "map r_id new = map (\<lambda>k. seq_records t + 1 + int k) [0..<length new]" by (auto simp: log_grows_def)
  have "r_id r > seq_records t" if "r \<in> set new" for r
  proof -
    from that have "r_id r \<in> set (map r_id new)" by simp
    then show ?thesis unfolding new(2) by auto
  qed
  with message_id_stored [OF assms(1,2)] have "filter (\<lambda>r. r_id r = sint (message_id e) \<and> r_kind r = ''message'') new = []"
    by (force simp: filter_empty_conv)
  then have "message_at t' (message_id e) = message_at t (message_id e)" by (simp add: message_at_def new(1))
  with assms(1) show ?thesis by (simp add: holds_message_def)
qed

definition no_delete :: "conn \<Rightarrow> store_op option \<Rightarrow> conn \<Rightarrow> bool" where
  "no_delete c l c' \<longleftrightarrow> store_step c l c' \<and> (\<forall>op. l = Some op \<longrightarrow> \<not> is_delete op)"

interpretation keeps_message: safety "\<lambda>c. holds_message (tabs c) e \<and> integrity (tabs c)" no_delete
  "\<lambda>c. holds_message (tabs c) e \<and> integrity (tabs c)" for e
proof unfold_locales
  fix c l c' assume inv: "holds_message (tabs c) e \<and> integrity (tabs c)" and step: "no_delete c l c'"
  then have "integrity (tabs c')" by (auto simp: no_delete_def dest: store_int.inv_step)
  moreover from step inv step_tables [of c l c'] have "log_grows (tabs c) (tabs c')"
    by (auto simp: no_delete_def intro: log_grows_spec log_grows_refl)
  with inv have "holds_message (tabs c') e" by (blast intro: holds_message_grows)
  ultimately show "holds_message (tabs c') e \<and> integrity (tabs c')" by simp
qed

section \<open>Audit\<close>

definition audited_state :: "tables \<Rightarrow> _" where
  "audited_state t = (t_channels t, t_principals t, t_subscriptions t, t_overrides t)"

definition logged :: "tables \<Rightarrow> tables \<Rightarrow> bool" where
  "logged t t' \<longleftrightarrow> seq_records t < seq_records t' \<and> t_records t' \<noteq> [] \<and> r_kind (last (t_records t')) = ''system'' \<and>
     r_id (last (t_records t')) = seq_records t'"

lemma logged_push: "seq_records t1 = seq_records t \<Longrightarrow> logged t (push_record (system_row ts ev ref) t1)"
  by (simp add: logged_def system_row_def)

lemma logged_push_all: "evs \<noteq> [] \<Longrightarrow> seq_records t1 = seq_records t \<Longrightarrow> logged t (push_all (map (\<lambda>ev. system_row ts ev ref) evs) t1)"
  by (cases evs rule: rev_cases) (simp_all add: logged_def system_row_def)

lemma with_policy_idle:
  assumes "integrity t" and "policy_of t p c = Some m" shows "with_policy p c m t = t"
proof -
  from assms(2) obtain s where s: "map_of (t_overrides t) (p, c) = Some s" "parse_mode s = Some m"
    by (auto simp: policy_of_def bind_eq_Some_conv)
  then have mode: "s = as_mode_str m" by (auto simp: parse_mode_def split: if_splits)
  from s(1) have mem: "((p, c), s) \<in> set (t_overrides t)" by (rule map_of_SomeD)
  from assms(1) have "distinct (map fst (t_overrides t))" by (simp add: integrity_def overrides_ok_def)
  then have "x = ((p, c), s)" if "x \<in> set (t_overrides t)" "fst x = (p, c)" for x
    using that mem by (metis distinct_map_inj_unique fst_conv)
  then have "map (\<lambda>ov. if fst ov = (p, c) then ((p, c), as_mode_str m) else ov) (t_overrides t) = t_overrides t"
    by (intro map_idI) (auto simp: mode)
  with mem show ?thesis by (force simp: with_policy_def)
qed

lemma audited_spec:
  assumes int: "integrity t"
  shows "audited_state (op_spec op ts t) = audited_state t \<or> logged t (op_spec op ts t)"
proof (cases op)
  case (ArchiveChannel i nm actor archive)
  then show ?thesis
    by (auto simp: spec_archived_def spec_evict_def archive_events_def simp del: map_append push_all_append
        intro!: disjI2 logged_push logged_push_all)
next
  case (AdminSubscription p c sub pname channel)
  show ?thesis
  proof (cases "admin_changes p c sub t")
    case True
    with AdminSubscription show ?thesis by (auto simp: Let_def intro!: disjI2 logged_push)
  next
    case False
    then have "with_membership p c sub (with_policy p c (admin_mode sub) t) = t"
      using with_policy_idle [OF int, of p c "admin_mode sub"] by (simp add: admin_changes_def with_membership_idle)
    with False AdminSubscription show ?thesis by (simp add: Let_def)
  qed
next
  case (DeleteChannel i nm actor)
  then show ?thesis by (simp add: logged_push purge_def Let_def)
qed (auto simp: Let_def spec_rename_def spec_ack_def add_message_def audited_state_def logged_push)

section \<open>Acknowledgments\<close>

text \<open>A lifecycle whose states are ranked and advance only upwards; the top rank is
  final. The interface is what the update has to guarantee.\<close>

locale ranked_lifecycle =
  fixes rank :: "'a \<Rightarrow> nat" and top :: nat and step :: "'a \<Rightarrow> 'a \<Rightarrow> bool"
  assumes rank_bound: "rank a \<le> top"
    and step_up: "step a b \<Longrightarrow> b = a \<or> rank a < rank b"
begin

lemma path_up: "step\<^sup>*\<^sup>* a b \<Longrightarrow> b = a \<or> rank a < rank b"
  by (induction rule: rtranclp_induct) (auto dest: step_up)

lemma path_monotone: "step\<^sup>*\<^sup>* a b \<Longrightarrow> rank a \<le> rank b"
  using path_up by fastforce

lemma top_final: "step\<^sup>*\<^sup>* a b \<Longrightarrow> rank a = top \<Longrightarrow> b = a"
  using path_up rank_bound by (metis not_le)

end

text \<open>What the lifecycle ranks: the state and the reason of an acknowledgment.\<close>

definition ack_view :: "ack_row \<Rightarrow> ack_state \<times> string option" where
  "ack_view a = (parse_ack_state (a_state a), a_reason a)"

lemma parse_ack_column [simp]: "parse_ack_state (snd (ack_column st)) = st"
  by (cases st) (simp_all add: parse_ack_state_def)

lemma ack_advance_view: "ack_view (ack_advance st reason ts a) =
    (if ack_rank st > ack_rank (fst (ack_view a)) then (st, reason) else ack_view a)"
  by (simp add: ack_advance_def ack_view_def)

definition ack_moves :: "ack_state \<times> string option \<Rightarrow> ack_state \<times> string option \<Rightarrow> bool" where
  "ack_moves v v' \<longleftrightarrow> v' = v \<or> ack_rank (fst v) < ack_rank (fst v')"

interpretation ack_life: ranked_lifecycle "\<lambda>v. ack_rank (fst v)" 2 ack_moves
proof unfold_locales
  show "ack_rank (fst v) \<le> 2" for v :: "ack_state \<times> string option" by (cases "fst v") simp_all
  show "ack_moves v w \<Longrightarrow> w = v \<or> ack_rank (fst v) < ack_rank (fst w)" for v w by (simp add: ack_moves_def)
qed

lemma ack_key_advance [simp]: "ack_key (ack_advance st reason ts a) = ack_key a"
  by (simp add: ack_advance_def ack_key_def)

lemma find_append: "List.find P (xs @ ys) = (case List.find P xs of None \<Rightarrow> List.find P ys | Some x \<Rightarrow> Some x)"
  by (induction xs) auto

lemma find_map_key: "(\<And>a. k (f a) = k a) \<Longrightarrow> List.find (\<lambda>a. k a = v) (map f xs) = map_option f (List.find (\<lambda>a. k a = v) xs)"
  by (induction xs) auto

lemma ack_of_spec_ack: "ack_of (spec_ack rid p st reason ts t) i q =
    (if i = sint rid \<and> q = p then map_option (ack_advance st reason ts) (ack_of t i q) else ack_of t i q)"
proof -
  have "ack_of (spec_ack rid p st reason ts t) i q =
      map_option (\<lambda>a. if ack_key a = (sint rid, p) then ack_advance st reason ts a else a) (ack_of t i q)"
    unfolding ack_of_def spec_ack_def by (simp add: find_map_key)
  moreover have "ack_key a = (i, q)" if "ack_of t i q = Some a" for a
    using that by (auto simp: ack_of_def dest: find_Some_in)
  ultimately show ?thesis by (cases "ack_of t i q") auto
qed

lemma ack_of_same: "t_acks t' = t_acks t \<Longrightarrow> ack_of t' i p = ack_of t i p"
  by (simp add: ack_of_def)

lemma ack_of_spec:
  assumes "\<not> is_delete op" and "ack_of t i p = Some a"
  shows "\<exists>b. ack_of (op_spec op ts t) i p = Some b \<and> ack_moves (ack_view a) (ack_view b)"
proof (cases op)
  case (AckSet rid q st reason)
  with assms(2) show ?thesis by (auto simp: ack_of_spec_ack ack_moves_def ack_advance_view)
next
  case (AppendMessage author rcpts contents trunc thread chs held absent)
  with assms(2) show ?thesis by (simp add: ack_of_def add_message_def Let_def find_append ack_moves_def)
next
  case (ArchiveChannel j nm actor archive)
  with assms(2) show ?thesis
    by (auto simp: spec_archived_def spec_evict_def ack_of_def ack_moves_def)
qed (use assms in \<open>auto simp: Let_def spec_rename_def ack_of_def ack_moves_def\<close>)

lemma ack_of_purge: "ack_of (purge c t) i p = (if i \<in> set (sole_records c t) then None else ack_of t i p)"
proof -
  have "List.find (\<lambda>a. ack_key a = (i, p)) (filter (\<lambda>a. a_record_id a \<notin> S) as) =
      (if i \<in> S then None else List.find (\<lambda>a. ack_key a = (i, p)) as)" for S and as :: "ack_row list"
    by (induction as) (auto simp: ack_key_def)
  then show ?thesis by (simp add: ack_of_def purge_def Let_def)
qed

lemma ack_of_step:
  assumes "store_step c l c'" and "integrity (tabs c)" and "ack_of (tabs c) i p = Some a" and "ack_of (tabs c') i p = Some b"
  shows "ack_moves (ack_view a) (ack_view b)"
proof (cases "tabs c' = tabs c")
  case True
  with assms(3,4) show ?thesis by (simp add: ack_moves_def)
next
  case False
  with step_tables [OF assms(1,2)] obtain op where op: "tabs c' = op_spec op (clock c) (tabs c)" by auto
  show ?thesis
  proof (cases "is_delete op")
    case True
    then obtain j nm actor where "op = DeleteChannel j nm actor" by (cases op) auto
    with op assms(3,4) show ?thesis
      by (simp add: ack_moves_def ack_of_same [of "push_record _ _" "purge j (tabs c)"] ack_of_purge split: if_splits)
  next
    case False
    from ack_of_spec [OF this assms(3), of "clock c"] op assms(4) show ?thesis by auto
  qed
qed

lemma seq_records_spec: "seq_records t \<le> seq_records (op_spec op ts t)"
proof (cases "is_delete op")
  case True
  then obtain j nm actor where "op = DeleteChannel j nm actor" by (cases op) auto
  then show ?thesis by (simp add: purge_def Let_def)
next
  case False
  then show ?thesis using log_grows_spec [OF False, of t ts] by (auto simp: log_grows_def)
qed

lemma ack_gone_spec:
  assumes "ack_of t i p = None" and "i \<le> seq_records t"
  shows "ack_of (op_spec op ts t) i p = None \<and> i \<le> seq_records (op_spec op ts t)"
proof (cases "is_delete op")
  case True
  then obtain j nm actor where "op = DeleteChannel j nm actor" by (cases op) auto
  with assms show ?thesis by (simp add: ack_of_same [of "push_record _ _"] ack_of_purge) (simp add: purge_def Let_def)
next
  case False
  have "i \<le> seq_records (op_spec op ts t)" using seq_records_spec [of t op ts] assms(2) by simp
  moreover have "ack_of (op_spec op ts t) i p = None"
  proof (cases op)
    case (AckSet rid q st reason)
    with assms(1) show ?thesis by (auto simp: ack_of_spec_ack)
  next
    case (AppendMessage author rcpts contents trunc thread chs held absent)
    have "List.find (\<lambda>a. ack_key a = (i, p)) (map (held_row (seq_records t + 1) ts) held @ map (absent_row (seq_records t + 1) ts) absent) = None"
      using assms(2) by (auto simp: find_None_all ack_key_def held_row_def absent_row_def)
    with assms(1) AppendMessage show ?thesis by (simp add: ack_of_def add_message_def Let_def find_append)
  next
    case (ArchiveChannel j nm actor archive)
    with assms(1) show ?thesis
      by (cases archive) (simp_all add: ack_of_same [of "push_record _ _"] ack_of_same [of "push_all _ _"] ack_of_def spec_evict_def spec_archived_def)
  qed (use assms(1) False in \<open>auto simp: ack_of_def Let_def spec_rename_def with_membership_def with_policy_def\<close>)
  ultimately show ?thesis by simp
qed

lemma ack_of_room:
  assumes "integrity t" and "ack_of t i p = Some a" shows "i \<le> seq_records t"
proof -
  from assms(2) have "a \<in> set (t_acks t)" and "a_record_id a = i"
    by (auto simp: ack_of_def ack_key_def dest: find_Some_in)
  with assms(1) have "i \<in> r_id ` set (t_records t)" by (auto simp: integrity_def acks_ok_def)
  with assms(1) show ?thesis by (auto simp: integrity_def log_ok_def)
qed

lemma ack_path:
  assumes "reachable (\<lambda>d. d = c) store_step c'" and "integrity (tabs c)"
    and "ack_of (tabs c) i p = Some a" and "ack_of (tabs c') i p = Some b"
  shows "ack_moves\<^sup>*\<^sup>* (ack_view a) (ack_view b)"
proof -
  from assms(1) have "integrity (tabs c') \<and> i \<le> seq_records (tabs c') \<and>
      (\<forall>b. ack_of (tabs c') i p = Some b \<longrightarrow> ack_moves\<^sup>*\<^sup>* (ack_view a) (ack_view b))"
  proof (induction rule: reachable.induct)
    case (reach_init d)
    with assms(2,3) ack_of_room [OF assms(2,3)] show ?case by simp
  next
    case (reach_step d l d')
    then have int: "integrity (tabs d)" "integrity (tabs d')" by (auto dest: store_int.inv_step)
    from step_tables [OF reach_step.hyps(2) int(1)] show ?case
    proof
      assume "tabs d' = tabs d"
      with reach_step.IH show ?thesis by simp
    next
      assume "\<exists>op. l = Some op \<and> tabs d' = op_spec op (clock d) (tabs d)"
      then obtain op where op: "tabs d' = op_spec op (clock d) (tabs d)" by blast
      show ?thesis
      proof (cases "ack_of (tabs d) i p")
        case None
        with ack_gone_spec [OF None, of op "clock d"] reach_step.IH int(2) op show ?thesis by simp
      next
        case (Some a')
        then have up: "ack_moves\<^sup>*\<^sup>* (ack_view a) (ack_view a')" using reach_step.IH by blast
        have "i \<le> seq_records (tabs d')"
          using seq_records_spec [of "tabs d" op "clock d"] ack_of_room [OF int(1) Some] op by simp
        moreover have "ack_moves\<^sup>*\<^sup>* (ack_view a) (ack_view b)" if "ack_of (tabs d') i p = Some b" for b
          using ack_of_step [OF reach_step.hyps(2) int(1) Some that] up by (rule rtranclp.rtrancl_into_rtrancl [rotated])
        ultimately show ?thesis using int(2) by blast
      qed
    qed
  qed
  with assms(4) show ?thesis by blast
qed

section \<open>What deletion and archiving leave\<close>

definition unreferenced :: "int \<Rightarrow> tables \<Rightarrow> bool" where
  "unreferenced c t \<longleftrightarrow> c \<notin> ch_id ` set (t_channels t) \<and> c \<notin> snd ` set (t_subscriptions t) \<and>
     c \<notin> (\<lambda>o'. snd (fst o')) ` set (t_overrides t) \<and> c \<notin> snd ` set (t_record_channels t) \<and>
     (\<forall>r \<in> set (t_records t). r_channel_ref r \<noteq> Some c)"

lemma detached_ref: "r_channel_ref (detached c r) \<noteq> Some c"
  by (simp add: detached_def)

lemma unreferenced_purge: "unreferenced c (purge c t)"
  unfolding unreferenced_def records_purge
  by (auto simp: detached_ref) (auto simp: purge_def Let_def)

lemma unreferenced_push: "r_channel_ref r \<noteq> Some c \<Longrightarrow> unreferenced c (push_record r t) = unreferenced c t"
  by (auto simp: unreferenced_def)

lemma purge_records_set: "set (t_records (purge c t)) = detached c ` {r \<in> set (t_records t). r_id r \<notin> set (sole_records c t)}"
  by (simp add: records_purge)

lemma set_subscriber_names:
  "set (subscriber_names c t) = pr_name ` {p \<in> set (t_principals t). (pr_id p, c) \<in> set (t_subscriptions t)}"
  unfolding subscriber_names_def by (force simp: image_iff split: if_splits)

lemma subscriber_names_evict: "subscriber_names i (spec_evict i t) = []"
proof -
  have "set (subscriber_names i (spec_evict i t)) = {}"
    unfolding set_subscriber_names by (auto simp: spec_evict_def)
  then show ?thesis by simp
qed

lemma numbered_rows: "map row_to_record (map (\<lambda>k. (system_row ts (evs ! k) ref)\<lparr>r_id := j + int k\<rparr>) [0..<length evs])
    = map Some (numbered j ts evs)"
proof (induction evs arbitrary: j)
  case Nil
  then show ?case by simp
next
  case (Cons ev evs)
  have "map (\<lambda>k. (system_row ts ((ev # evs) ! k) ref)\<lparr>r_id := j + int k\<rparr>) [0..<length (ev # evs)] =
      (system_row ts ev ref)\<lparr>r_id := j\<rparr> # map (\<lambda>k. (system_row ts (evs ! k) ref)\<lparr>r_id := (j + 1) + int k\<rparr>) [0..<length evs]"
    by (simp add: upt_conv_Cons map_Suc_upt [symmetric] comp_def algebra_simps del: upt_Suc)
  with Cons.IH [of "j + 1"] show ?case by (simp add: comp_def)
qed

lemma length_numbered: "length (numbered j ts evs) = length evs"
  by (induction evs arbitrary: j) simp_all

lemma archive_log_rows:
  assumes "archive_channel i nm actor True c = (Inr records, c')"
  shows "\<exists>new. t_records (tabs c') = t_records (tabs c) @ new \<and> map row_to_record new = map Some records"
proof -
  let ?evs = "archive_events i nm actor (tabs c)"
  let ?rows = "map (\<lambda>k. (system_row (clock c) (?evs ! k) (Some i))\<lparr>r_id := seq_records (tabs c) + 1 + int k\<rparr>) [0..<length ?evs]"
  from archive_channel_run [OF assms] obtain t0 where t': "tabs c' = push_all (map (\<lambda>ev. system_row (clock c) ev (Some i)) ?evs) t0"
    and t0: "t_records t0 = t_records (tabs c)" "seq_records t0 = seq_records (tabs c)"
    and recs: "records = numbered (seq_records (tabs c) + 1) (clock c) ?evs"
    by auto
  have "t_records (tabs c') = t_records (tabs c) @ ?rows"
    unfolding t' records_push_all t0 by simp
  with numbered_rows [where ts = "clock c" and evs = ?evs and ref = "Some i" and j = "seq_records (tabs c) + 1"] recs
  show ?thesis by blast
qed

end
