(* ===== verification/Store_Properties.thy ===== *)
theory Store_Properties
  imports Store_Laws
begin

text \<open>
  What the store promises, over every database it can reach from an empty one by its own
  operations under any sequence of storage failures, with a small concrete database on
  which each promise is exercised.
\<close>

section \<open>A concrete history\<close>

definition run_ops :: "store_op list \<Rightarrow> conn \<Rightarrow> conn" where
  "run_ops ops c = fold (\<lambda>op d. snd (run_op op d)) ops c"

definition demo_conn :: conn where
  "demo_conn = \<lparr>tabs = new_tables, faults = [], clock = 1000\<rparr>"

definition demo_message :: store_op where
  "demo_message = AppendMessage ''@a'' \<lparr>to_channels = [''#x''], to_principals = []\<rparr> ''hi'' False None [1] [''@b''] []"

definition demo_ops :: "store_op list" where
  "demo_ops = [RegisterPrincipal ''@a'' False, RegisterPrincipal ''@b'' False, CreateChannel ''#x'' ''@a'',
     AdminSubscription 2 1 True ''@b'' ''#x'', demo_message]"

definition demo :: conn where
  "demo = run_ops demo_ops demo_conn"

lemma run_ops_reachable: "store_reachable c \<Longrightarrow> store_reachable (run_ops ops c)"
proof (induction ops arbitrary: c)
  case (Cons op ops)
  have "store_step c (Some op) (snd (run_op op c))"
    using step_op [of op c "fst (run_op op c)" "snd (run_op op c)"] by simp
  with Cons have "store_reachable (snd (run_op op c))" by (auto intro: reach_step)
  with Cons.IH show ?case by (simp add: run_ops_def)
qed (simp add: run_ops_def)

lemma demo_conn_reachable: "store_reachable demo_conn"
  by (rule reach_init) (simp add: store_init_def demo_conn_def)

lemma demo_reachable: "store_reachable demo"
  unfolding demo_def by (rule run_ops_reachable [OF demo_conn_reachable])

lemma demo_healthy: "faults demo = []"
  by code_simp

lemma snd_run: "m c = (r, c') \<Longrightarrow> snd (m c) = c'"
  by simp

section \<open>Refinement\<close>





section \<open>Integrity and policy\<close>

text \<open>C11. In every reachable database the keys are unique, every reference points at an
  existing row, the log is strictly ordered by id and every stored record converts back,
  even when operations were cut short by storage failures.\<close>

theorem store_integrity:
  assumes "store_reachable c"
  shows "integrity (tabs c)"
  using assms by (rule store_int.reachable_inv)

theorem store_integrity_witness: "integrity (tabs demo)"
  using store_integrity [OF demo_reachable] .

text \<open>C12. The manager's policy and the membership never disagree (ADR-0009): a principal forced
  onto a channel is subscribed to it, a principal cancelled from it is not.\<close>

theorem override_policy_holds:
  assumes "store_reachable c" and "policy_of (tabs c) p ch = Some mode"
  shows "(p, ch) \<in> set (t_subscriptions (tabs c)) \<longleftrightarrow> mode = Forced"
  using store_safe.reachable_inv [OF assms(1)] assms(2)
  by (cases mode) (auto simp: store_good_def policy_inv_def)

theorem override_policy_holds_witness: "(2, 1) \<in> set (t_subscriptions (tabs demo)) \<longleftrightarrow> Forced = Forced"
proof -
  have "policy_of (tabs demo) 2 1 = Some Forced" by code_simp
  from override_policy_holds [OF demo_reachable this] show ?thesis .
qed

text \<open>C13. Self-service cannot undo the manager: on a healthy engine, subscribing where the
  manager cancelled and unsubscribing where the manager forced are denied with the
  blocking mode, and no table changes.\<close>

theorem self_service_denied:
  assumes "faults c = []" and "policy_of (tabs c) p ch = Some (blocking_mode subscribe)"
  shows "self_subscription p ch subscribe pname channel c = (Inr (Denied (blocking_mode subscribe)), c)"
proof -
  have "override_in p ch c = (Inr (Some (blocking_mode subscribe)), c)"
    using assms by (auto simp: override_in_def query_row_def stmt_def policy_of_def map_of_filter_hd bindE_def
        returnE_def split: list.splits option.splits)
  moreover have "stmt nop c = (Inr (), c)" using assms(1) by (cases c) (simp add: stmt_def nop_def)
  ultimately show ?thesis
    by (cases subscribe) (simp_all add: self_subscription_def transaction_def bindE_def returnE_def)
qed

theorem self_service_denied_witness:
  "self_subscription 2 1 False ''@b'' ''#x'' demo = (Inr (Denied Forced), demo)"
proof -
  have "policy_of (tabs demo) 2 1 = Some (blocking_mode False)" by code_simp
  from self_service_denied [OF demo_healthy this] show ?thesis by simp
qed

section \<open>The log\<close>



text \<open>C15. The log is append-only: but for the deletion of a channel, every operation leaves the
  records as they were and adds new ones with the next ids; ids are never reused.\<close>

theorem log_append_only:
  assumes "store_reachable c" and "run_op op c = (r, c')" and "\<not> is_delete op"
  shows "log_grows (tabs c) (tabs c')"
  using step_tables [OF step_op [OF assms(2)]] store_int.reachable_inv [OF assms(1)] log_grows_spec [OF assms(3)]
  by (auto intro: log_grows_refl)

theorem log_append_only_witness: "log_grows (tabs demo) (tabs (snd (run_op demo_message demo)))"
proof -
  have "\<not> is_delete demo_message" by (simp add: demo_message_def)
  with log_append_only [OF demo_reachable] show ?thesis by (metis prod.collapse)
qed

text \<open>C16. A message once accepted is never lost or altered: after any further operations and
  storage failures that delete no channel, reading it back by its id on a healthy engine
  yields the envelope that was sent.\<close>

theorem message_durable:
  assumes "store_reachable c" and "append_message_with_acks author rcpts contents trunc thread chs held absent c = (Inr env, c1)"
    and "reachable (\<lambda>d. d = c1) no_delete c2" and "faults c2 = []"
  shows "envelope_of (message_id env) c2 = (Inr (Some env), c2) \<and> sender env = author \<and> recipients_of env = rcpts \<and>
    body env = contents \<and> truncated env = trunc"
proof -
  note int = store_int.reachable_inv [OF assms(1)]
  have op: "run_op (AppendMessage author rcpts contents trunc thread chs held absent) c = (Inr (), c1)"
    using assms(2) by (simp add: ignore_result_def bindE_def returnE_def)
  have int1: "integrity (tabs c1)" using store_int.inv_step [OF int step_op [OF op]] .
  note run = append_message_run [OF assms(2) integrity_fresh [OF int]]
  then have "seq_records (tabs c1) = seq_records (tabs c) + 1" by (simp add: add_message_def Let_def)
  with int1 have "seq_records (tabs c) < max_rowid" by (simp add: integrity_def log_ok_def)
  from holds_message_append [OF int assms(2) this] int1
  have start: "holds_message (tabs c1) env \<and> integrity (tabs c1)" by simp
  from assms(3) have "reachable (\<lambda>d. holds_message (tabs d) env \<and> integrity (tabs d)) no_delete c2"
    by (induction rule: reachable.induct) (use start in \<open>auto intro: reach_init reach_step\<close>)
  from keeps_message.reachable_inv [OF this] have "holds_message (tabs c2) env" by simp
  from holds_message_read [OF this assms(4)] run show ?thesis by simp
qed

theorem message_durable_witness:
  "envelope_of 6 (snd (append_message_with_acks ''@a'' \<lparr>to_channels = [''#x''], to_principals = []\<rparr> ''hi'' False None [1]
       [''@b''] [] demo)) =
     (Inr (Some \<lparr>message_id = 6, thread_id = 6, timestamp = 1000, sender = ''@a'',
       recipients_of = \<lparr>to_channels = [''#x''], to_principals = []\<rparr>, body = ''hi'', truncated = False\<rparr>),
      snd (append_message_with_acks ''@a'' \<lparr>to_channels = [''#x''], to_principals = []\<rparr> ''hi'' False None [1]
       [''@b''] [] demo))"
  (is "_ = (Inr (Some ?e), snd (?m demo))")
proof -
  have "fst (?m demo) = Inr ?e" by code_simp
  then have sent: "?m demo = (Inr ?e, snd (?m demo))" by (metis prod.collapse)
  have healthy: "faults (snd (?m demo)) = []" by code_simp
  have "reachable (\<lambda>d. d = snd (?m demo)) no_delete (snd (?m demo))" by (rule reach_init) simp
  from message_durable [OF demo_reachable sent this healthy] show ?thesis by simp
qed

section \<open>History\<close>

text \<open>C17. Paging through a channel's history misses nothing and repeats nothing: a page is the
  newest \<open>limit\<close> records of the scope, newest last; when the page is full, the page read
  with its first record's id as cursor holds the records just before it, so that the two
  together are the newest \<open>2 * limit\<close> records in log order.\<close>

theorem history_pages_join:
  assumes "store_reachable c" and "history_channel ch before limit c = (Inr rows, c1)"
    and "rows \<noteq> []" and "history_channel ch (Some (record_id (hd rows))) limit c1 = (Inr older, c2)"
  shows "map Some (older @ rows) = map row_to_record (last_n (2 * unat limit)
    (scope_rows (\<lambda>r. before_ok before r \<and> in_channel (tabs c) ch r) (tabs c)))"
proof -
  define S where "S = scope_rows (\<lambda>r. before_ok before r \<and> in_channel (tabs c) ch r) (tabs c)"
  define n where "n = unat limit"
  note int = store_int.reachable_inv [OF assms(1)]
  from history_channel_rows [OF int assms(2)] have c1: "tabs c1 = tabs c"
    and rows: "map Some rows = map row_to_record (last_n n S)" by (simp_all add: S_def n_def)
  from history_channel_rows [OF _ assms(4)] int c1 have older: "map Some older = map row_to_record (last_n n
      (scope_rows (\<lambda>r. before_ok (Some (record_id (hd rows))) r \<and> in_channel (tabs c) ch r) (tabs c)))"
    by (simp add: n_def)
  from rows assms(3) have page: "last_n n S \<noteq> []" by auto
  then have "n \<noteq> 0" by (auto simp: last_n_def)
  have hd_in: "hd (last_n n S) \<in> set S" using page by (metis hd_in_set in_set_dropD last_n_def)
  then have in_log: "hd (last_n n S) \<in> set (t_records (tabs c))" and in_S: "before_ok before (hd (last_n n S))"
    by (auto simp: S_def scope_rows_def)
  have "Some (hd rows) = row_to_record (hd (last_n n S))"
    using rows page assms(3) by (metis list.map_sel(1))
  then have cursor: "sint (record_id (hd rows)) = r_id (hd (last_n n S))"
    using stored_id [OF int in_log] by simp
  have "scope_rows (\<lambda>r. before_ok (Some (record_id (hd rows))) r \<and> in_channel (tabs c) ch r) (tabs c)
      = filter (\<lambda>r. r_id r < r_id (hd (last_n n S))) S"
    using in_S by (auto simp: S_def scope_rows_def before_ok_def before_bound_def cursor intro: filter_cong)
  also have "\<dots> = take (length S - n) S"
  proof (cases "n < length S")
    case True
    have "sorted_wrt (<) (map r_id S)"
      using int unfolding S_def scope_rows_def integrity_def log_ok_def by (simp add: sorted_wrt_map sorted_wrt_filter)
    from filter_before_page [OF this True \<open>n \<noteq> 0\<close>] show ?thesis .
  next
    case False
    then have "last_n n S = S" by (simp add: last_n_def)
    with first_is_least [of S] int False show ?thesis
      by (simp add: S_def scope_rows_def integrity_def log_ok_def sorted_wrt_map sorted_wrt_filter)
  qed
  finally have "map Some older = map row_to_record (last_n n (take (length S - n) S))" using older by simp
  with rows have "map Some (older @ rows) = map row_to_record (last_n n (take (length S - n) S) @ last_n n S)" by simp
  then show ?thesis unfolding S_def [symmetric] n_def [symmetric] by (simp add: last_n_join)
qed

theorem history_pages_join_witness:
  "map Some ([SystemRec 4 1000 (Subscribed ''@b'' ''#x'' True)] @ [MessageRec \<lparr>message_id = 5, thread_id = 5, timestamp = 1000,
     sender = ''@a'', recipients_of = \<lparr>to_channels = [''#x''], to_principals = []\<rparr>, body = ''hi'', truncated = False\<rparr>])
   = map row_to_record (last_n (2 * unat (1 :: u32))
    (scope_rows (\<lambda>r. before_ok None r \<and> in_channel (tabs demo) 1 r) (tabs demo)))"
  (is "map Some (?older @ ?rows) = _")
proof -
  let ?d = "snd (history_channel 1 None 1 demo)"
  have "fst (history_channel 1 None 1 demo) = Inr ?rows" by code_simp
  then have page: "history_channel 1 None 1 demo = (Inr ?rows, ?d)" by (metis prod.collapse)
  have "fst (history_channel 1 (Some (record_id (hd ?rows))) 1 ?d) = Inr ?older" by code_simp
  then have "history_channel 1 (Some (record_id (hd ?rows))) 1 ?d
      = (Inr ?older, snd (history_channel 1 (Some (record_id (hd ?rows))) 1 ?d))" by (metis prod.collapse)
  from history_pages_join [OF demo_reachable page _ this] show ?thesis by simp
qed

section \<open>Acknowledgments\<close>

text \<open>C18. An acknowledgment only moves forward, over any further run of the store: its state and
  reason change only to a state of higher rank, so that once a delivery is processed or
  failed neither its state nor its reason ever changes again.\<close>

theorem ack_lifecycle:
  assumes "store_reachable c" and "reachable (\<lambda>d. d = c) store_step c'"
    and "ack_of (tabs c) i p = Some a" and "ack_of (tabs c') i p = Some b"
  shows "ack_rank (fst (ack_view a)) \<le> ack_rank (fst (ack_view b)) \<and>
    (fst (ack_view a) \<in> {Processed, Failed} \<longrightarrow> ack_view b = ack_view a)"
proof -
  have "ack_moves\<^sup>*\<^sup>* (ack_view a) (ack_view b)"
    using ack_path [OF assms(2) store_int.reachable_inv [OF assms(1)] assms(3,4)] .
  from ack_life.path_monotone [OF this] ack_life.top_final [OF this] show ?thesis by auto
qed

theorem ack_lifecycle_witness:
  "ack_rank (fst (ack_view (the (ack_of (tabs demo) 5 ''@b''))))
     \<le> ack_rank (fst (ack_view (the (ack_of (tabs (snd (run_op (AckSet 5 ''@b'' Processed None) demo))) 5 ''@b''))))"
proof -
  let ?d = "snd (run_op (AckSet 5 ''@b'' Processed None) demo)"
  have "store_step demo (Some (AckSet 5 ''@b'' Processed None)) ?d"
    by (rule step_op [of _ _ "fst (run_op (AckSet 5 ''@b'' Processed None) demo)"]) (rule prod.collapse [symmetric])
  with reach_init [of "\<lambda>d. d = demo" demo] have path: "reachable (\<lambda>d. d = demo) store_step ?d" by (auto intro: reach_step)
  have "ack_of (tabs demo) 5 ''@b'' \<noteq> None" and "ack_of (tabs ?d) 5 ''@b'' \<noteq> None" by code_simp+
  then obtain a b where ab: "ack_of (tabs demo) 5 ''@b'' = Some a" "ack_of (tabs ?d) 5 ''@b'' = Some b" by auto
  from ack_lifecycle [OF demo_reachable path ab] show ?thesis unfolding ab option.sel by (rule conjunct1)
qed

section \<open>Archiving and deleting\<close>





end
