(* ===== verification/Attach.thy ===== *)
theory Attach
  imports Json
begin

text \<open>
  The Codex attach client (\<open>crates/adapter-codex/src/attach.rs\<close> and \<open>lib.rs\<close>): the
  routing of app-server responses to in-flight calls, and the delivery of one message
  into a thread as the loop of the source. The app-server is not this code: its answers
  are an input, one per call with the milliseconds it took, so that every theorem holds
  for every server and every connection loss; a call past its timeout and a call on a
  closed connection fail as the source has them. The trace records each request with
  what came of it.
\<close>

section \<open>Outcomes\<close>

datatype delivered = Delivered | DeliveryFailed string | Unreachable string

datatype call_error = Transport string | Rpc string

type_synonym call_result = "call_error + json"

fun call_error_text :: "call_error \<Rightarrow> string" where
  "call_error_text (Transport e) = e"
| "call_error_text (Rpc e) = e"

section \<open>Response routing\<close>

text \<open>One text frame of the reader task: the call it settles, and its result.\<close>

definition frame_response :: "json \<Rightarrow> (u64 \<times> call_result) option" where
  "frame_response v =
     (if jget ''id'' v \<noteq> None \<and> (jget ''result'' v \<noteq> None \<or> jget ''error'' v \<noteq> None) then
        (case Option.bind (jget ''id'' v) as_u64 of None \<Rightarrow> None
         | Some i \<Rightarrow> Some (i, (case jget ''error'' v of
             Some e \<Rightarrow> Inl (Rpc (case Option.bind (jget ''message'' e) as_str of
                 Some m \<Rightarrow> m | None \<Rightarrow> ''app-server error''))
           | None \<Rightarrow> Inr (case jget ''result'' v of Some r \<Rightarrow> r | None \<Rightarrow> JNull))))
      else None)"

text \<open>The reader's loop body over the ids in flight: a settled call leaves the map with
  its result; every other frame changes nothing.\<close>

definition reader_frame :: "json \<Rightarrow> u64 list \<Rightarrow> (u64 \<times> call_result) option \<times> u64 list" where
  "reader_frame v pending = (case frame_response v of
      Some (i, r) \<Rightarrow> if i \<in> set pending then (Some (i, r), filter (\<lambda>k. k \<noteq> i) pending) else (None, pending)
    | None \<Rightarrow> (None, pending))"

text \<open>The end of the stream: every call in flight fails at once.\<close>

definition reader_closed :: "u64 list \<Rightarrow> (u64 \<times> call_result) list \<times> u64 list" where
  "reader_closed pending = (map (\<lambda>i. (i, Inl (Transport ''app-server connection closed''))) pending, [])"

section \<open>Calls\<close>

record world =
  w_now :: nat
  w_answers :: "(nat \<times> call_result) list"
  w_trace :: "(string \<times> json \<times> call_result) list"

definition CALL_TIMEOUT :: nat where
  "CALL_TIMEOUT = 30000"

definition TURN_TIMEOUT :: nat where
  "TURN_TIMEOUT = 300000"

definition POLL_INTERVAL :: nat where
  "POLL_INTERVAL = 1500"

definition closed :: call_result where
  "closed = Inl (Transport ''app-server connection closed'')"

definition timed_out :: call_result where
  "timed_out = Inl (Transport ''app-server call timed out'')"

definition call :: "string \<Rightarrow> json \<Rightarrow> world \<Rightarrow> call_result \<times> world" where
  "call method params w =
     (let (dt, r) = (case w_answers w of [] \<Rightarrow> (0, closed)
         | (d, a) # _ \<Rightarrow> if d > CALL_TIMEOUT then (CALL_TIMEOUT, timed_out) else (d, a))
      in (r, w\<lparr>w_now := w_now w + dt, w_answers := tl (w_answers w),
               w_trace := w_trace w @ [(method, params, r)]\<rparr>))"

definition sleep :: "nat \<Rightarrow> world \<Rightarrow> world" where
  "sleep d w = w\<lparr>w_now := w_now w + d\<rparr>"

section \<open>Connecting\<close>

definition MAX_WS_MESSAGE :: nat where
  "MAX_WS_MESSAGE = 16 * 1024 * 1024"

definition bearer :: "string \<Rightarrow> string" where
  "bearer token = ''Bearer '' @ token"

definition initialize_params :: "string \<Rightarrow> json" where
  "initialize_params pkg_version =
     JObj [(''clientInfo'', JObj [(''name'', JStr ''workplace''), (''version'', JStr pkg_version)])]"

text \<open>\<open>dial\<close> is the WebSocket upgrade at a URL, with an \<open>Authorization\<close> header if there is a
  token and frames bounded in size; it fails or yields the connection. The client exists
  once the server has answered \<open>initialize\<close>.\<close>

definition connect_attach ::
  "(string \<Rightarrow> string option \<Rightarrow> nat \<Rightarrow> string + world) \<Rightarrow> string \<Rightarrow> string \<Rightarrow> string option \<Rightarrow> string + world" where
  "connect_attach dial pkg_version url token =
     (case dial url (map_option bearer token) MAX_WS_MESSAGE of
        Inl e \<Rightarrow> Inl e
      | Inr w \<Rightarrow> (case call ''initialize'' (initialize_params pkg_version) w of
          (Inl e, _) \<Rightarrow> Inl (''initialize failed: '' @ call_error_text e)
        | (Inr _, w') \<Rightarrow> Inr w'))"

section \<open>Reading the thread\<close>

fun pointer :: "string list \<Rightarrow> json \<Rightarrow> json option" where
  "pointer [] j = Some j"
| "pointer (k # ks) j = Option.bind (jget k j) (pointer ks)"

fun contains :: "string \<Rightarrow> string \<Rightarrow> bool" where
  "contains needle [] = (needle = [])"
| "contains needle (c # cs) = (strip_prefix needle (c # cs) \<noteq> None \<or> contains needle cs)"

definition start_thread :: "string \<Rightarrow> world \<Rightarrow> (string + string) \<times> world" where
  "start_thread cwd w = (case call ''thread/start'' (JObj [(''cwd'', JStr cwd)]) w of
      (Inl e, w') \<Rightarrow> (Inl (''thread/start failed: '' @ call_error_text e), w')
    | (Inr v, w') \<Rightarrow> ((case Option.bind (pointer [''thread'', ''id''] v) as_str of
          Some i \<Rightarrow> Inr i | None \<Rightarrow> Inl ''thread/start returned no thread id''), w'))"

definition ascii_lower :: "char \<Rightarrow> char" where
  "ascii_lower c = (if CHR ''A'' \<le> c \<and> c \<le> CHR ''Z'' then char_of (of_char c + 32 :: nat) else c)"

definition unload_hint :: "string \<Rightarrow> bool" where
  "unload_hint e = (let l = map ascii_lower e in
     contains ''not loaded'' l \<or> contains ''unloaded'' l \<or> contains ''unknown thread'' l)"

definition thread_gone :: "string \<Rightarrow> bool" where
  "thread_gone e = contains ''no rollout'' (map ascii_lower e)"

datatype thread_state = Idle | Busy "string option"

definition turn_id_of :: "json \<Rightarrow> string option" where
  "turn_id_of t = Option.bind (jget ''id'' t) as_str"

definition turn_status_of :: "json \<Rightarrow> string option" where
  "turn_status_of t = Option.bind (jget ''status'' t) as_str"

text \<open>\<open>find_map\<close> over the turns, newest first.\<close>

fun active_turn :: "json list \<Rightarrow> string option" where
  "active_turn [] = None"
| "active_turn (t # ts) =
     (case (if turn_status_of t = Some ''inProgress'' then turn_id_of t else None) of
        Some i \<Rightarrow> Some i | None \<Rightarrow> active_turn ts)"

definition read_params :: "string \<Rightarrow> json" where
  "read_params thread = JObj [(''threadId'', JStr thread), (''includeTurns'', JBool True)]"

definition classify_read :: "call_result \<Rightarrow> call_error + thread_state" where
  "classify_read r = (case r of
      Inr v \<Rightarrow>
        (let status = (case Option.bind (pointer [''thread'', ''status'', ''type''] v) as_str of
             Some s \<Rightarrow> s | None \<Rightarrow> ''idle'')
         in if status = ''idle'' then Inr Idle
            else Inr (Busy (Option.bind (Option.bind (pointer [''thread'', ''turns''] v) as_arr)
              (\<lambda>turns. active_turn (rev turns)))))
    | Inl (Rpc e) \<Rightarrow> if contains ''not materialized'' e then Inr Idle else Inl (Rpc e)
    | Inl (Transport e) \<Rightarrow> Inl (Transport e))"

definition thread_state :: "string \<Rightarrow> world \<Rightarrow> (call_error + thread_state) \<times> world" where
  "thread_state thread w = (let (r, w') = call ''thread/read'' (read_params thread) w in (classify_read r, w'))"

definition classify_poll :: "string \<Rightarrow> call_result \<Rightarrow> call_error + string option" where
  "classify_poll turn r = (case r of
      Inr v \<Rightarrow> Inr (Option.bind (Option.bind (pointer [''thread'', ''turns''] v) as_arr)
        (\<lambda>turns. Option.bind (List.find (\<lambda>t. turn_id_of t = Some turn) turns) turn_status_of))
    | Inl (Rpc e) \<Rightarrow> if contains ''not materialized'' e then Inr None else Inl (Rpc e)
    | Inl (Transport e) \<Rightarrow> Inl (Transport e))"

definition turn_status :: "string \<Rightarrow> string \<Rightarrow> world \<Rightarrow> (call_error + string option) \<times> world" where
  "turn_status thread turn w = (let (r, w') = call ''thread/read'' (read_params thread) w in (classify_poll turn r, w'))"

definition resume_thread :: "string \<Rightarrow> world \<Rightarrow> call_result \<times> world" where
  "resume_thread thread = call ''thread/resume'' (JObj [(''threadId'', JStr thread)])"

definition text_input :: "string \<Rightarrow> json" where
  "text_input txt = JArr [JObj [(''type'', JStr ''text''), (''text'', JStr txt)]]"

definition steer_params :: "string \<Rightarrow> string \<Rightarrow> string \<Rightarrow> json" where
  "steer_params thread turn txt =
     JObj [(''threadId'', JStr thread), (''expectedTurnId'', JStr turn), (''input'', text_input txt)]"

definition start_params :: "string \<Rightarrow> string \<Rightarrow> json" where
  "start_params thread txt = JObj [(''threadId'', JStr thread), (''input'', text_input txt)]"

lemma call_now: "call m p w = (r, w') \<Longrightarrow> w_now w \<le> w_now w'"
  by (auto simp: call_def Let_def split: prod.splits list.splits if_splits)

lemma thread_state_now: "thread_state th w = (r, w') \<Longrightarrow> w_now w \<le> w_now w'"
  by (auto simp: thread_state_def Let_def split: prod.splits dest: call_now)

lemma turn_status_now: "turn_status th t w = (r, w') \<Longrightarrow> w_now w \<le> w_now w'"
  by (auto simp: turn_status_def Let_def split: prod.splits dest: call_now)

lemma resume_now: "resume_thread th w = (r, w') \<Longrightarrow> w_now w \<le> w_now w'"
  by (auto simp: resume_thread_def dest: call_now)

section \<open>Delivery\<close>

text \<open>The first loop of \<open>deliver\<close>: until the message is committed to a turn (its id and
  how it got there) or the delivery is over. The flags are the loop's locals.\<close>

function commit_loop :: "bool \<Rightarrow> bool \<Rightarrow> nat \<Rightarrow> string \<Rightarrow> string \<Rightarrow> world \<Rightarrow> (delivered + string \<times> string) \<times> world" where
  "commit_loop resumed steer_refused deadline thread txt w =
     (case thread_state thread w of
        (Inr (Busy (Some turn)), w1) \<Rightarrow>
          if \<not> steer_refused then
            (case call ''turn/steer'' (steer_params thread turn txt) w1 of
               (Inr v, w2) \<Rightarrow> (case Option.bind (jget ''turnId'' v) as_str of
                   Some i \<Rightarrow> (Inr (i, ''turn/steer''), w2)
                 | None \<Rightarrow> (Inl (DeliveryFailed ''turn/steer returned no turn id''), w2))
             | (Inl (Transport e), w2) \<Rightarrow>
                 (Inl (DeliveryFailed (''transport failure during turn/steer; completion unknown: '' @ e)), w2)
             | (Inl (Rpc e), w2) \<Rightarrow> commit_loop resumed True deadline thread txt w2)
          else if w_now w1 > deadline then (Inl (DeliveryFailed ''thread stayed busy past timeout''), w1)
          else commit_loop resumed steer_refused deadline thread txt (sleep POLL_INTERVAL w1)
      | (Inr (Busy None), w1) \<Rightarrow>
          if w_now w1 > deadline then (Inl (DeliveryFailed ''thread stayed busy past timeout''), w1)
          else commit_loop resumed steer_refused deadline thread txt (sleep POLL_INTERVAL w1)
      | (Inr Idle, w1) \<Rightarrow>
          (case call ''turn/start'' (start_params thread txt) w1 of
             (Inr v, w2) \<Rightarrow> (case Option.bind (pointer [''turn'', ''id''] v) as_str of
                 Some i \<Rightarrow> (Inr (i, ''turn/start''), w2)
               | None \<Rightarrow> (Inl (DeliveryFailed ''turn/start returned no turn id''), w2))
           | (Inl (Transport e), w2) \<Rightarrow>
               (Inl (DeliveryFailed (''transport failure during turn/start; completion unknown: '' @ e)), w2)
           | (Inl (Rpc e), w2) \<Rightarrow>
               if thread_gone e then (Inl (DeliveryFailed (''thread gone: '' @ e)), w2)
               else if resumed \<or> \<not> unload_hint e then (Inl (DeliveryFailed e), w2)
               else (case resume_thread thread w2 of
                   (Inr _, w3) \<Rightarrow> commit_loop True steer_refused deadline thread txt w3
                 | (Inl (Transport t), w3) \<Rightarrow> (Inl (DeliveryFailed
                     (''transport failure during resume after turn/start attempt; completion unknown: '' @ t)), w3)
                 | (Inl (Rpc r), w3) \<Rightarrow> (Inl (DeliveryFailed (''thread gone: '' @ r)), w3)))
      | (Inl (Transport e), w1) \<Rightarrow> (Inl (Unreachable e), w1)
      | (Inl (Rpc e), w1) \<Rightarrow>
          if thread_gone e then (Inl (DeliveryFailed (''thread gone: '' @ e)), w1)
          else if resumed \<or> \<not> unload_hint e then (Inl (DeliveryFailed (''thread/read failed: '' @ e)), w1)
          else (case resume_thread thread w1 of
              (Inr _, w2) \<Rightarrow> commit_loop True steer_refused deadline thread txt w2
            | (Inl (Transport t), w2) \<Rightarrow> (Inl (Unreachable t), w2)
            | (Inl (Rpc r), w2) \<Rightarrow> (Inl (DeliveryFailed (''thread gone: '' @ r)), w2)))"
  by pat_completeness auto

text \<open>Every pass that goes round again sets a flag that was clear or sleeps before the
  deadline.\<close>

termination commit_loop
  by (relation "measures [\<lambda>(resumed, refused, d, th, tx, w). of_bool (\<not> resumed) + of_bool (\<not> refused),
        \<lambda>(resumed, refused, d, th, tx, w). Suc d - w_now w]")
    (auto simp: sleep_def POLL_INTERVAL_def dest!: thread_state_now [OF sym])

declare commit_loop.simps [simp del]

text \<open>The second loop: poll the turn that has the message.\<close>

function poll_loop :: "nat \<Rightarrow> string \<Rightarrow> string \<Rightarrow> string \<Rightarrow> world \<Rightarrow> delivered \<times> world" where
  "poll_loop deadline thread turn mode w =
     (case turn_status thread turn (sleep POLL_INTERVAL w) of
        (Inl (Transport e), w1) \<Rightarrow>
          (DeliveryFailed (''app-server connection lost after '' @ mode @ ''; completion unknown: '' @ e), w1)
      | (Inl (Rpc e), w1) \<Rightarrow> (DeliveryFailed (''poll failed: '' @ e), w1)
      | (Inr st, w1) \<Rightarrow>
          if st = Some ''completed'' then (Delivered, w1)
          else if st \<in> {Some ''failed'', Some ''error'', Some ''interrupted''}
          then (DeliveryFailed (''turn ended with status '' @ the st), w1)
          else if w_now w1 > deadline then (DeliveryFailed ''turn did not complete within timeout'', w1)
          else poll_loop deadline thread turn mode w1)"
  by pat_completeness auto

termination poll_loop
  by (relation "measure (\<lambda>(d, th, t, m, w). Suc d - w_now w)")
    (auto simp: sleep_def POLL_INTERVAL_def dest!: turn_status_now [OF sym])

declare poll_loop.simps [simp del]

definition deliver :: "string \<Rightarrow> string \<Rightarrow> world \<Rightarrow> delivered \<times> world" where
  "deliver thread txt w =
     (case commit_loop False False (w_now w + TURN_TIMEOUT) thread txt w of
        (Inl d, w1) \<Rightarrow> (d, w1)
      | (Inr (turn, mode), w1) \<Rightarrow> poll_loop (w_now w1 + TURN_TIMEOUT) thread turn mode w1)"

end
