(* ===== verification/Attach_Machine.thy ===== *)
theory Attach_Machine
  imports Attach
begin

text \<open>
  The delivery of \<open>attach.rs\<close> cut at its await points. A delivery is suspended either on the
  answer of one app-server call or in one sleep; \<open>phase\<close> names these points with the locals
  live there, \<open>request_of\<close> is the call a phase waits for, and \<open>proceed\<close> runs the code from one
  await point to the next. Run alone, one step after another, the machine is exactly
  \<open>deliver\<close>; its steps are what the deliveries of one client interleave.
\<close>

section \<open>Await points\<close>

datatype phase =
    Reading bool bool nat
  | Steering bool nat string
  | Starting bool bool nat
  | Resuming bool bool nat
  | Napping bool bool nat nat
  | PollNap nat string string nat
  | Polling nat string string
  | Ended delivered

fun request_of :: "string \<Rightarrow> string \<Rightarrow> phase \<Rightarrow> (string \<times> json) option" where
  "request_of thread txt (Reading _ _ _) = Some (''thread/read'', read_params thread)"
| "request_of thread txt (Steering _ _ turn) = Some (''turn/steer'', steer_params thread turn txt)"
| "request_of thread txt (Starting _ _ _) = Some (''turn/start'', start_params thread txt)"
| "request_of thread txt (Resuming _ _ _) = Some (''thread/resume'', JObj [(''threadId'', JStr thread)])"
| "request_of thread txt (Polling _ _ _) = Some (''thread/read'', read_params thread)"
| "request_of thread txt (Napping _ _ _ _) = None"
| "request_of thread txt (PollNap _ _ _ _) = None"
| "request_of thread txt (Ended _) = None"

text \<open>A sleeping phase: when it wakes, and where it goes on.\<close>

fun wakes :: "phase \<Rightarrow> (nat \<times> phase) option" where
  "wakes (Napping resumed refused deadline until) = Some (until, Reading resumed refused deadline)"
| "wakes (PollNap deadline turn mode until) = Some (until, Polling deadline turn mode)"
| "wakes _ = None"

definition start_phase :: "nat \<Rightarrow> phase" where
  "start_phase now = Reading False False (now + TURN_TIMEOUT)"

definition begin_poll :: "nat \<Rightarrow> string \<Rightarrow> string \<Rightarrow> phase" where
  "begin_poll now turn mode = PollNap (now + TURN_TIMEOUT) turn mode (now + POLL_INTERVAL)"

definition fail_with :: "string \<Rightarrow> phase" where
  "fail_with e = Ended (DeliveryFailed e)"

definition stay_busy :: "nat \<Rightarrow> bool \<Rightarrow> bool \<Rightarrow> nat \<Rightarrow> phase" where
  "stay_busy now resumed refused deadline =
     (if now > deadline then fail_with ''thread stayed busy past timeout''
      else Napping resumed refused deadline (now + POLL_INTERVAL))"

definition after_read ::
  "nat \<Rightarrow> bool \<Rightarrow> bool \<Rightarrow> nat \<Rightarrow> call_error + thread_state \<Rightarrow> phase" where
  "after_read now resumed refused deadline s = (case s of
      Inr (Busy (Some turn)) \<Rightarrow>
        if \<not> refused then Steering resumed deadline turn else stay_busy now resumed refused deadline
    | Inr (Busy None) \<Rightarrow> stay_busy now resumed refused deadline
    | Inr Idle \<Rightarrow> Starting resumed refused deadline
    | Inl (Transport e) \<Rightarrow> Ended (Unreachable e)
    | Inl (Rpc e) \<Rightarrow>
        if thread_gone e then fail_with (''thread gone: '' @ e)
        else if resumed \<or> \<not> unload_hint e then fail_with (''thread/read failed: '' @ e)
        else Resuming False refused deadline)"

definition after_poll ::
  "nat \<Rightarrow> nat \<Rightarrow> string \<Rightarrow> string \<Rightarrow> call_error + string option \<Rightarrow> phase" where
  "after_poll now deadline turn mode s = (case s of
      Inl (Transport e) \<Rightarrow>
        fail_with (''app-server connection lost after '' @ mode @ ''; completion unknown: '' @ e)
    | Inl (Rpc e) \<Rightarrow> fail_with (''poll failed: '' @ e)
    | Inr st \<Rightarrow>
        if st = Some ''completed'' then Ended Delivered
        else if st \<in> {Some ''failed'', Some ''error'', Some ''interrupted''}
        then fail_with (''turn ended with status '' @ the st)
        else if now > deadline then fail_with ''turn did not complete within timeout''
        else PollNap deadline turn mode (now + POLL_INTERVAL))"

fun proceed :: "nat \<Rightarrow> phase \<Rightarrow> call_result \<Rightarrow> phase" where
  "proceed now (Reading resumed refused deadline) r =
     after_read now resumed refused deadline (classify_read r)"
| "proceed now (Steering resumed deadline _) r = (case r of
      Inr v \<Rightarrow> (case Option.bind (jget ''turnId'' v) as_str of
          Some i \<Rightarrow> begin_poll now i ''turn/steer''
        | None \<Rightarrow> fail_with ''turn/steer returned no turn id'')
    | Inl (Transport e) \<Rightarrow> fail_with (''transport failure during turn/steer; completion unknown: '' @ e)
    | Inl (Rpc _) \<Rightarrow> Reading resumed True deadline)"
| "proceed now (Starting resumed refused deadline) r = (case r of
      Inr v \<Rightarrow> (case Option.bind (pointer [''turn'', ''id''] v) as_str of
          Some i \<Rightarrow> begin_poll now i ''turn/start''
        | None \<Rightarrow> fail_with ''turn/start returned no turn id'')
    | Inl (Transport e) \<Rightarrow> fail_with (''transport failure during turn/start; completion unknown: '' @ e)
    | Inl (Rpc e) \<Rightarrow>
        if thread_gone e then fail_with (''thread gone: '' @ e)
        else if resumed \<or> \<not> unload_hint e then fail_with e
        else Resuming True refused deadline)"
| "proceed now (Resuming after_start refused deadline) r = (case r of
      Inr _ \<Rightarrow> Reading True refused deadline
    | Inl (Transport t) \<Rightarrow>
        if after_start
        then fail_with (''transport failure during resume after turn/start attempt; completion unknown: '' @ t)
        else Ended (Unreachable t)
    | Inl (Rpc e) \<Rightarrow> fail_with (''thread gone: '' @ e))"
| "proceed now (Polling deadline turn mode) r = after_poll now deadline turn mode (classify_poll turn r)"
| "proceed now p r = p"

section \<open>Running alone\<close>

definition lone_step :: "string \<Rightarrow> string \<Rightarrow> phase \<times> world \<Rightarrow> (phase \<times> world) option" where
  "lone_step thread txt c = (case c of (p, w) \<Rightarrow>
     (case request_of thread txt p of
        Some (m, ps) \<Rightarrow> (case call m ps w of (r, w') \<Rightarrow> Some (proceed (w_now w') p r, w'))
      | None \<Rightarrow> (case wakes p of
          Some (until, q) \<Rightarrow> Some (q, sleep (until - w_now w) w)
        | None \<Rightarrow> None)))"

definition lone :: "string \<Rightarrow> string \<Rightarrow> phase \<times> world \<Rightarrow> phase \<times> world \<Rightarrow> bool" where
  "lone thread txt c c' \<longleftrightarrow> lone_step thread txt c = Some c'"

abbreviation lone_runs :: "string \<Rightarrow> string \<Rightarrow> phase \<times> world \<Rightarrow> phase \<times> world \<Rightarrow> bool" where
  "lone_runs thread txt \<equiv> (lone thread txt)\<^sup>*\<^sup>*"

lemma lone_call: "\<lbrakk>request_of th tx p = Some (m, ps); call m ps w = (r, w')\<rbrakk>
  \<Longrightarrow> lone th tx (p, w) (proceed (w_now w') p r, w')"
  by (simp add: lone_def lone_step_def)

lemma lone_wake: "wakes p = Some (t, q) \<Longrightarrow> request_of th tx p = None \<Longrightarrow>
  lone th tx (p, w) (q, sleep (t - w_now w) w)"
  by (simp add: lone_def lone_step_def)

lemma lone_ended: "\<not> lone th tx (Ended d, w) c"
  by (simp add: lone_def lone_step_def)

text \<open>The machine is deterministic, so what it runs to is unique.\<close>

lemma lone_runs_unique:
  assumes "lone_runs th tx c (Ended d, w)" "lone_runs th tx c (Ended d', w')"
  shows "d = d' \<and> w = w'"
  using assms
proof (induction c rule: converse_rtranclp_induct)
  case base
  then show ?case by (auto simp: lone_ended elim: converse_rtranclpE)
next
  case (step c c1)
  from step.prems step.hyps(1) obtain c2 where "lone th tx c c2" "lone_runs th tx c2 (Ended d', w')"
    by (cases c) (auto simp: lone_ended elim: converse_rtranclpE)
  moreover from this step.hyps(1) have "c2 = c1" by (simp add: lone_def)
  ultimately show ?case using step.IH by simp
qed

text \<open>The phase a commit loop's outcome leaves the delivery in.\<close>

definition after_commit :: "nat \<Rightarrow> delivered + string \<times> string \<Rightarrow> phase" where
  "after_commit now out = (case out of Inl d \<Rightarrow> Ended d | Inr (turn, mode) \<Rightarrow> begin_poll now turn mode)"

lemma after_commit_simps [simp]:
  "after_commit now (Inl d) = Ended d" "after_commit now (Inr (turn, mode)) = begin_poll now turn mode"
  by (simp_all add: after_commit_def)

text \<open>The calls of the two loops, as steps of the machine.\<close>

lemma lone_read: "thread_state th w = (s, w1) \<Longrightarrow>
  lone th tx (Reading r f d, w) (after_read (w_now w1) r f d s, w1)"
  by (auto simp: thread_state_def lone_def lone_step_def split: prod.splits)

lemma lone_poll: "turn_status th turn w = (s, w1) \<Longrightarrow>
  lone th tx (Polling d turn mode, w) (after_poll (w_now w1) d turn mode s, w1)"
  by (auto simp: turn_status_def lone_def lone_step_def split: prod.splits)

lemma lone_steer: "call ''turn/steer'' (steer_params th turn tx) w = (r, w1) \<Longrightarrow>
  lone th tx (Steering b d turn, w) (proceed (w_now w1) (Steering b d turn) r, w1)"
  by (simp add: lone_def lone_step_def)

lemma lone_start: "call ''turn/start'' (start_params th tx) w = (r, w1) \<Longrightarrow>
  lone th tx (Starting b f d, w) (proceed (w_now w1) (Starting b f d) r, w1)"
  by (simp add: lone_def lone_step_def)

lemma lone_resume: "resume_thread th w = (r, w1) \<Longrightarrow>
  lone th tx (Resuming b f d, w) (proceed (w_now w1) (Resuming b f d) r, w1)"
  by (simp add: lone_def lone_step_def resume_thread_def)

lemma lone_nap: "lone th tx (Napping r f d (w_now w + POLL_INTERVAL), w) (Reading r f d, sleep POLL_INTERVAL w)"
  by (simp add: lone_def lone_step_def)

lemma lone_poll_nap: "lone th tx (PollNap d turn mode (w_now w + POLL_INTERVAL), w)
  (Polling d turn mode, sleep POLL_INTERVAL w)"
  by (simp add: lone_def lone_step_def)

lemma runs_step: "\<lbrakk>lone th tx c c'; lone_runs th tx c' c''\<rbrakk> \<Longrightarrow> lone_runs th tx c c''"
  by (rule converse_rtranclp_into_rtranclp)

definition commit_runs :: "bool \<Rightarrow> bool \<Rightarrow> nat \<Rightarrow> string \<Rightarrow> string \<Rightarrow> world \<Rightarrow> (delivered + string \<times> string) \<times> world \<Rightarrow> bool" where
  "commit_runs r f d th tx w out \<longleftrightarrow>
     lone_runs th tx (Reading r f d, w) (after_commit (w_now (snd out)) (fst out), snd out)"

lemma commit_runsI: "lone th tx (Reading r f d, w) c \<Longrightarrow>
  lone_runs th tx c (after_commit (w_now (snd out)) (fst out), snd out) \<Longrightarrow> commit_runs r f d th tx w out"
  by (simp add: commit_runs_def runs_step)

lemma commit_loop_runs: "commit_runs r f d th tx w (commit_loop r f d th tx w)"
proof (induction r f d th tx w rule: commit_loop.induct)
  case (1 r f d th tx w)
  note splits = sum.splits call_error.splits option.splits thread_state.splits
  obtain s w1 where s: "thread_state th w = (s, w1)" by fastforce
  note read = commit_runsI [OF lone_read [OF s, of tx r f d]]
  consider (steer) turn where "s = Inr (Busy (Some turn))" "\<not> f" | (idle) "s = Inr Idle"
    | (busy) t where "s = Inr (Busy t)" "t = None \<or> f" | (gone) e where "s = Inl (Transport e)"
    | (failed) e where "s = Inl (Rpc e)"
    by (metis call_error.exhaust option.exhaust sum.exhaust thread_state.exhaust)
  then show ?case
  proof cases
    case steer
    obtain a w2 where a: "call ''turn/steer'' (steer_params th turn tx) w1 = (a, w2)" by fastforce
    show ?thesis
      apply (rule read)
      apply (subst (1 2 3) commit_loop.simps)
      using steer s a 1 lone_steer [OF a, of r d]
      apply (auto simp: after_read_def commit_runs_def fail_with_def split: splits intro: runs_step)
      done
  next
    case idle
    obtain a w2 where a: "call ''turn/start'' (start_params th tx) w1 = (a, w2)" by fastforce
    obtain b w3 where b: "resume_thread th w2 = (b, w3)" by fastforce
    show ?thesis
      apply (rule read)
      apply (subst (1 2 3) commit_loop.simps)
      using idle s a b 1 lone_start [OF a, of r f d] lone_resume [OF b, of tx True f d]
      apply (auto simp: after_read_def commit_runs_def fail_with_def split: splits intro: runs_step)
      apply (rule runs_step, assumption)+
      apply simp
      done
  next
    case busy
    have "commit_runs r f d th tx (sleep POLL_INTERVAL w1) (commit_loop r f d th tx (sleep POLL_INTERVAL w1))"
      if "\<not> w_now w1 > d"
      using busy s that 1 by (cases t) auto
    then have go_on: "lone_runs th tx (after_read (w_now w1) r f d s, w1)
        (after_commit (w_now (snd (commit_loop r f d th tx (sleep POLL_INTERVAL w1))))
          (fst (commit_loop r f d th tx (sleep POLL_INTERVAL w1))),
         snd (commit_loop r f d th tx (sleep POLL_INTERVAL w1)))" if "\<not> w_now w1 > d"
      using busy that runs_step [OF lone_nap]
      by (auto simp: after_read_def stay_busy_def commit_runs_def split: option.splits)
    have "commit_loop r f d th tx w = (if w_now w1 > d
        then (Inl (DeliveryFailed ''thread stayed busy past timeout''), w1)
        else commit_loop r f d th tx (sleep POLL_INTERVAL w1))"
      by (subst commit_loop.simps) (use busy s in \<open>auto split: option.splits\<close>)
    then show ?thesis
      using busy go_on
      by (intro read) (auto simp: after_read_def stay_busy_def fail_with_def split: option.splits)
  next
    case gone
    show ?thesis
      by (rule read, subst (1 2 3) commit_loop.simps) (simp add: s gone after_read_def)
  next
    case failed
    obtain b w2 where b: "resume_thread th w1 = (b, w2)" by fastforce
    show ?thesis
      apply (rule read)
      apply (subst (1 2 3) commit_loop.simps)
      using failed s b 1 lone_resume [OF b, of tx False f d]
      apply (auto simp: after_read_def commit_runs_def fail_with_def split: splits intro: runs_step)
      done
  qed
qed

definition poll_end :: "delivered \<times> world \<Rightarrow> phase \<times> world" where
  "poll_end out = (Ended (fst out), snd out)"

lemma poll_loop_runs:
  "lone_runs th tx (PollNap d turn mode (w_now w + POLL_INTERVAL), w) (poll_end (poll_loop d th turn mode w))"
proof (induction d th turn mode w rule: poll_loop.induct)
  case (1 d th turn mode w)
  obtain s w1 where s: "turn_status th turn (sleep POLL_INTERVAL w) = (s, w1)" by fastforce
  have "lone_runs th tx (after_poll (w_now w1) d turn mode s, w1) (poll_end (poll_loop d th turn mode w))"
    apply (subst poll_loop.simps)
    using s 1 [OF s [symmetric]]
    apply (simp add: after_poll_def fail_with_def poll_end_def split: sum.split call_error.split)
    done
  then show ?case
    by (rule runs_step [OF lone_poll_nap runs_step [OF lone_poll [OF s]]])
qed

text \<open>A delivery cut at its await points does what the delivery does: run alone, the machine
  reaches an end exactly at the outcome and in the world \<open>deliver\<close> returns, whatever the server
  answers.\<close>

theorem machine_is_deliver:
  "lone_runs thread tx (start_phase (w_now w), w) (Ended d, w') \<longleftrightarrow> deliver thread tx w = (d, w')"
proof -
  obtain out w1 where c: "commit_loop False False (w_now w + TURN_TIMEOUT) thread tx w = (out, w1)"
    by fastforce
  have "lone_runs thread tx (start_phase (w_now w), w) (after_commit (w_now w1) out, w1)"
    using commit_loop_runs [of False False "w_now w + TURN_TIMEOUT" thread tx w]
    by (simp add: c commit_runs_def start_phase_def)
  moreover have "lone_runs thread tx (after_commit (w_now w1) out, w1)
      (poll_end (deliver thread tx w))"
    using poll_loop_runs [of thread tx "w_now w1 + TURN_TIMEOUT" _ _ w1]
    by (cases out) (auto simp: deliver_def c begin_poll_def poll_end_def)
  ultimately have "lone_runs thread tx (start_phase (w_now w), w)
      (poll_end (deliver thread tx w))"
    by (rule rtranclp_trans)
  then show ?thesis
    by (cases "deliver thread tx w") (auto simp: poll_end_def dest: lone_runs_unique)
qed

end
