(* ===== verification/Attach_Safety.thy ===== *)
theory Attach_Safety
  imports Attach
begin

text \<open>
  A bus message enters a Codex thread at most once. The trace of a delivery is examined
  for commit points: injecting requests that were not definitively refused. Whatever the
  app-server answers and wherever the connection is lost, a delivery makes at most one of
  them; \<open>Unreachable\<close>, the only retriable outcome, is reported before any; and
  \<open>Delivered\<close> only when the committed turn was read as completed.
\<close>

type_synonym trace_entry = "string \<times> json \<times> call_result"

definition injects :: "trace_entry \<Rightarrow> bool" where
  "injects e \<longleftrightarrow> fst e = ''turn/start'' \<or> fst e = ''turn/steer''"

definition refused :: "call_result \<Rightarrow> bool" where
  "refused r \<longleftrightarrow> (case r of Inl (Rpc _) \<Rightarrow> True | _ \<Rightarrow> False)"

definition committed :: "trace_entry \<Rightarrow> bool" where
  "committed e \<longleftrightarrow> injects e \<and> \<not> refused (snd (snd e))"

definition carries :: "string \<Rightarrow> string \<Rightarrow> trace_entry \<Rightarrow> bool" where
  "carries thread txt e \<longleftrightarrow> (injects e \<longrightarrow> fst (snd e) = start_params thread txt \<or>
     (\<exists>turn. fst (snd e) = steer_params thread turn txt))"

definition count_of :: "string \<Rightarrow> trace_entry list \<Rightarrow> nat" where
  "count_of m tr = length (filter (\<lambda>e. fst e = m) tr)"

definition commits :: "trace_entry list \<Rightarrow> nat" where
  "commits tr = length (filter committed tr)"

lemma commits_simps [simp]: "commits [] = 0" "commits (e # tr) = of_bool (committed e) + commits tr"
  "commits (tr @ tr') = commits tr + commits tr'"
  by (simp_all add: commits_def)

lemma count_of_simps [simp]: "count_of m [] = 0" "count_of m (e # tr) = of_bool (fst e = m) + count_of m tr"
  "count_of m (tr @ tr') = count_of m tr + count_of m tr'"
  by (simp_all add: count_of_def)

lemma refused_simps [simp]: "refused (Inl (Rpc e))" "\<not> refused (Inl (Transport e))" "\<not> refused (Inr v)"
  by (simp_all add: refused_def)

lemma committed_simps [simp]:
  "\<not> committed (''thread/read'', p, r)" "\<not> committed (''thread/resume'', p, r)"
  "committed (''turn/start'', p, r) \<longleftrightarrow> \<not> refused r" "committed (''turn/steer'', p, r) \<longleftrightarrow> \<not> refused r"
  by (simp_all add: committed_def injects_def)

lemma carries_simps [simp]:
  "carries th tx (''thread/read'', p, r)" "carries th tx (''thread/resume'', p, r)"
  "carries th tx (''turn/start'', start_params th tx, r)" "carries th tx (''turn/steer'', steer_params th t tx, r)"
  by (auto simp: carries_def injects_def)

lemma call_trace: "call m p w = (r, w') \<Longrightarrow> w_trace w' = w_trace w @ [(m, p, r)]"
  by (auto simp: call_def Let_def split: prod.splits list.splits if_splits)

lemma thread_state_trace:
  "thread_state th w = (s, w') \<Longrightarrow> \<exists>r. w_trace w' = w_trace w @ [(''thread/read'', read_params th, r)]"
  by (auto simp: thread_state_def Let_def split: prod.splits dest!: call_trace)

lemma resume_trace:
  "resume_thread th w = (r, w') \<Longrightarrow> w_trace w' = w_trace w @ [(''thread/resume'', JObj [(''threadId'', JStr th)], r)]"
  by (auto simp: resume_thread_def dest!: call_trace)

lemma sleep_trace [simp]: "w_trace (sleep d w) = w_trace w"
  by (simp add: sleep_def)

text \<open>What the commit loop did, from its outcome and the trace it added.\<close>

definition commit_spec :: "bool \<Rightarrow> bool \<Rightarrow> string \<Rightarrow> string \<Rightarrow> (delivered + string \<times> string) \<Rightarrow> trace_entry list \<Rightarrow> bool" where
  "commit_spec resumed steer_refused th tx r tr \<longleftrightarrow>
     list_all (carries th tx) tr \<and> commits tr \<le> 1 \<and>
     count_of ''thread/resume'' tr \<le> of_bool (\<not> resumed) \<and> count_of ''turn/steer'' tr \<le> of_bool (\<not> steer_refused) \<and>
     (case r of Inr _ \<Rightarrow> commits tr = 1 | Inl (Unreachable _) \<Rightarrow> commits tr = 0
        | Inl (DeliveryFailed _) \<Rightarrow> True | Inl Delivered \<Rightarrow> False)"

lemma commit_spec_more:
  assumes "commit_spec resumed' sr' th tx r tr" and "list_all (carries th tx) pre" and "commits pre = 0"
    and "count_of ''thread/resume'' pre + of_bool (\<not> resumed') \<le> of_bool (\<not> resumed)"
    and "count_of ''turn/steer'' pre + of_bool (\<not> sr') \<le> of_bool (\<not> sr)"
  shows "commit_spec resumed sr th tx r (pre @ tr)"
  using assms unfolding commit_spec_def by (auto split: sum.splits delivered.splits)

lemma call_elapsed: "call m p w = (r, w') \<Longrightarrow> w_now w' \<le> w_now w + CALL_TIMEOUT"
  by (auto simp: call_def Let_def split: prod.splits list.splits if_splits)

lemma elapsed:
  "thread_state th w = (s, w') \<Longrightarrow> w_now w' \<le> w_now w + CALL_TIMEOUT"
  "turn_status th t w = (u, w') \<Longrightarrow> w_now w' \<le> w_now w + CALL_TIMEOUT"
  "resume_thread th w = (v, w') \<Longrightarrow> w_now w' \<le> w_now w + CALL_TIMEOUT"
  by (auto simp: thread_state_def turn_status_def resume_thread_def Let_def split: prod.splits dest: call_elapsed)

text \<open>One pass of the loop, by how it ends: the delivery is over or committed, or the loop goes
  round with a flag set or after a sleep.\<close>

definition last_pass :: "string \<Rightarrow> string \<Rightarrow> bool \<times> bool \<times> world \<Rightarrow> (delivered + string \<times> string) \<times> world \<Rightarrow> bool" where
  "last_pass th tx = (\<lambda>(resumed, sr, w) (r, w'). \<exists>tr. w_trace w' = w_trace w @ tr \<and> commit_spec resumed sr th tx r tr \<and>
     w_now w' \<le> w_now w + 3 * CALL_TIMEOUT)"

definition flags_left :: "bool \<Rightarrow> bool \<Rightarrow> nat" where
  "flags_left resumed sr = of_bool (\<not> resumed) + of_bool (\<not> sr)"

definition more_pass :: "nat \<Rightarrow> string \<Rightarrow> string \<Rightarrow> bool \<times> bool \<times> world \<Rightarrow> bool \<times> bool \<times> world \<Rightarrow> bool" where
  "more_pass deadline th tx = (\<lambda>(resumed, sr, w) (resumed', sr', w'). \<exists>tr. w_trace w' = w_trace w @ tr \<and>
     list_all (carries th tx) tr \<and> commits tr = 0 \<and>
     count_of ''thread/resume'' tr + of_bool (\<not> resumed') \<le> of_bool (\<not> resumed) \<and>
     count_of ''turn/steer'' tr + of_bool (\<not> sr') \<le> of_bool (\<not> sr) \<and>
     (flags_left resumed' sr' < flags_left resumed sr \<and> w_now w' \<le> w_now w + 3 * CALL_TIMEOUT \<or>
      resumed' = resumed \<and> sr' = sr \<and> w_now w < w_now w' \<and> w_now w' \<le> deadline + POLL_INTERVAL))"

definition pass_ok :: "nat \<Rightarrow> string \<Rightarrow> string \<Rightarrow> bool \<times> bool \<times> world \<Rightarrow> (delivered + string \<times> string) \<times> world \<Rightarrow> bool" where
  "pass_ok deadline th tx s out \<longleftrightarrow> last_pass th tx s out \<or>
     (\<exists>resumed sr w. more_pass deadline th tx s (resumed, sr, w) \<and> commit_loop resumed sr deadline th tx w = out)"

lemma last_passI:
  "w_trace w' = w_trace w @ tr \<Longrightarrow> w_now w' \<le> w_now w + 3 * CALL_TIMEOUT \<Longrightarrow> commit_spec resumed sr th tx r tr \<Longrightarrow>
    pass_ok deadline th tx (resumed, sr, w) (r, w')"
  by (auto simp: pass_ok_def last_pass_def)

lemma more_passI:
  "commit_loop resumed' sr' deadline th tx w2 = out \<Longrightarrow> w_trace w2 = w_trace w @ tr \<Longrightarrow>
    list_all (carries th tx) tr \<and> commits tr = 0 \<and>
     count_of ''thread/resume'' tr + of_bool (\<not> resumed') \<le> of_bool (\<not> resumed) \<and>
     count_of ''turn/steer'' tr + of_bool (\<not> sr') \<le> of_bool (\<not> sr) \<Longrightarrow>
    flags_left resumed' sr' < flags_left resumed sr \<and> w_now w2 \<le> w_now w + 3 * CALL_TIMEOUT \<or>
      resumed' = resumed \<and> sr' = sr \<and> w_now w < w_now w2 \<and> w_now w2 \<le> deadline + POLL_INTERVAL \<Longrightarrow>
    pass_ok deadline th tx (resumed, sr, w) out"
  unfolding pass_ok_def more_pass_def by (rule disjI2, rule exI [of _ resumed'], rule exI [of _ sr'], rule exI [of _ w2]) auto

lemma pass_read_error:
  assumes st: "thread_state th w = (Inl err, w1)" and run: "commit_loop resumed sr deadline th tx w = out"
  shows "pass_ok deadline th tx (resumed, sr, w) out"
proof -
  from thread_state_trace [OF st] obtain rr where t1: "w_trace w1 = w_trace w @ [(''thread/read'', read_params th, rr)]" by blast
  note e1 = elapsed(1) [OF st]
  obtain q w2 where q: "resume_thread th w1 = (q, w2)" by fastforce
  note t2 = resume_trace [OF q] and e2 = elapsed(3) [OF q]
  show ?thesis
  proof (cases "\<exists>e. err = Rpc e \<and> \<not> thread_gone e \<and> \<not> resumed \<and> unload_hint e")
    case False
    with run st obtain r where "out = (Inl r, w1)" "r \<noteq> Delivered" 
      unfolding commit_loop.simps [of resumed sr deadline th tx w] by (auto split: call_error.splits if_splits)
    with t1 e1 show ?thesis by (cases out) (auto intro!: last_passI simp: commit_spec_def split: delivered.splits)
  next
    case True
    show ?thesis
    proof (cases q)
      case (Inl x)
      with run st True q have "\<exists>r. out = (Inl r, w2) \<and> r \<noteq> Delivered"
        unfolding commit_loop.simps [of resumed sr deadline th tx w] by (auto split: call_error.splits if_splits)
      with t1 t2 e1 e2 True show ?thesis by (cases out) (auto intro!: last_passI simp: commit_spec_def split: delivered.splits)
    next
      case (Inr v)
      with run st True q have "commit_loop True sr deadline th tx w2 = out"
        unfolding commit_loop.simps [of resumed sr deadline th tx w] by auto
      then show ?thesis by (rule more_passI) (use t1 t2 e1 e2 True in \<open>auto simp: flags_left_def\<close>)
    qed
  qed
qed

lemma pass_idle:
  assumes st: "thread_state th w = (Inr Idle, w1)" and run: "commit_loop resumed sr deadline th tx w = out"
  shows "pass_ok deadline th tx (resumed, sr, w) out"
proof -
  from thread_state_trace [OF st] obtain rr where t1: "w_trace w1 = w_trace w @ [(''thread/read'', read_params th, rr)]" by blast
  obtain q w2 where q: "call ''turn/start'' (start_params th tx) w1 = (q, w2)" by fastforce
  obtain q' w3 where q': "resume_thread th w2 = (q', w3)" by fastforce
  note es = elapsed(1) [OF st] call_elapsed [OF q] elapsed(3) [OF q']
  note ts = t1 call_trace [OF q] resume_trace [OF q']
  show ?thesis
  proof (cases "\<exists>e. q = Inl (Rpc e) \<and> \<not> thread_gone e \<and> \<not> resumed \<and> unload_hint e")
    case False
    with run st q have "\<exists>r. out = (r, w2) \<and> (case r of Inl (DeliveryFailed _) \<Rightarrow> True | Inr _ \<Rightarrow> \<not> refused q | _ \<Rightarrow> False)"
      unfolding commit_loop.simps [of resumed sr deadline th tx w]
      by (auto simp: refused_def split: sum.splits call_error.splits option.splits if_splits)
    with ts es show ?thesis by (cases out) (auto intro!: last_passI simp: commit_spec_def split: sum.splits delivered.splits)
  next
    case True
    then obtain e where e: "q = Inl (Rpc e)" "\<not> thread_gone e" "\<not> resumed" "unload_hint e" by blast
    show ?thesis
    proof (cases q')
      case (Inl x)
      with run st q q' e have "\<exists>r. out = (Inl (DeliveryFailed r), w3)"
        unfolding commit_loop.simps [of resumed sr deadline th tx w] by (auto split: call_error.splits)
      with ts es e show ?thesis by (cases out) (auto intro!: last_passI simp: commit_spec_def)
    next
      case (Inr v)
      with run st q q' e have "commit_loop True sr deadline th tx w3 = out"
        unfolding commit_loop.simps [of resumed sr deadline th tx w] by auto
      then show ?thesis by (rule more_passI) (use ts es e in \<open>auto simp: flags_left_def\<close>)
    qed
  qed
qed

lemma pass_busy:
  assumes st: "thread_state th w = (Inr (Busy t), w1)" and run: "commit_loop resumed sr deadline th tx w = out"
  shows "pass_ok deadline th tx (resumed, sr, w) out"
proof -
  from thread_state_trace [OF st] obtain rr where t1: "w_trace w1 = w_trace w @ [(''thread/read'', read_params th, rr)]" by blast
  note now1 = thread_state_now [OF st] elapsed(1) [OF st]
  show ?thesis
  proof (cases "t \<noteq> None \<and> \<not> sr")
    case True
    then obtain turn where turn: "t = Some turn" by blast
    obtain q w2 where q: "call ''turn/steer'' (steer_params th turn tx) w1 = (q, w2)" by fastforce
    note ts = t1 call_trace [OF q] and es = elapsed(1) [OF st] call_elapsed [OF q]
    show ?thesis
    proof (cases "\<exists>e. q = Inl (Rpc e)")
      case False
      with run st q turn True have "\<exists>r. out = (r, w2) \<and> (case r of Inl (DeliveryFailed _) \<Rightarrow> True | Inr _ \<Rightarrow> \<not> refused q | _ \<Rightarrow> False)"
        unfolding commit_loop.simps [of resumed sr deadline th tx w]
        by (auto simp: refused_def split: sum.splits call_error.splits option.splits)
      with ts es True show ?thesis by (cases out) (auto intro!: last_passI simp: commit_spec_def split: sum.splits delivered.splits)
    next
      case refusal: True
      with run st q turn True have "commit_loop resumed True deadline th tx w2 = out"
        unfolding commit_loop.simps [of resumed sr deadline th tx w] by auto
      then show ?thesis by (rule more_passI) (use ts es refusal True in \<open>auto simp: flags_left_def\<close>)
    qed
  next
    case False
    show ?thesis
    proof (cases "w_now w1 > deadline")
      case True
      with run st False have "\<exists>r. out = (Inl (DeliveryFailed r), w1)"
        unfolding commit_loop.simps [of resumed sr deadline th tx w] by (auto split: option.splits)
      with t1 now1 show ?thesis by (cases out) (auto intro!: last_passI simp: commit_spec_def)
    next
      case early: False
      with run st False have "commit_loop resumed sr deadline th tx (sleep POLL_INTERVAL w1) = out"
        unfolding commit_loop.simps [of resumed sr deadline th tx w] by (auto split: option.splits)
      then show ?thesis
        by (rule more_passI) (use t1 now1 early in \<open>auto simp: sleep_def POLL_INTERVAL_def\<close>)
    qed
  qed
qed

lemma commit_loop_pass: "commit_loop resumed sr deadline th tx w = out \<Longrightarrow> pass_ok deadline th tx (resumed, sr, w) out"
  using pass_read_error pass_idle pass_busy by (metis sum.exhaust thread_state.exhaust prod.exhaust)

lemma lex_induct [case_names less]:
  fixes P :: "nat \<times> nat \<Rightarrow> bool"
  assumes "\<And>x. (\<And>y. fst y < fst x \<or> fst y = fst x \<and> snd y < snd x \<Longrightarrow> P y) \<Longrightarrow> P x"
  shows "P x"
proof (induction x rule: wf_induct_rule [OF wf_lex_prod [OF wf_less_than wf_less_than]])
  case (1 x)
  show ?case by (rule assms) (rule 1, cases x, auto)
qed

lemma commit_loop_rule:
  assumes run: "commit_loop resumed sr deadline th tx w = out"
    and stop: "\<And>s. last_pass th tx s out \<Longrightarrow> P s"
    and again: "\<And>s s'. more_pass deadline th tx s s' \<Longrightarrow> P s' \<Longrightarrow> P s"
  shows "P (resumed, sr, w)"
  using run
proof (induction "(flags_left resumed sr, Suc (deadline + POLL_INTERVAL) - w_now w)" arbitrary: resumed sr w rule: lex_induct)
  case less
  from commit_loop_pass [OF less.prems] show ?case unfolding pass_ok_def
  proof (elim disjE exE conjE)
    fix resumed' sr' w' assume more: "more_pass deadline th tx (resumed, sr, w) (resumed', sr', w')"
      and go: "commit_loop resumed' sr' deadline th tx w' = out"
    from more have "flags_left resumed' sr' < flags_left resumed sr \<or> flags_left resumed' sr' = flags_left resumed sr \<and>
        Suc (deadline + POLL_INTERVAL) - w_now w' < Suc (deadline + POLL_INTERVAL) - w_now w"
      by (auto simp: more_pass_def)
    then have "P (resumed', sr', w')" by (intro less.hyps [OF _ go]) simp
    with more show ?thesis by (rule again)
  qed (rule stop)
qed

lemma commit_loop_spec:
  assumes "commit_loop resumed steer_refused deadline thread tx w = (r, w')"
  shows "\<exists>tr. w_trace w' = w_trace w @ tr \<and> commit_spec resumed steer_refused thread tx r tr"
  using commit_loop_rule [OF assms, of "\<lambda>(resumed, sr, w). \<exists>tr. w_trace w' = w_trace w @ tr \<and> commit_spec resumed sr thread tx r tr"]
  by (fastforce simp: last_pass_def more_pass_def intro: commit_spec_more)

lemma commit_loop_time:
  assumes "commit_loop resumed sr deadline th tx w = (r, w')"
  shows "w_now w' \<le> max (deadline + POLL_INTERVAL) (w_now w) + 3 * CALL_TIMEOUT * Suc (flags_left resumed sr)"
proof -
  let ?P = "\<lambda>(resumed, sr, w). w_now w' \<le> max (deadline + POLL_INTERVAL) (w_now w) + 3 * CALL_TIMEOUT * Suc (flags_left resumed sr)"
  have stop: "?P s" if "last_pass th tx s (r, w')" for s
    using that by (cases s) (auto simp: last_pass_def)
  have again: "?P s" if "more_pass deadline th tx s s'" and "?P s'" for s s'
  proof -
    obtain resumed sr w resumed' sr' w2 where s: "s = (resumed, sr, w)" "s' = (resumed', sr', w2)" by (cases s, cases s') auto
    define f f' where "f = flags_left resumed sr" and "f' = flags_left resumed' sr'"
    from that(1) s have "f' < f \<and> w_now w2 \<le> w_now w + 3 * CALL_TIMEOUT \<or> f' = f \<and> w_now w2 \<le> deadline + POLL_INTERVAL"
      by (auto simp: more_pass_def f_def f'_def)
    moreover from that(2) s have "w_now w' \<le> max (deadline + POLL_INTERVAL) (w_now w2) + 3 * CALL_TIMEOUT * Suc f'" by (simp add: f'_def)
    moreover have "3 * CALL_TIMEOUT * Suc f' + 3 * CALL_TIMEOUT \<le> 3 * CALL_TIMEOUT * Suc f" if "f' < f"
      using mult_le_mono2 [of "Suc (Suc f')" "Suc f" "3 * CALL_TIMEOUT"] that by simp
    ultimately have "w_now w' \<le> max (deadline + POLL_INTERVAL) (w_now w) + 3 * CALL_TIMEOUT * Suc f"
      by (auto simp: max_def split: if_splits)
    with s show ?thesis by (simp add: f_def)
  qed
  show ?thesis using commit_loop_rule [OF assms, of ?P, OF stop again] by simp
qed

section \<open>Polling\<close>

definition poll_spec :: "string \<Rightarrow> delivered \<Rightarrow> trace_entry list \<Rightarrow> bool" where
  "poll_spec turn r tr \<longleftrightarrow> list_all (\<lambda>e. fst e = ''thread/read'') tr \<and> (\<forall>e. r \<noteq> Unreachable e) \<and>
     (r = Delivered \<longrightarrow> tr \<noteq> [] \<and> classify_poll turn (snd (snd (last tr))) = Inr (Some ''completed''))"

lemma turn_status_trace: "turn_status th turn w = (s, w') \<Longrightarrow>
    \<exists>r. w_trace w' = w_trace w @ [(''thread/read'', read_params th, r)] \<and> s = classify_poll turn r"
  by (auto simp: turn_status_def Let_def split: prod.splits dest!: call_trace)

lemma poll_loop_spec:
  assumes "poll_loop deadline thread turn mode w = (r, w')"
  shows "\<exists>tr. w_trace w' = w_trace w @ tr \<and> poll_spec turn r tr"
  using assms
proof (induction deadline thread turn mode w arbitrary: r w' rule: poll_loop.induct)
  case (1 deadline thread turn mode w)
  obtain s w1 where st: "turn_status thread turn (sleep POLL_INTERVAL w) = (s, w1)" by fastforce
  then obtain rr where w1: "w_trace w1 = w_trace w @ [(''thread/read'', read_params thread, rr)]" "s = classify_poll turn rr"
    by (auto dest!: turn_status_trace)
  note run = "1.prems" [unfolded poll_loop.simps [of deadline thread turn mode w] st]
  show ?case
  proof (cases "w' = w1 \<and> (r = Delivered \<longrightarrow> s = Inr (Some ''completed'')) \<and> (\<forall>e. r \<noteq> Unreachable e)")
    case True
    with w1 show ?thesis
      by (intro exI [of _ "[(''thread/read'', read_params thread, rr)]"]) (auto simp: poll_spec_def)
  next
    case False
    with run obtain b where b: "s = Inr b" "b \<noteq> Some ''completed''"
        "b \<notin> {Some ''failed'', Some ''error'', Some ''interrupted''}" "\<not> w_now w1 > deadline"
      and go: "poll_loop deadline thread turn mode w1 = (r, w')"
      by (auto split: sum.splits call_error.splits if_splits)
    have "\<exists>tr. w_trace w' = w_trace w1 @ tr \<and> poll_spec turn r tr"
      by (rule "1.IH" [OF st [symmetric] b go])
    then obtain tr where "w_trace w' = w_trace w1 @ tr" "poll_spec turn r tr" by blast
    with w1(1) show ?thesis
      by (intro exI [of _ "(''thread/read'', read_params thread, rr) # tr"]) (auto simp: poll_spec_def)
  qed
qed

lemma reads_commit_nothing: "list_all (\<lambda>e. fst e = ''thread/read'') tr \<Longrightarrow>
    commits tr = 0 \<and> count_of ''thread/resume'' tr = 0 \<and> count_of ''turn/steer'' tr = 0 \<and> list_all (carries th tx) tr"
  by (induction tr) (auto simp: committed_def injects_def carries_def)

lemma deliver_spec:
  assumes "deliver thread tx w = (r, w')"
  shows "\<exists>tr. w_trace w' = w_trace w @ tr \<and> list_all (carries thread tx) tr \<and> commits tr \<le> 1 \<and>
    count_of ''thread/resume'' tr \<le> 1 \<and> count_of ''turn/steer'' tr \<le> 1 \<and>
    (case r of Unreachable _ \<Rightarrow> commits tr = 0
      | Delivered \<Rightarrow> commits tr = 1 \<and> tr \<noteq> [] \<and> (\<exists>turn. classify_poll turn (snd (snd (last tr))) = Inr (Some ''completed''))
      | DeliveryFailed _ \<Rightarrow> True)"
proof -
  obtain q w1 where c: "commit_loop False False (w_now w + TURN_TIMEOUT) thread tx w = (q, w1)" by fastforce
  from commit_loop_spec [OF c] obtain tr where tr: "w_trace w1 = w_trace w @ tr" "commit_spec False False thread tx q tr" by blast
  show ?thesis
  proof (cases q)
    case (Inl d)
    with assms c have "r = d" "w' = w1" by (simp_all add: deliver_def)
    with tr Inl show ?thesis by (intro exI [of _ tr]) (auto simp: commit_spec_def split: delivered.splits)
  next
    case (Inr tm)
    then obtain turn mode where tm: "q = Inr (turn, mode)" by (cases tm) auto
    with assms c have "poll_loop (w_now w1 + TURN_TIMEOUT) thread turn mode w1 = (r, w')" by (simp add: deliver_def)
    from poll_loop_spec [OF this] obtain tr2 where tr2: "w_trace w' = w_trace w1 @ tr2" "poll_spec turn r tr2" by blast
    then have reads: "commits tr2 = 0" "count_of ''thread/resume'' tr2 = 0" "count_of ''turn/steer'' tr2 = 0"
      "list_all (carries thread tx) tr2"
      using reads_commit_nothing [of tr2 thread tx] by (auto simp: poll_spec_def)
    from tr tm have "list_all (carries thread tx) tr" "commits tr = 1" "count_of ''thread/resume'' tr \<le> 1"
      "count_of ''turn/steer'' tr \<le> 1" by (auto simp: commit_spec_def)
    with reads tr(1) tr2 show ?thesis
      by (intro exI [of _ "tr @ tr2"]) (auto simp: poll_spec_def split: delivered.splits)
  qed
qed

section \<open>Time\<close>

lemma poll_loop_time:
  assumes "poll_loop deadline thread turn mode w = (r, w')"
  shows "w_now w' \<le> max deadline (w_now w) + POLL_INTERVAL + CALL_TIMEOUT"
  using assms
proof (induction deadline thread turn mode w arbitrary: r w' rule: poll_loop.induct)
  case (1 deadline thread turn mode w)
  obtain s w1 where st: "turn_status thread turn (sleep POLL_INTERVAL w) = (s, w1)" by fastforce
  from elapsed(2) [OF st] have w1: "w_now w1 \<le> w_now w + POLL_INTERVAL + CALL_TIMEOUT" by (simp add: sleep_def)
  note run = "1.prems" [unfolded poll_loop.simps [of deadline thread turn mode w] st]
  show ?case
  proof (cases "w' = w1")
    case True
    with w1 show ?thesis by (auto simp: max_def)
  next
    case False
    with run obtain b where b: "s = Inr b" "b \<noteq> Some ''completed''"
        "b \<notin> {Some ''failed'', Some ''error'', Some ''interrupted''}" "\<not> w_now w1 > deadline"
      and go: "poll_loop deadline thread turn mode w1 = (r, w')"
      by (auto split: sum.splits call_error.splits if_splits)
    from "1.IH" [OF st [symmetric] b go] b(4) show ?thesis by (auto simp: max_def)
  qed
qed

lemma poll_loop_total_time:
  assumes "poll_loop (w_now w + TURN_TIMEOUT) thread turn mode w = (r, w')"
  shows "w_now w' \<le> w_now w + 331500"
  using poll_loop_time [OF assms] by (simp add: TURN_TIMEOUT_def POLL_INTERVAL_def CALL_TIMEOUT_def)

lemma commit_loop_total_time:
  assumes "commit_loop False False (w_now w + TURN_TIMEOUT) thread tx w = (r, w')"
  shows "w_now w' \<le> w_now w + 571500"
  using commit_loop_time [OF assms] by (simp add: TURN_TIMEOUT_def POLL_INTERVAL_def CALL_TIMEOUT_def flags_left_def)

section \<open>Properties\<close>


definition demo_world :: world where
  "demo_world = \<lparr>w_now = 0, w_answers =
     [(5, Inl (Rpc ''thread not loaded'')), (7, Inr JNull), (5, Inr (JObj [])),
      (9, Inr (JObj [(''turn'', JObj [(''id'', JStr ''t1'')])])),
      (5, Inr (JObj [(''thread'', JObj [(''turns'', JArr [JObj [(''id'', JStr ''t1''), (''status'', JStr ''completed'')]])])]))],
     w_trace = []\<rparr>"



end
