(* ===== verification/Attach_Client.thy ===== *)
theory Attach_Client
  imports Attach_Machine Attach_Safety
begin

text \<open>
  One \<open>CodexAttach\<close> shared by concurrent deliveries: the call ids, the map of the calls in
  flight, the lock per thread, the writer and reader tasks of the connection, and the
  deliveries themselves, each at one of its await points. A step of the client is one task
  running from an await point to the next, one frame read, or the end of the connection, in
  any order and with any delay, so that what is proved holds for every schedule.
\<close>

section \<open>State\<close>

datatype wait = Unsent | InFlight u64 nat | Settled call_result

datatype run = Queued | Running phase wait

record delivery_task =
  t_thread :: string
  t_text :: string
  t_run :: run
  t_trace :: "trace_entry list"

record attach_client =
  c_now :: nat
  c_next :: u64
  c_pending :: "u64 \<rightharpoonup> nat"
  c_locks :: "string \<rightharpoonup> nat option"
  c_tasks :: "nat \<rightharpoonup> delivery_task"
  c_wire :: "(nat \<times> string \<times> json) list"
  c_reader :: bool
  c_writer :: bool

text \<open>The client as \<open>connect\<close> returns it: id 1 went to \<open>initialize\<close>, which has been answered.\<close>

definition new_client :: "nat \<Rightarrow> attach_client" where
  "new_client now = \<lparr>c_now = now, c_next = 2, c_pending = Map.empty, c_locks = Map.empty,
     c_tasks = Map.empty, c_wire = [], c_reader = True, c_writer = True\<rparr>"

fun ended :: "phase \<Rightarrow> bool" where
  "ended (Ended _) = True"
| "ended _ = False"

section \<open>Operations\<close>

text \<open>The lock of a thread is made, free, when it is first asked for.\<close>

definition thread_lock :: "string \<Rightarrow> (string \<rightharpoonup> nat option) \<Rightarrow> (string \<rightharpoonup> nat option)" where
  "thread_lock thread locks = (case locks thread of Some _ \<Rightarrow> locks | None \<Rightarrow> locks(thread \<mapsto> None))"

definition enter :: "nat \<Rightarrow> string \<Rightarrow> string \<Rightarrow> attach_client \<Rightarrow> attach_client" where
  "enter k thread txt c = c\<lparr>c_locks := thread_lock thread (c_locks c),
     c_tasks := (c_tasks c)(k \<mapsto> \<lparr>t_thread = thread, t_text = txt, t_run = Queued, t_trace = []\<rparr>)\<rparr>"

definition acquire :: "nat \<Rightarrow> delivery_task \<Rightarrow> attach_client \<Rightarrow> attach_client" where
  "acquire k t c = c\<lparr>c_locks := (c_locks c)(t_thread t \<mapsto> Some k),
     c_tasks := (c_tasks c)(k \<mapsto> t\<lparr>t_run := Running (start_phase (c_now c)) Unsent\<rparr>)\<rparr>"

text \<open>The sender of a call's channel is used, or dropped with its map entry.\<close>

definition settle_task :: "call_result \<Rightarrow> delivery_task \<Rightarrow> delivery_task" where
  "settle_task r t = (case t_run t of
      Running p (InFlight _ _) \<Rightarrow> t\<lparr>t_run := Running p (Settled r)\<rparr> | _ \<Rightarrow> t)"

definition settle :: "nat option \<Rightarrow> call_result \<Rightarrow> (nat \<rightharpoonup> delivery_task) \<Rightarrow> (nat \<rightharpoonup> delivery_task)" where
  "settle k r tasks = (\<lambda>j. if k = Some j then map_option (settle_task r) (tasks j) else tasks j)"

text \<open>The first half of \<open>call\<close>, up to its await: a fresh id (the counter wraps), the channel
  registered under it, the request handed to the writer unless that has stopped; \<open>c_wire\<close>
  is what the writer was handed. A frame, or the end of the stream, that falls between
  registering and handing over acts as one right after the step.\<close>

definition issue :: "nat \<Rightarrow> delivery_task \<Rightarrow> phase \<Rightarrow> string \<Rightarrow> json \<Rightarrow> attach_client \<Rightarrow> attach_client" where
  "issue k t p m ps c =
     (let i = c_next c; tasks = settle (c_pending c i) closed (c_tasks c) in
      if c_writer c then
        c\<lparr>c_next := i + 1, c_pending := (c_pending c)(i \<mapsto> k),
          c_tasks := tasks(k \<mapsto> t\<lparr>t_run := Running p (InFlight i (c_now c))\<rparr>),
          c_wire := c_wire c @ [(k, m, ps)]\<rparr>
      else
        c\<lparr>c_next := i + 1, c_pending := (c_pending c)(i := None),
          c_tasks := tasks(k \<mapsto> t\<lparr>t_run := Running p (Settled closed)\<rparr>)\<rparr>)"

definition read_frame :: "json \<Rightarrow> attach_client \<Rightarrow> attach_client" where
  "read_frame v c = (case frame_response v of
      Some (i, r) \<Rightarrow> c\<lparr>c_pending := (c_pending c)(i := None),
        c_tasks := settle (c_pending c i) r (c_tasks c)\<rparr>
    | None \<Rightarrow> c)"

definition stream_ends :: "attach_client \<Rightarrow> attach_client" where
  "stream_ends c = c\<lparr>c_reader := False, c_pending := Map.empty,
     c_tasks := (\<lambda>j. if j \<in> ran (c_pending c)
        then map_option (settle_task (Inl (Transport ''app-server connection closed''))) (c_tasks c j)
        else c_tasks c j)\<rparr>"

definition give_up :: "nat \<Rightarrow> delivery_task \<Rightarrow> phase \<Rightarrow> u64 \<Rightarrow> attach_client \<Rightarrow> attach_client" where
  "give_up k t p i c = c\<lparr>c_pending := (c_pending c)(i := None),
     c_tasks := (c_tasks c)(k \<mapsto> t\<lparr>t_run := Running p (Settled timed_out)\<rparr>)\<rparr>"

text \<open>The call returns and the delivery goes on to its next await point; at its end the guard
  of the thread's lock is dropped.\<close>

definition resume_task :: "nat \<Rightarrow> delivery_task \<Rightarrow> phase \<Rightarrow> call_result \<Rightarrow> attach_client \<Rightarrow> attach_client" where
  "resume_task k t p r c =
     (let q = proceed (c_now c) p r;
          e = (case request_of (t_thread t) (t_text t) p of
             Some (m, ps) \<Rightarrow> [(m, ps, r)] | None \<Rightarrow> []) in
      c\<lparr>c_locks := (if ended q then (c_locks c)(t_thread t \<mapsto> None) else c_locks c),
        c_tasks := (c_tasks c)(k \<mapsto> t\<lparr>t_run := Running q Unsent, t_trace := t_trace t @ e\<rparr>)\<rparr>)"

definition wake_task :: "nat \<Rightarrow> delivery_task \<Rightarrow> phase \<Rightarrow> attach_client \<Rightarrow> attach_client" where
  "wake_task k t q c = c\<lparr>c_tasks := (c_tasks c)(k \<mapsto> t\<lparr>t_run := Running q Unsent\<rparr>)\<rparr>"

section \<open>Steps\<close>

inductive client_step :: "attach_client \<Rightarrow> attach_client \<Rightarrow> bool" where
  Tick: "c_now c \<le> now \<Longrightarrow> client_step c (c\<lparr>c_now := now\<rparr>)"
| Enter: "c_tasks c k = None \<Longrightarrow> client_step c (enter k thread txt c)"
| Acquire: "\<lbrakk>c_tasks c k = Some t; t_run t = Queued; c_locks c (t_thread t) = Some None\<rbrakk>
    \<Longrightarrow> client_step c (acquire k t c)"
| Issue: "\<lbrakk>c_tasks c k = Some t; t_run t = Running p Unsent;
      request_of (t_thread t) (t_text t) p = Some (m, ps)\<rbrakk>
    \<Longrightarrow> client_step c (issue k t p m ps c)"
| Frame: "c_reader c \<Longrightarrow> client_step c (read_frame v c)"
| Stream_End: "c_reader c \<Longrightarrow> client_step c (stream_ends c)"
| Writer_End: "client_step c (c\<lparr>c_writer := False\<rparr>)"
| Timeout: "\<lbrakk>c_tasks c k = Some t; t_run t = Running p (InFlight i since); since + CALL_TIMEOUT \<le> c_now c\<rbrakk>
    \<Longrightarrow> client_step c (give_up k t p i c)"
| Return: "\<lbrakk>c_tasks c k = Some t; t_run t = Running p (Settled r)\<rbrakk>
    \<Longrightarrow> client_step c (resume_task k t p r c)"
| Wake: "\<lbrakk>c_tasks c k = Some t; t_run t = Running p Unsent; wakes p = Some (until, q); until \<le> c_now c\<rbrakk>
    \<Longrightarrow> client_step c (wake_task k t q c)"

inductive client_reachable :: "attach_client \<Rightarrow> bool" where
  init: "client_reachable (new_client now)"
| step: "\<lbrakk>client_reachable c; client_step c c'\<rbrakk> \<Longrightarrow> client_reachable c'"

end
