(* ===== verification/Attach_Concurrent.thy ===== *)
theory Attach_Concurrent
  imports Attach_Client
begin

text \<open>
  What one client promises under every interleaving of its deliveries: the lock of a thread
  is held exactly by the delivery that is at work in it, every call in flight has an id of
  its own, the requests of the deliveries into one thread never interleave, and each
  delivery injects its message at most once.
\<close>

section \<open>Tasks\<close>

definition working :: "delivery_task \<Rightarrow> bool" where
  "working t \<longleftrightarrow> (case t_run t of Running p _ \<Rightarrow> \<not> ended p | Queued \<Rightarrow> False)"

definition flying :: "delivery_task \<Rightarrow> u64 \<Rightarrow> bool" where
  "flying t i \<longleftrightarrow> (case t_run t of Running _ (InFlight j _) \<Rightarrow> j = i | _ \<Rightarrow> False)"

definition active :: "attach_client \<Rightarrow> nat \<Rightarrow> string \<Rightarrow> bool" where
  "active c k thread \<longleftrightarrow> (\<exists>t. c_tasks c k = Some t \<and> t_thread t = thread \<and> working t)"

definition in_flight :: "attach_client \<Rightarrow> nat \<Rightarrow> u64 \<Rightarrow> bool" where
  "in_flight c k i \<longleftrightarrow> (\<exists>t. c_tasks c k = Some t \<and> flying t i)"

lemma settle_task_run: "t_run (settle_task r t) = (case t_run t of
    Running p (InFlight _ _) \<Rightarrow> Running p (Settled r) | x \<Rightarrow> x)"
  by (auto simp: settle_task_def split: run.splits wait.splits)

lemma settle_task_simps [simp]:
  "t_thread (settle_task r t) = t_thread t" "t_text (settle_task r t) = t_text t"
  "t_trace (settle_task r t) = t_trace t" "t_run (settle_task r t) = Queued \<longleftrightarrow> t_run t = Queued"
  "working (settle_task r t) = working t" "\<not> flying (settle_task r t) i"
  by (auto simp: settle_task_def working_def flying_def split: run.splits wait.splits)

lemma run_simps [simp]:
  "t_run t = Queued \<Longrightarrow> \<not> working t" "t_run t = Queued \<Longrightarrow> \<not> flying t i"
  "t_run t = Running p w \<Longrightarrow> working t = (\<not> ended p)"
  "t_run t = Running p Unsent \<Longrightarrow> \<not> flying t i" "t_run t = Running p (Settled r) \<Longrightarrow> \<not> flying t i"
  "t_run t = Running p (InFlight j s) \<Longrightarrow> flying t i = (j = i)"
  by (simp_all add: working_def flying_def)

lemma settle_None [simp]: "settle None r tasks = tasks"
  by (simp add: settle_def)

lemma settle_Some [simp]:
  "tasks j = Some t \<Longrightarrow> settle k r tasks j = Some (if k = Some j then settle_task r t else t)"
  by (simp add: settle_def)

lemma active_settle [simp]:
  "active (c\<lparr>c_pending := P, c_tasks := settle k r (c_tasks c)\<rparr>) j th \<longleftrightarrow> active c j th"
  by (cases "c_tasks c j") (auto simp: active_def settle_def)

lemma in_flight_settle [simp]:
  "in_flight (c\<lparr>c_pending := P, c_tasks := settle k r (c_tasks c)\<rparr>) j i \<longleftrightarrow> k \<noteq> Some j \<and> in_flight c j i"
  by (cases "c_tasks c j") (auto simp: in_flight_def settle_def)

lemma active_stream_ends [simp]: "active (stream_ends c) j th \<longleftrightarrow> active c j th"
  by (cases "c_tasks c j") (auto simp: active_def stream_ends_def)

lemma request_not_ended: "request_of th tx p = Some x \<Longrightarrow> \<not> ended p"
  by (cases p) auto

lemma wakes_not_ended: "wakes p = Some (u, q) \<Longrightarrow> \<not> ended p \<and> \<not> ended q"
  by (cases p) auto

lemma start_not_ended [simp]: "\<not> ended (start_phase now)"
  by (simp add: start_phase_def)

text \<open>What \<open>issue\<close> does to the tasks and the wire.\<close>

lemma issue_tasks: "c_tasks (issue k t p m ps c) j =
  (if j = k then Some (t\<lparr>t_run := Running p (if c_writer c then InFlight (c_next c) (c_now c) else Settled closed)\<rparr>)
   else settle (c_pending c (c_next c)) closed (c_tasks c) j)"
  by (simp add: issue_def Let_def)

lemma issue_wire: "c_wire (issue k t p m ps c) = c_wire c @ (if c_writer c then [(k, m, ps)] else [])"
  by (simp add: issue_def Let_def)

lemma issue_pending: "c_pending (issue k t p m ps c) = (c_pending c)(c_next c := if c_writer c then Some k else None)"
  by (simp add: issue_def Let_def)

lemma issue_locks [simp]: "c_locks (issue k t p m ps c) = c_locks c"
  by (simp add: issue_def Let_def)

lemma issue_active:
  assumes "c_tasks c k = Some t" "t_run t = Running p Unsent" "\<not> ended p"
  shows "active (issue k t p m ps c) j th \<longleftrightarrow> active c j th"
  using assms by (cases "c_tasks c j") (auto simp: active_def issue_tasks settle_def)

lemma issue_threads:
  assumes "c_tasks c k = Some t"
  shows "map_option t_thread (c_tasks (issue k t p m ps c) j) = map_option t_thread (c_tasks c j)"
  using assms by (auto simp: issue_tasks settle_def option.map_comp o_def)

section \<open>The locks\<close>

definition locks_ok :: "attach_client \<Rightarrow> bool" where
  "locks_ok c \<longleftrightarrow> (\<forall>k th. active c k th \<longleftrightarrow> c_locks c th = Some (Some k))"

lemma locks_holder: "locks_ok c \<Longrightarrow> c_locks c th = Some (Some k) \<longleftrightarrow>
    (\<exists>t. c_tasks c k = Some t \<and> t_thread t = th \<and> working t)"
  by (simp add: locks_ok_def active_def)

text \<open>A task waiting for a call has one to wait for.\<close>

definition waits_ok :: "attach_client \<Rightarrow> bool" where
  "waits_ok c \<longleftrightarrow> (\<forall>k t p w. c_tasks c k = Some t \<longrightarrow> t_run t = Running p w \<longrightarrow> w \<noteq> Unsent \<longrightarrow>
     request_of (t_thread t) (t_text t) p \<noteq> None)"

lemma waits_live: "\<lbrakk>waits_ok c; c_tasks c k = Some t; t_run t = Running p w; w \<noteq> Unsent\<rbrakk> \<Longrightarrow> \<not> ended p"
  unfolding waits_ok_def by (meson not_None_eq request_not_ended)

lemma waits_step: "client_step c c' \<Longrightarrow> waits_ok c \<Longrightarrow> waits_ok c'"
proof (induction rule: client_step.induct)
  case (Issue c k t p m ps)
  then show ?case
    by (auto simp: waits_ok_def issue_def Let_def settle_def settle_task_run split: if_splits run.splits wait.splits)
qed (auto simp: waits_ok_def enter_def acquire_def read_frame_def settle_def stream_ends_def give_up_def resume_task_def
    wake_task_def settle_task_run Let_def split: option.splits if_splits run.splits wait.splits)

definition same_active :: "attach_client \<Rightarrow> attach_client \<Rightarrow> bool" where
  "same_active c c' \<longleftrightarrow> c_locks c' = c_locks c \<and> (\<forall>k th. active c' k th \<longleftrightarrow> active c k th)"

lemma same_active_locks: "same_active c c' \<Longrightarrow> locks_ok c \<Longrightarrow> locks_ok c'"
  by (simp add: same_active_def locks_ok_def)

lemma locks_step: "client_step c c' \<Longrightarrow> waits_ok c \<Longrightarrow> locks_ok c \<Longrightarrow> locks_ok c'"
proof (induction rule: client_step.induct)
  case (Tick c now)
  then show ?case by (simp add: locks_ok_def active_def)
next
  case (Enter c k th tx)
  then have "c_locks c th' \<noteq> Some (Some k)" for th'
    by (simp add: locks_holder)
  with Enter show ?case
    by (auto simp: locks_ok_def active_def enter_def thread_lock_def split: option.splits)
next
  case (Acquire c k t)
  then have "c_locks c th' \<noteq> Some (Some k)" for th'
    by (simp add: locks_holder)
  with Acquire show ?case
    by (auto simp: locks_ok_def active_def acquire_def)
next
  case (Issue c k t p m ps)
  then have "same_active c (issue k t p m ps c)"
    by (auto simp: same_active_def issue_active request_not_ended)
  with Issue show ?case by (auto intro: same_active_locks)
next
  case (Frame c v)
  then have "same_active c (read_frame v c)"
    by (auto simp: same_active_def read_frame_def split: option.splits)
  with Frame show ?case by (auto intro: same_active_locks)
next
  case (Stream_End c)
  then have "same_active c (stream_ends c)"
    by (simp add: same_active_def) (simp add: stream_ends_def)
  with Stream_End show ?case by (auto intro: same_active_locks)
next
  case (Writer_End c)
  then show ?case by (simp add: locks_ok_def active_def)
next
  case (Timeout c k t p i s)
  then have "same_active c (give_up k t p i c)"
    by (auto simp: same_active_def active_def give_up_def)
  with Timeout show ?case by (auto intro: same_active_locks)
next
  case (Return c k t p r)
  then have "\<not> ended p" by (auto dest: waits_live)
  with Return.hyps have at_work: "active c k (t_thread t)" by (simp add: active_def)
  let ?c = "resume_task k t p r c" and ?over = "ended (proceed (c_now c) p r)"
  have holder: "active c j th \<longleftrightarrow> c_locks c th = Some (Some j)" for j th
    using Return.prems by (simp add: locks_ok_def)
  have now: "active ?c j th \<longleftrightarrow> active c j th \<and> (j = k \<longrightarrow> \<not> ?over)" for j th
    using Return.hyps \<open>\<not> ended p\<close> by (auto simp: active_def resume_task_def Let_def)
  have locks: "c_locks ?c th = (if ?over \<and> th = t_thread t then Some None else c_locks c th)" for th
    by (simp add: resume_task_def Let_def)
  have mine: "active c k th \<longleftrightarrow> th = t_thread t" for th
    using at_work Return.hyps by (auto simp: active_def)
  have "active ?c j th \<longleftrightarrow> c_locks ?c th = Some (Some j)" for j th
    using holder [of j th] holder [of k th] mine [of th] unfolding now locks by auto
  then show ?case by (simp add: locks_ok_def)
next
  case (Wake c k t p u q)
  then have "same_active c (wake_task k t q c)"
    by (auto simp: same_active_def active_def wake_task_def dest: wakes_not_ended)
  with Wake show ?case by (auto intro: same_active_locks)
qed

section \<open>The calls in flight\<close>

definition pending_ok :: "attach_client \<Rightarrow> bool" where
  "pending_ok c \<longleftrightarrow> (\<forall>k i. in_flight c k i \<longleftrightarrow> c_pending c i = Some k)"

lemma pending_holder: "pending_ok c \<Longrightarrow> c_pending c i = Some k \<longleftrightarrow>
    (\<exists>t. c_tasks c k = Some t \<and> flying t i)"
  by (simp add: pending_ok_def in_flight_def)

lemma in_flight_unique: "\<lbrakk>in_flight c k i; in_flight c k j\<rbrakk> \<Longrightarrow> i = j"
  by (auto simp: in_flight_def) (auto simp: flying_def split: run.split_asm wait.split_asm)

lemma pending_unique: "\<lbrakk>pending_ok c; c_pending c i = Some k; c_pending c j = Some k\<rbrakk> \<Longrightarrow> i = j"
  unfolding pending_ok_def by (blast intro: in_flight_unique)

lemma pending_update:
  assumes "pending_ok c" "c_tasks c' = (c_tasks c)(k \<mapsto> t)" "\<And>i. \<not> flying t i"
    and "\<And>i. c_pending c' i = (if in_flight c k i then None else c_pending c i)"
  shows "pending_ok c'"
proof -
  have "in_flight c' j i \<longleftrightarrow> j \<noteq> k \<and> in_flight c j i" for j i
    using assms(2,3) by (auto simp: in_flight_def)
  then show ?thesis using assms(1,4) by (auto simp: pending_ok_def)
qed

lemma pending_step: "client_step c c' \<Longrightarrow> pending_ok c \<Longrightarrow> pending_ok c'"
proof (induction rule: client_step.induct)
  case (Enter c k th tx)
  then have "c_pending c i \<noteq> Some k" for i
    by (simp add: pending_holder)
  with Enter show ?case by (auto simp: pending_ok_def in_flight_def enter_def)
next
  case (Issue c k t p m ps)
  have fresh: "c_pending c i \<noteq> Some k" for i
    using Issue by (simp add: pending_holder)
  show ?case
    unfolding pending_ok_def
  proof (intro allI)
    fix j i
    have "in_flight (issue k t p m ps c) j i \<longleftrightarrow> (if j = k then c_writer c \<and> i = c_next c
        else c_pending c (c_next c) \<noteq> Some j \<and> in_flight c j i)"
      by (cases "c_tasks c j") (auto simp: in_flight_def issue_tasks settle_def)
    then show "in_flight (issue k t p m ps c) j i \<longleftrightarrow> c_pending (issue k t p m ps c) i = Some j"
      using Issue.prems fresh in_flight_unique [of c j "c_next c" i] by (auto simp: pending_ok_def issue_pending)
  qed
next
  case (Frame c v)
  show ?case
  proof (cases "frame_response v")
    case None
    with Frame show ?thesis by (simp add: read_frame_def)
  next
    case (Some x)
    obtain i r where x: "x = (i, r)" by (cases x)
    have "in_flight (read_frame v c) j i' \<longleftrightarrow> c_pending c i \<noteq> Some j \<and> in_flight c j i'" for j i'
      by (simp add: Some x read_frame_def)
    moreover have "c_pending c i' = Some j \<Longrightarrow> c_pending c i = Some j \<Longrightarrow> i' = i" for i' j
      using Frame by (blast intro: pending_unique)
    ultimately show ?thesis
      using Frame by (auto simp: pending_ok_def read_frame_def Some x)
  qed
next
  case (Stream_End c)
  have "\<not> in_flight (stream_ends c) j i" for j i
    using Stream_End
    by (auto simp: in_flight_def pending_ok_def stream_ends_def ran_def split: if_splits)
  then show ?case by (simp add: pending_ok_def stream_ends_def)
next
  case (Acquire c k t)
  then show ?case
    by - (rule pending_update [of c _ k], auto simp: acquire_def in_flight_def)
next
  case (Timeout c k t p i s)
  then have "c_pending c j = Some k \<longleftrightarrow> j = i" for j
    by (auto simp: pending_holder)
  with Timeout show ?case
    by - (rule pending_update [of c _ k], auto simp: give_up_def in_flight_def)
next
  case (Return c k t p r)
  then show ?case
    by - (rule pending_update [of c _ k], auto simp: resume_task_def in_flight_def Let_def)
next
  case (Wake c k t p u q)
  then show ?case
    by - (rule pending_update [of c _ k], auto simp: wake_task_def in_flight_def)
qed (auto simp: pending_ok_def in_flight_def)

section \<open>The wire\<close>

text \<open>The deliveries behind the requests sent for a thread, in the order of the requests.\<close>

definition owners :: "string \<Rightarrow> attach_client \<Rightarrow> nat list" where
  "owners thread c = filter (\<lambda>k. map_option t_thread (c_tasks c k) = Some thread) (map fst (c_wire c))"

text \<open>Nothing stands between two occurrences of the same element.\<close>

fun contiguous :: "nat list \<Rightarrow> bool" where
  "contiguous [] = True"
| "contiguous [x] = True"
| "contiguous (x # y # xs) \<longleftrightarrow> contiguous (y # xs) \<and> (x \<in> set (y # xs) \<longrightarrow> x = y)"

lemma contiguous_snoc: "contiguous (xs @ [x]) \<longleftrightarrow> contiguous xs \<and> (x \<in> set xs \<longrightarrow> last xs = x)"
  by (induction xs rule: contiguous.induct) auto

lemma contiguous_between:
  "\<lbrakk>contiguous xs; i < j; j < l; l < length xs; xs ! i = xs ! l\<rbrakk> \<Longrightarrow> xs ! j = xs ! i"
proof (induction xs arbitrary: i j l rule: contiguous.induct)
  case (3 x y xs)
  show ?case
  proof (cases i)
    case 0
    then have "x \<in> set (y # xs)" using "3.prems" by (cases l) (auto simp: nth_Cons split: nat.splits)
    then have "x = y" using "3.prems" by auto
    then show ?thesis
      using 0 "3.prems" "3.IH" [of 0 "j - 1" "l - 1"]
      by (cases j; cases l; cases "j - 1") auto
  next
    case (Suc n)
    then show ?thesis using "3.prems" "3.IH" [of n "j - 1" "l - 1"] by (cases j; cases l) auto
  qed
qed auto

definition wire_ok :: "attach_client \<Rightarrow> bool" where
  "wire_ok c \<longleftrightarrow>
     (\<forall>k \<in> fst ` set (c_wire c). \<exists>t. c_tasks c k = Some t \<and> t_run t \<noteq> Queued) \<and>
     (\<forall>th. contiguous (owners th c)) \<and>
     (\<forall>k th. active c k th \<longrightarrow> k \<in> set (owners th c) \<longrightarrow> last (owners th c) = k)"

text \<open>A step that sends nothing keeps the wire in order, if what becomes active has sent
  nothing yet.\<close>

lemma wire_quiet:
  assumes "wire_ok c" "c_wire c' = c_wire c"
    and threads: "\<And>k t. \<lbrakk>c_tasks c k = Some t; t_run t \<noteq> Queued\<rbrakk>
      \<Longrightarrow> \<exists>t'. c_tasks c' k = Some t' \<and> t_thread t' = t_thread t \<and> t_run t' \<noteq> Queued"
    and active: "\<And>k th. active c' k th \<Longrightarrow> active c k th \<or> k \<notin> fst ` set (c_wire c)"
  shows "wire_ok c'"
proof -
  have same: "map_option t_thread (c_tasks c' k) = map_option t_thread (c_tasks c k)"
    if "k \<in> fst ` set (c_wire c)" for k
    using assms(1) that threads by (fastforce simp: wire_ok_def)
  have "owners th c' = owners th c" for th
    unfolding owners_def assms(2) by (rule filter_cong) (simp_all add: same)
  note own = this
  have "\<forall>k \<in> fst ` set (c_wire c'). \<exists>t. c_tasks c' k = Some t \<and> t_run t \<noteq> Queued"
    using assms(1,2) threads unfolding wire_ok_def by metis
  moreover have "last (owners th c') = k" if "active c' k th" "k \<in> set (owners th c')" for k th
  proof -
    have "k \<in> fst ` set (c_wire c)" using that(2) unfolding own by (simp add: owners_def)
    then show ?thesis using that active [OF that(1)] assms(1) by (simp add: own wire_ok_def)
  qed
  ultimately show ?thesis
    using assms(1) by (simp add: wire_ok_def own)
qed

lemma wire_step: "client_step c c' \<Longrightarrow> waits_ok c \<Longrightarrow> locks_ok c \<Longrightarrow> wire_ok c \<Longrightarrow> wire_ok c'"
proof (induction rule: client_step.induct)
  case (Tick c now)
  then show ?case by - (rule wire_quiet [of c], auto simp: active_def)
next
  case (Enter c k th tx)
  then show ?case
    by - (rule wire_quiet [of c], auto simp: active_def enter_def split: if_splits)
next
  case (Acquire c k t)
  have "k \<notin> fst ` set (c_wire c)" using Acquire by (fastforce simp: wire_ok_def)
  with Acquire show ?case
    by - (rule wire_quiet [of c], auto simp: active_def acquire_def split: if_splits)
next
  case (Issue c k t p m ps)
  let ?c = "issue k t p m ps c"
  have live: "\<not> ended p" using Issue by (simp add: request_not_ended)
  note same = issue_threads [OF Issue.hyps(1)] issue_active [OF Issue.hyps(1,2) live]
  have own: "owners th ?c = owners th c @ (if c_writer c \<and> th = t_thread t then [k] else [])" for th
    using Issue.hyps(1) by (simp add: owners_def issue_wire same)
  have mine: "active c k (t_thread t)" using Issue.hyps live by (simp add: active_def)
  have alone: "j = k" if "active c j (t_thread t)" for j
    using that mine Issue.prems by (simp add: locks_ok_def)
  have "\<exists>t'. c_tasks ?c j = Some t' \<and> t_run t' \<noteq> Queued" if "j \<in> fst ` set (c_wire ?c)" for j
  proof (cases "j = k")
    case False
    then have "j \<in> fst ` set (c_wire c)" using that by (auto simp: issue_wire split: if_splits)
    with Issue.prems False show ?thesis by (fastforce simp: wire_ok_def issue_tasks settle_def)
  qed (simp add: issue_tasks)
  moreover have "contiguous (owners th ?c)" for th
    using Issue.prems mine by (auto simp: own contiguous_snoc wire_ok_def)
  moreover have "last (owners th ?c) = j" if "active ?c j th" "j \<in> set (owners th ?c)" for j th
    using that Issue.prems alone by (auto simp: own same wire_ok_def split: if_splits)
  ultimately show ?case unfolding wire_ok_def by blast
next
  case (Frame c v)
  then show ?case
    by - (rule wire_quiet [of c], auto simp: read_frame_def split: option.splits)
next
  case (Stream_End c)
  have "c_wire (stream_ends c) = c_wire c" by (simp add: stream_ends_def)
  moreover have "\<exists>t'. c_tasks (stream_ends c) k = Some t' \<and> t_thread t' = t_thread t \<and> t_run t' \<noteq> Queued"
    if "c_tasks c k = Some t" "t_run t \<noteq> Queued" for k t
    using that by (simp add: stream_ends_def)
  ultimately show ?case
    using Stream_End by - (rule wire_quiet [of c], auto)
next
  case (Writer_End c)
  then show ?case by - (rule wire_quiet [of c], auto simp: active_def)
next
  case (Timeout c k t p i s)
  then show ?case
    by - (rule wire_quiet [of c], auto simp: active_def give_up_def split: if_splits)
next
  case (Return c k t p r)
  then have "\<not> ended p" by (auto dest: waits_live)
  with Return show ?case
    by - (rule wire_quiet [of c], auto simp: active_def resume_task_def Let_def split: if_splits)
next
  case (Wake c k t p u q)
  then show ?case
    by - (rule wire_quiet [of c], auto simp: active_def wake_task_def dest: wakes_not_ended split: if_splits)
qed

section \<open>What each delivery injects\<close>

definition injected :: "nat \<Rightarrow> attach_client \<Rightarrow> nat" where
  "injected k c = length (filter (\<lambda>(j, m, ps). j = k \<and> (m = ''turn/start'' \<or> m = ''turn/steer'')) (c_wire c))"

definition injections :: "trace_entry list \<Rightarrow> nat" where
  "injections tr = length (filter injects tr)"

definition refusals :: "trace_entry list \<Rightarrow> nat" where
  "refusals tr = length (filter (\<lambda>e. injects e \<and> refused (snd (snd e))) tr)"

lemma injections_simps [simp]:
  "injections [] = 0" "injections (tr @ [e]) = injections tr + of_bool (injects e)"
  by (simp_all add: injections_def)

lemma injections_split: "injections tr = commits tr + refusals tr"
  by (induction tr) (auto simp: injections_def refusals_def committed_def)

fun injecting :: "phase \<Rightarrow> bool" where
  "injecting (Steering _ _ _) = True"
| "injecting (Starting _ _ _) = True"
| "injecting _ = False"

text \<open>The messages a delivery has committed, by where it stands.\<close>

fun phase_commits :: "phase \<Rightarrow> nat \<Rightarrow> bool" where
  "phase_commits (PollNap _ _ _ _) n = (n = 1)"
| "phase_commits (Polling _ _ _) n = (n = 1)"
| "phase_commits (Ended Delivered) n = (n = 1)"
| "phase_commits (Ended (DeliveryFailed _)) n = (n \<le> 1)"
| "phase_commits (Ended (Unreachable _)) n = (n = 0)"
| "phase_commits _ n = (n = 0)"

lemma request_injecting: "request_of th tx p = Some (m, ps) \<Longrightarrow>
  injecting p = (m = ''turn/start'' \<or> m = ''turn/steer'')"
  by (cases p) auto

lemma phase_commits_le: "phase_commits p n \<Longrightarrow> n \<le> 1"
  by (induction p n rule: phase_commits.induct) auto

lemma injecting_commits: "injecting p \<Longrightarrow> phase_commits p n \<Longrightarrow> n = 0"
  by (cases p) auto

lemma after_poll_commits: "phase_commits (after_poll now d turn mode s) 1"
  by (simp add: after_poll_def fail_with_def split: sum.split call_error.split)

lemma proceed_commits:
  assumes "request_of th tx p = Some (m, ps)" "phase_commits p n"
  shows "phase_commits (proceed now p r) (n + of_bool (committed (m, ps, r)))"
proof (cases p)
  case (Reading b f d)
  with assms show ?thesis
    by (auto simp: after_read_def stay_busy_def fail_with_def
        split: sum.split call_error.split thread_state.split option.split)
next
  case (Steering b d turn)
  with assms show ?thesis
    by (auto simp: begin_poll_def fail_with_def split: sum.split call_error.split option.split)
next
  case (Starting b f d)
  with assms show ?thesis
    by (auto simp: begin_poll_def fail_with_def split: sum.split call_error.split option.split)
next
  case (Resuming b f d)
  with assms show ?thesis
    by (auto simp: fail_with_def split: sum.split call_error.split)
next
  case (Polling d turn mode)
  with assms show ?thesis by (auto simp del: One_nat_def intro: after_poll_commits)
qed (use assms in simp_all)

lemma wakes_commits: "wakes p = Some (u, q) \<Longrightarrow> phase_commits p n \<Longrightarrow> phase_commits q n"
  by (cases p) auto

definition awaiting :: "delivery_task \<Rightarrow> bool" where
  "awaiting t \<longleftrightarrow> (case t_run t of Queued \<Rightarrow> False | Running p w \<Rightarrow> w \<noteq> Unsent \<and> injecting p)"

definition task_ok :: "nat \<Rightarrow> delivery_task \<Rightarrow> bool" where
  "task_ok n t \<longleftrightarrow>
     (case t_run t of Queued \<Rightarrow> t_trace t = [] | Running p _ \<Rightarrow> phase_commits p (commits (t_trace t))) \<and>
     n \<le> injections (t_trace t) + of_bool (awaiting t)"

definition slot_ok :: "nat \<Rightarrow> delivery_task option \<Rightarrow> bool" where
  "slot_ok n x \<longleftrightarrow> (case x of None \<Rightarrow> n = 0 | Some t \<Rightarrow> task_ok n t)"

definition tasks_ok :: "attach_client \<Rightarrow> bool" where
  "tasks_ok c \<longleftrightarrow> (\<forall>k. slot_ok (injected k c) (c_tasks c k))"

lemma task_ok_settle [simp]: "task_ok n (settle_task r t) = task_ok n t"
  by (auto simp: task_ok_def awaiting_def settle_task_run split: run.splits wait.splits)

lemma slot_ok_simps [simp]: "slot_ok n None \<longleftrightarrow> n = 0" "slot_ok n (Some t) = task_ok n t"
  "slot_ok n (map_option (settle_task r) x) = slot_ok n x" "slot_ok n (settle k r tasks j) = slot_ok n (tasks j)"
  by (cases x) (simp_all add: slot_ok_def settle_def split: option.split)

lemma tasks_okD: "tasks_ok c \<Longrightarrow> c_tasks c k = Some t \<Longrightarrow> task_ok (injected k c) t"
  by (metis slot_ok_simps(2) tasks_ok_def)

lemma injected_cong: "c_wire c' = c_wire c \<Longrightarrow> injected k c' = injected k c"
  by (simp add: injected_def)

lemma tasks_quiet: "\<lbrakk>tasks_ok c; c_wire c' = c_wire c;
    \<And>k. slot_ok (injected k c) (c_tasks c k) \<Longrightarrow> slot_ok (injected k c) (c_tasks c' k)\<rbrakk> \<Longrightarrow> tasks_ok c'"
  using injected_cong [of c' c] by (simp add: tasks_ok_def)

lemma tasks_update: "\<lbrakk>tasks_ok c; c_wire c' = c_wire c; c_tasks c' = (c_tasks c)(k \<mapsto> t);
    task_ok (injected k c) t\<rbrakk> \<Longrightarrow> tasks_ok c'"
  using injected_cong [of c' c] by (simp add: tasks_ok_def)

lemma tasks_step: "client_step c c' \<Longrightarrow> waits_ok c \<Longrightarrow> tasks_ok c \<Longrightarrow> tasks_ok c'"
proof (induction rule: client_step.induct)
  case (Enter c k th tx)
  then have "injected k c = 0" by (metis slot_ok_simps(1) tasks_ok_def)
  with Enter show ?case
    by - (rule tasks_update [of c _ k], auto simp: enter_def task_ok_def)
next
  case (Acquire c k t)
  from tasks_okD [OF Acquire.prems(2) Acquire.hyps(1)] Acquire show ?case
    by - (rule tasks_update [of c _ k], auto simp: acquire_def task_ok_def awaiting_def start_phase_def)
next
  case (Issue c k t p m ps)
  let ?c = "issue k t p m ps c"
  have sent: "injected j ?c = injected j c + of_bool (j = k \<and> c_writer c \<and> injecting p)" for j
    using request_injecting [OF Issue.hyps(3)] by (simp add: injected_def issue_wire)
  have "task_ok (injected k c) t" using Issue by (simp add: tasks_okD)
  then have "task_ok (injected k ?c) (the (c_tasks ?c k))"
    using Issue.hyps by (auto simp: sent issue_tasks task_ok_def awaiting_def)
  then show ?case
    using Issue.prems by (auto simp: tasks_ok_def sent issue_tasks)
next
  case (Frame c v)
  then show ?case
    by - (rule tasks_quiet [of c], auto simp: read_frame_def split: option.splits)
next
  case (Timeout c k t p i s)
  from tasks_okD [OF Timeout.prems(2) Timeout.hyps(1)] Timeout show ?case
    by - (rule tasks_update [of c _ k], auto simp: give_up_def task_ok_def awaiting_def)
next
  case (Return c k t p r)
  obtain m ps where req: "request_of (t_thread t) (t_text t) p = Some (m, ps)"
    using Return by (fastforce simp: waits_ok_def)
  from tasks_okD [OF Return.prems(2) Return.hyps(1)] proceed_commits [OF req] Return req
  show ?case
    by - (rule tasks_update [of c _ k],
        auto simp: resume_task_def Let_def task_ok_def awaiting_def request_injecting injects_def)
next
  case (Wake c k t p u q)
  from tasks_okD [OF Wake.prems(2) Wake.hyps(1)] Wake show ?case
    by - (rule tasks_update [of c _ k], auto simp: wake_task_def task_ok_def awaiting_def dest: wakes_commits)
next
  case (Stream_End c)
  then show ?case
    by - (rule tasks_quiet [of c], auto simp: stream_ends_def)
qed (simp_all add: tasks_ok_def injected_def)

section \<open>Every reachable client\<close>

definition client_ok :: "attach_client \<Rightarrow> bool" where
  "client_ok c \<longleftrightarrow> waits_ok c \<and> locks_ok c \<and> pending_ok c \<and> wire_ok c \<and> tasks_ok c"

lemma reachable_ok: "client_reachable c \<Longrightarrow> client_ok c"
proof (induction rule: client_reachable.induct)
  case (init now)
  show ?case
    by (simp add: client_ok_def new_client_def waits_ok_def locks_ok_def active_def pending_ok_def in_flight_def
        wire_ok_def owners_def tasks_ok_def injected_def)
next
  case (step c c')
  then show ?case
    by (auto simp: client_ok_def intro: waits_step locks_step pending_step wire_step tasks_step)
qed

lemma read_frame_settles:
  assumes "pending_ok c" "c_tasks (read_frame v c) k \<noteq> c_tasks c k"
  shows "\<exists>i r. frame_response v = Some (i, r) \<and> in_flight c k i"
proof (cases "frame_response v")
  case (Some x)
  with assms(2) obtain i r where x: "frame_response v = Some (i, r)" "c_pending c i = Some k"
    by (cases x) (auto simp: read_frame_def settle_def split: if_splits)
  with assms(1) show ?thesis by (auto simp: pending_ok_def)
qed (use assms(2) in \<open>simp add: read_frame_def\<close>)

lemma injected_bound: "phase_commits p n \<Longrightarrow> n + of_bool (w \<noteq> Unsent \<and> injecting p) \<le> 1"
  by (cases "injecting p") (auto dest: injecting_commits phase_commits_le)

lemma task_ok_refusals:
  assumes "task_ok n t"
  shows "n \<le> 1 + refusals (t_trace t)"
proof (cases "t_run t")
  case Queued
  with assms show ?thesis by (auto simp: task_ok_def awaiting_def)
next
  case (Running p w)
  with assms injected_bound [of p "commits (t_trace t)" w] show ?thesis
    by (auto simp: task_ok_def awaiting_def injections_split split: if_splits)
qed

lemma task_ok_outcome: "task_ok n t \<Longrightarrow> n \<le> 1 + refusals (t_trace t) \<and>
    (\<forall>e w. t_run t = Running (Ended (Unreachable e)) w \<longrightarrow> n \<le> refusals (t_trace t)) \<and>
    (\<forall>w. t_run t = Running (Ended Delivered) w \<longrightarrow> commits (t_trace t) = 1)"
  using task_ok_refusals [of n t] by (auto simp: task_ok_def awaiting_def injections_split)

text \<open>C4. Concurrent deliveries through one client, in every interleaving with frames, timeouts and
  the loss of the connection: the requests for a thread come delivery by delivery, never
  mixed; the lock of a thread is held exactly while a delivery is at work in it, so it is
  never leaked and never shared; a response frame settles only the call that was issued
  under its id, which no other call in flight has; and no delivery injects its message more
  often than it was refused plus once, none after which it reports \<open>Unreachable\<close>.\<close>

theorem concurrent_deliveries_serialised:
  assumes "client_reachable c"
  shows "contiguous (owners thread c) \<and>
    (c_locks c thread = Some (Some k) \<longleftrightarrow> active c k thread) \<and>
    (in_flight c j i \<and> in_flight c k i \<longrightarrow> j = k) \<and>
    (c_tasks (read_frame v c) k \<noteq> c_tasks c k \<longrightarrow>
      (\<exists>i r. frame_response v = Some (i, r) \<and> in_flight c k i)) \<and>
    (c_tasks c k = Some t \<longrightarrow> injected k c \<le> 1 + refusals (t_trace t) \<and>
      (\<forall>e w. t_run t = Running (Ended (Unreachable e)) w \<longrightarrow> injected k c \<le> refusals (t_trace t)) \<and>
      (\<forall>w. t_run t = Running (Ended Delivered) w \<longrightarrow> commits (t_trace t) = 1))"
proof -
  have ok: "locks_ok c" "pending_ok c" "wire_ok c" "tasks_ok c"
    using reachable_ok [OF assms] by (simp_all add: client_ok_def)
  have "contiguous (owners thread c)" using ok(3) by (simp add: wire_ok_def)
  moreover have "c_locks c thread = Some (Some k) \<longleftrightarrow> active c k thread" using ok(1) by (simp add: locks_ok_def)
  moreover have "in_flight c j i \<and> in_flight c k i \<longrightarrow> j = k" using ok(2) by (auto simp: pending_ok_def)
  moreover note read_frame_settles [OF ok(2), of v k]
  moreover note task_ok_outcome [OF tasks_okD [OF ok(4), of k t]]
  ultimately show ?thesis by blast
qed

section \<open>Two deliveries into one thread\<close>

text \<open>A schedule, as a list of moves; a move that is not enabled is skipped.\<close>

datatype move = Ask string string | Lock | Go | Back | Hear json

definition play1 :: "attach_client \<Rightarrow> nat \<times> move \<Rightarrow> attach_client" where
  "play1 c x = (case x of (k, m) \<Rightarrow> (case (m, c_tasks c k) of
      (Ask thread txt, None) \<Rightarrow> enter k thread txt c
    | (Lock, Some t) \<Rightarrow>
        if t_run t = Queued \<and> c_locks c (t_thread t) = Some None then acquire k t c else c
    | (Go, Some t) \<Rightarrow> (case t_run t of
          Running p Unsent \<Rightarrow> (case request_of (t_thread t) (t_text t) p of
              Some (m, ps) \<Rightarrow> issue k t p m ps c | None \<Rightarrow> c)
        | _ \<Rightarrow> c)
    | (Back, Some t) \<Rightarrow> (case t_run t of Running p (Settled r) \<Rightarrow> resume_task k t p r c | _ \<Rightarrow> c)
    | (Hear v, _) \<Rightarrow> if c_reader c then read_frame v c else c
    | _ \<Rightarrow> c))"

definition play :: "attach_client \<Rightarrow> (nat \<times> move) list \<Rightarrow> attach_client" where
  "play = foldl play1"

lemma play1_reachable: "client_reachable c \<Longrightarrow> client_reachable (play1 c x)"
  by (auto simp: play1_def split: prod.splits move.splits option.splits run.splits wait.splits if_splits
      intro: client_reachable.step client_step.intros)

lemma play_reachable: "client_reachable c \<Longrightarrow> client_reachable (play c ms)"
  unfolding play_def by (induction ms arbitrary: c) (simp_all add: play1_reachable)

text \<open>Two deliveries ask for one thread and a third for another. The first reads the thread idle and
  starts its turn while the second waits; the third reads its own thread in between.\<close>

definition demo_client :: attach_client where
  "demo_client = play (new_client 0)
     [(0, Ask ''t'' ''a''), (1, Ask ''t'' ''b''), (2, Ask ''u'' ''c''), (0, Lock), (1, Lock), (2, Lock),
      (0, Go), (2, Go), (0, Hear (JObj [(''id'', JNum 2), (''result'', JObj [])])), (0, Back), (1, Go), (0, Go)]"

lemma demo_client_reachable: "client_reachable demo_client"
  unfolding demo_client_def by (intro play_reachable client_reachable.init)

lemma demo_facts: "map fst (c_wire demo_client) = [0, 2, 0]" "owners ''t'' demo_client = [0, 0]"
  "injected 0 demo_client = 1" "c_locks demo_client ''t'' = Some (Some 0)"
  by (simp_all add: demo_client_def play_def play1_def new_client_def enter_def thread_lock_def acquire_def
      jget_def as_str_def start_phase_def issue_def read_frame_def frame_response_def as_u64_def settle_def
      settle_task_def resume_task_def after_read_def classify_read_def owners_def injected_def Let_def)

theorem concurrent_deliveries_serialised_witness:
  "contiguous (owners ''t'' demo_client) \<and> active demo_client 0 ''t'' \<and> \<not> active demo_client 1 ''t'' \<and>
   owners ''t'' demo_client = [0, 0] \<and> injected 0 demo_client = 1"
  using concurrent_deliveries_serialised [OF demo_client_reachable, of "''t''" 0]
    concurrent_deliveries_serialised [OF demo_client_reachable, of "''t''" 1] demo_facts by simp

end
