(* ===== verification/Utf8.thy ===== *)
theory Utf8
  imports Prelude
begin

text \<open>
  UTF-8 as Rust's \<open>String\<close> guarantees it: a byte sequence is valid when it is a sequence of
  well-formed characters (no overlong forms, no surrogates, nothing above U+10FFFF). The
  lemmas say where such a sequence may be cut.
\<close>

abbreviation byte :: "char \<Rightarrow> nat" where
  "byte c \<equiv> of_char c"

definition cont :: "char \<Rightarrow> bool" where
  "cont c \<longleftrightarrow> 128 \<le> byte c \<and> byte c < 192"

text \<open>The second byte a lead byte of a three or four byte character admits.\<close>

definition second3 :: "char \<Rightarrow> char \<Rightarrow> bool" where
  "second3 a b \<longleftrightarrow> cont b \<and> (byte a = 224 \<longrightarrow> 160 \<le> byte b) \<and> (byte a = 237 \<longrightarrow> byte b < 160)"

definition second4 :: "char \<Rightarrow> char \<Rightarrow> bool" where
  "second4 a b \<longleftrightarrow> cont b \<and> (byte a = 240 \<longrightarrow> 144 \<le> byte b) \<and> (byte a = 244 \<longrightarrow> byte b < 144)"

text \<open>The number of bytes of the character at the front, if it is well formed.\<close>

definition char_width :: "string \<Rightarrow> nat option" where
  "char_width s = (case s of
      [] \<Rightarrow> None
    | a # r \<Rightarrow>
        if byte a < 128 then Some 1
        else if 194 \<le> byte a \<and> byte a < 224 then (case r of b # _ \<Rightarrow> if cont b then Some 2 else None | _ \<Rightarrow> None)
        else if 224 \<le> byte a \<and> byte a < 240 then
          (case r of b # c # _ \<Rightarrow> if second3 a b \<and> cont c then Some 3 else None | _ \<Rightarrow> None)
        else if 240 \<le> byte a \<and> byte a < 245 then
          (case r of b # c # d # _ \<Rightarrow> if second4 a b \<and> cont c \<and> cont d then Some 4 else None | _ \<Rightarrow> None)
        else None)"

lemma char_width_bounds: "char_width s = Some n \<Longrightarrow> 0 < n \<and> n \<le> 4 \<and> n \<le> length s"
  by (auto simp: char_width_def split: list.splits if_splits)

function valid_utf8 :: "string \<Rightarrow> bool" where
  "valid_utf8 s = (if s = [] then True
     else case char_width s of None \<Rightarrow> False | Some n \<Rightarrow> valid_utf8 (drop n s))"
  by pat_completeness auto

termination valid_utf8
  by (relation "measure length") (auto dest: char_width_bounds)

declare valid_utf8.simps [simp del]

lemma char_width_cases:
  assumes "char_width s = Some n"
  obtains (one) a r where "s = a # r" "n = 1" "byte a < 128"
    | (two) a b r where "s = a # b # r" "n = 2" "194 \<le> byte a" "byte a < 224" "cont b"
    | (three) a b c r where "s = a # b # c # r" "n = 3" "224 \<le> byte a" "byte a < 240" "second3 a b" "cont c"
    | (four) a b c d r where "s = a # b # c # d # r" "n = 4" "240 \<le> byte a" "byte a < 245" "second4 a b" "cont c" "cont d"
  using assms unfolding char_width_def
  by (cases s; cases "tl s"; cases "tl (tl s)"; cases "tl (tl (tl s))") (simp_all split: if_splits)

text \<open>Only the first byte of a character is not a continuation byte.\<close>

lemma char_width_cont:
  assumes "char_width s = Some n"
  shows "\<not> cont (s ! 0) \<and> (\<forall>i. 0 < i \<longrightarrow> i < n \<longrightarrow> cont (s ! i))"
  using assms
proof (cases rule: char_width_cases)
  case (one a r)
  then show ?thesis by (simp add: cont_def)
next
  case (two a b r)
  then have "\<not> cont a" by (simp add: cont_def)
  with two show ?thesis by (auto simp: nth_Cons')
next
  case (three a b c r)
  then have "\<not> cont a" and "cont b" by (simp_all add: cont_def second3_def)
  with three show ?thesis by (auto simp: nth_Cons')
next
  case (four a b c d r)
  then have "\<not> cont a" and "cont b" by (simp_all add: cont_def second4_def)
  with four show ?thesis by (auto simp: nth_Cons')
qed

lemma char_width_take:
  assumes "char_width s = Some n" and "n \<le> k"
  shows "char_width (take k s) = Some n"
  using assms(1)
proof (cases rule: char_width_cases)
  case (one a r)
  with assms(2) obtain j where "k = Suc j" by (cases k) auto
  with one show ?thesis by (simp add: char_width_def)
next
  case (two a b r)
  with assms(2) obtain j where "k = Suc (Suc j)" by (metis add_2_eq_Suc le_Suc_ex)
  with two show ?thesis by (simp add: char_width_def)
next
  case (three a b c r)
  with assms(2) obtain j where "k = 3 + j" using le_Suc_ex by blast
  with three show ?thesis by (simp add: char_width_def take_Cons')
next
  case (four a b c d r)
  with assms(2) obtain j where "k = 4 + j" using le_Suc_ex by blast
  with four show ?thesis by (simp add: char_width_def take_Cons')
qed

text \<open>A cut that does not fall inside a character leaves a valid prefix.\<close>

lemma valid_utf8_take:
  assumes "valid_utf8 s" and "k < length s \<longrightarrow> \<not> cont (s ! k)"
  shows "valid_utf8 (take k s)"
  using assms
proof (induction s arbitrary: k rule: valid_utf8.induct)
  case (1 s)
  show ?case
  proof (cases "s = [] \<or> k = 0")
    case True
    then show ?thesis by (auto simp: valid_utf8.simps)
  next
    case False
    with "1.prems"(1) obtain n where n: "char_width s = Some n" and rest: "valid_utf8 (drop n s)"
      by (auto simp: valid_utf8.simps [of s] split: option.splits)
    note bounds = char_width_bounds [OF n]
    have "n \<le> k"
    proof (rule ccontr)
      assume "\<not> n \<le> k"
      with bounds have "k < length s" and "k < n" by auto
      with char_width_cont [OF n] False "1.prems"(2) show False by auto
    qed
    have cut: "k - n < length (drop n s) \<longrightarrow> \<not> cont (drop n s ! (k - n))"
      using "1.prems"(2) \<open>n \<le> k\<close> bounds by simp
    have "valid_utf8 (take (k - n) (drop n s))"
      using "1.IH" [OF _ n rest cut] False by simp
    then have "valid_utf8 (drop n (take k s))" by (simp add: drop_take)
    moreover have "char_width (take k s) = Some n" using char_width_take [OF n \<open>n \<le> k\<close>] .
    ultimately show ?thesis by (simp add: valid_utf8.simps [of "take k s"])
  qed
qed

lemma valid_utf8_ascii: "list_all (\<lambda>c. byte c < 128) s \<Longrightarrow> valid_utf8 s"
proof (induction s)
  case Nil
  then show ?case by (simp add: valid_utf8.simps)
next
  case (Cons c s)
  then have "char_width (c # s) = Some 1" by (simp add: char_width_def)
  with Cons show ?case by (simp add: valid_utf8.simps [of "c # s"])
qed

text \<open>Within four bytes below any position there is one where a valid sequence may be cut.\<close>

lemma valid_utf8_boundary_near:
  assumes "valid_utf8 s" and "k \<le> length s"
  shows "\<exists>j. j \<le> k \<and> k < j + 4 \<and> (j = 0 \<or> j = length s \<or> \<not> cont (s ! j))"
  using assms
proof (induction s arbitrary: k rule: valid_utf8.induct)
  case (1 s)
  show ?case
  proof (cases "s = [] \<or> k < 4")
    case True
    then show ?thesis using "1.prems" by auto
  next
    case False
    with "1.prems"(1) obtain n where n: "char_width s = Some n" and rest: "valid_utf8 (drop n s)"
      by (auto simp: valid_utf8.simps [of s] split: option.splits)
    note bounds = char_width_bounds [OF n]
    with False have "n \<le> k" by auto
    have "k - n \<le> length (drop n s)" using "1.prems"(2) by simp
    from "1.IH" [OF _ n rest this] False obtain j where
      j: "j \<le> k - n" "k - n < j + 4" "j = 0 \<or> j = length (drop n s) \<or> \<not> cont (drop n s ! j)" by auto
    have "n + j = length s \<or> \<not> cont (s ! (n + j))"
    proof (cases "j = 0")
      case True
      show ?thesis
      proof (cases "drop n s = []")
        case True
        with \<open>j = 0\<close> bounds show ?thesis by simp
      next
        case False
        with rest obtain m where "char_width (drop n s) = Some m"
          by (auto simp: valid_utf8.simps [of "drop n s"] split: option.splits)
        from char_width_cont [OF this] False \<open>j = 0\<close> show ?thesis by simp
      qed
    next
      case False
      with j(3) bounds show ?thesis by auto
    qed
    with j \<open>n \<le> k\<close> show ?thesis by (intro exI [of _ "n + j"]) auto
  qed
qed

end
