(* ===== verification/Strings.thy ===== *)
theory Strings
  imports Utf8
begin

text \<open>
  The string functions of Rust's standard library that the code uses beyond the basic ones of
  the prelude: trimming and splitting at white space, splitting at a character, suffixes
  and letter case. All work on UTF-8 bytes. Every white space character starts with a byte
  that is no continuation byte, so in a valid string a match never starts inside a
  character.
\<close>

section \<open>White space\<close>

text \<open>The number of bytes of the character at the front if it has the Unicode property
  White_Space, and 0 otherwise.\<close>

definition ws_width :: "string \<Rightarrow> nat" where
  "ws_width s = (case s of
      [] \<Rightarrow> 0
    | a # r \<Rightarrow>
        if (9 \<le> byte a \<and> byte a \<le> 13) \<or> byte a = 32 then 1
        else (case r of
            [] \<Rightarrow> 0
          | b # r2 \<Rightarrow>
              if byte a = 194 \<and> (byte b = 133 \<or> byte b = 160) then 2
              else (case r2 of
                  [] \<Rightarrow> 0
                | c # _ \<Rightarrow>
                    if (byte a = 225 \<and> byte b = 154 \<and> byte c = 128) \<or> (byte a = 227 \<and> byte b = 128 \<and> byte c = 128) \<or>
                       (byte a = 226 \<and> byte b = 129 \<and> byte c = 159) \<or>
                       (byte a = 226 \<and> byte b = 128 \<and>
                         ((128 \<le> byte c \<and> byte c \<le> 138) \<or> byte c = 168 \<or> byte c = 169 \<or> byte c = 175))
                    then 3 else 0)))"

lemma ws_width_le: "ws_width s \<le> length s"
  by (auto simp: ws_width_def split: list.splits)

lemma ws_width_Nil [simp]: "ws_width [] = 0"
  by (simp add: ws_width_def)

text \<open>\<open>str::trim_start\<close>, \<open>str::trim_end\<close> and \<open>str::trim\<close>.\<close>

function trim_start :: "string \<Rightarrow> string" where
  "trim_start s = (if ws_width s = 0 then s else trim_start (drop (ws_width s) s))"
  by pat_completeness auto

termination trim_start
proof (relation "measure length")
  fix s :: string
  assume "ws_width s \<noteq> 0"
  with ws_width_le [of s] have "0 < ws_width s" "0 < length s" by linarith+
  then show "(drop (ws_width s) s, s) \<in> measure length" by simp
qed simp

declare trim_start.simps [simp del]

fun trim_end :: "string \<Rightarrow> string" where
  "trim_end [] = []"
| "trim_end (c # cs) = (if trim_start (c # cs) = [] then [] else c # trim_end cs)"

definition trim :: "string \<Rightarrow> string" where
  "trim s = trim_end (trim_start s)"

text \<open>\<open>find(char::is_whitespace)\<close>, or the length if there is none.\<close>

fun find_ws :: "string \<Rightarrow> nat" where
  "find_ws [] = 0"
| "find_ws (c # cs) = (if ws_width (c # cs) = 0 then Suc (find_ws cs) else 0)"

lemma find_ws_le: "find_ws s \<le> length s"
  by (induction s) auto

lemma trim_start_width [simp]: "ws_width (trim_start s) = 0"
  by (induction s rule: trim_start.induct) (simp add: trim_start.simps)

lemma trim_start_id: "ws_width s = 0 \<Longrightarrow> trim_start s = s"
  by (simp add: trim_start.simps)

lemma trim_start_Nil [simp]: "trim_start [] = []"
  by (simp add: trim_start_id)

lemma trim_start_idem [simp]: "trim_start (trim_start s) = trim_start s"
  by (simp add: trim_start_id)

lemma trim_start_suffix: "\<exists>p. s = p @ trim_start s"
proof (induction s rule: trim_start.induct)
  case (1 s)
  show ?case
  proof (cases "ws_width s = 0")
    case False
    then obtain p where "drop (ws_width s) s = p @ trim_start (drop (ws_width s) s)" using 1 by blast
    then have "s = (take (ws_width s) s @ p) @ trim_start s"
      using False append_take_drop_id [of "ws_width s" s] by (simp add: trim_start.simps [of s])
    then show ?thesis by blast
  qed (simp add: trim_start_id)
qed

lemma trim_start_length: "length (trim_start s) \<le> length s"
  by (metis trim_start_suffix length_append le_add2)

lemma find_ws_pos: "ws_width s = 0 \<Longrightarrow> s \<noteq> [] \<Longrightarrow> 0 < find_ws s"
  by (cases s) auto

text \<open>\<open>str::split_whitespace\<close>.\<close>

function split_whitespace :: "string \<Rightarrow> string list" where
  "split_whitespace s = (let t = trim_start s in
     if t = [] then [] else take (find_ws t) t # split_whitespace (drop (find_ws t) t))"
  by pat_completeness auto

termination split_whitespace
proof (relation "measure length")
  fix s x :: string
  assume "x = trim_start s" "x \<noteq> []"
  then have "0 < find_ws x" by (simp add: find_ws_pos)
  with \<open>x \<noteq> []\<close> have "length (drop (find_ws x) x) < length x" by simp
  with \<open>x = trim_start s\<close> trim_start_length [of s] show "(drop (find_ws x) x, s) \<in> measure length" by simp
qed simp

declare split_whitespace.simps [simp del]

section \<open>Splitting at a character\<close>

text \<open>\<open>str::split_once\<close> and \<open>str::rsplit_once\<close> of one (ASCII) character.\<close>

fun split_once :: "char \<Rightarrow> string \<Rightarrow> (string \<times> string) option" where
  "split_once c [] = None"
| "split_once c (x # xs) = (if x = c then Some ([], xs) else map_option (\<lambda>(a, b). (x # a, b)) (split_once c xs))"

definition rsplit_once :: "char \<Rightarrow> string \<Rightarrow> (string \<times> string) option" where
  "rsplit_once c s = map_option (\<lambda>(a, b). (rev b, rev a)) (split_once c (rev s))"

text \<open>\<open>splitn(2, c)\<close>: what precedes the first separator and, if there is one, what follows.\<close>

definition splitn2 :: "char \<Rightarrow> string \<Rightarrow> string \<times> string option" where
  "splitn2 c s = (case split_once c s of None \<Rightarrow> (s, None) | Some (a, b) \<Rightarrow> (a, Some b))"

text \<open>\<open>split(c)\<close>: all the pieces, empty ones included.\<close>

fun split_char :: "char \<Rightarrow> string \<Rightarrow> string list" where
  "split_char c [] = [[]]"
| "split_char c (x # xs) = (if x = c then [] # split_char c xs
     else case split_char c xs of p # ps \<Rightarrow> (x # p) # ps | [] \<Rightarrow> [[x]])"

lemma split_once_Some: "split_once c s = Some (a, b) \<longleftrightarrow> s = a @ c # b \<and> c \<notin> set a"
proof (induction s arbitrary: a)
  case (Cons x xs)
  show ?case
  proof (cases "x = c")
    case False
    show ?thesis
    proof (cases a)
      case (Cons y ys)
      with False Cons.IH [of ys] show ?thesis by (auto simp: map_option_case split: option.splits)
    qed (use False in \<open>auto split: option.splits\<close>)
  qed (cases a; auto)
qed simp

lemma split_once_None: "split_once c s = None \<longleftrightarrow> c \<notin> set s"
  by (induction s) auto

lemma rsplit_once_Some: "rsplit_once c s = Some (a, b) \<longleftrightarrow> s = a @ c # b \<and> c \<notin> set b"
proof -
  have "rsplit_once c s = Some (a, b) \<longleftrightarrow> split_once c (rev s) = Some (rev b, rev a)"
    by (cases "split_once c (rev s)") (auto simp: rsplit_once_def)
  also have "\<dots> \<longleftrightarrow> rev s = rev b @ c # rev a \<and> c \<notin> set b" by (simp add: split_once_Some)
  also have "rev s = rev b @ c # rev a \<longleftrightarrow> s = a @ c # b" by (metis append_assoc append_Cons append_Nil rev.simps(2) rev_append rev_rev_ident)
  finally show ?thesis .
qed

lemma rsplit_once_None: "rsplit_once c s = None \<longleftrightarrow> c \<notin> set s"
  by (simp add: rsplit_once_def split_once_None)

section \<open>Suffixes and case\<close>

definition strip_suffix :: "string \<Rightarrow> string \<Rightarrow> string option" where
  "strip_suffix p s = map_option rev (strip_prefix (rev p) (rev s))"

lemma strip_suffix_Some: "strip_suffix p s = Some r \<longleftrightarrow> s = r @ p"
  by (auto simp: strip_suffix_def strip_prefix_Some rev_swap)

definition ascii_upper :: "char \<Rightarrow> char" where
  "ascii_upper c = (if 97 \<le> byte c \<and> byte c \<le> 122 then char_of (byte c - 32) else c)"

definition starts_with :: "string \<Rightarrow> string \<Rightarrow> bool" where
  "starts_with p s \<longleftrightarrow> strip_prefix p s \<noteq> None"

section \<open>Words\<close>

text \<open>A word has no white space in it; what follows it after a space does not change that.\<close>

definition is_word :: "string \<Rightarrow> bool" where
  "is_word s \<longleftrightarrow> s \<noteq> [] \<and> find_ws s = length s"

definition ascii_ws :: "char \<Rightarrow> bool" where
  "ascii_ws c \<longleftrightarrow> (9 \<le> byte c \<and> byte c \<le> 13) \<or> byte c = 32"

lemma ascii_ws_space [simp]: "ascii_ws (CHR '' '')"
  by (simp add: ascii_ws_def)

lemma ws_width_ascii: "s \<noteq> [] \<Longrightarrow> ascii_ws c \<Longrightarrow> ws_width (s @ c # r) = ws_width s"
proof -
  assume "s \<noteq> []" "ascii_ws c"
  then have c: "byte c \<noteq> 133" "byte c \<noteq> 160" "byte c < 128" by (auto simp: ascii_ws_def)
  obtain a t where s: "s = a # t" using \<open>s \<noteq> []\<close> by (cases s) auto
  show ?thesis
  proof (cases t)
    case Nil
    with s c show ?thesis by (cases r) (simp_all add: ws_width_def)
  next
    case (Cons b u)
    with s c show ?thesis by (cases u) (simp_all add: ws_width_def)
  qed
qed

lemmas ws_width_space = ws_width_ascii [OF _ ascii_ws_space]

lemma find_ws_space: "find_ws s = length s \<Longrightarrow> find_ws (s @ CHR '' '' # r) = length s"
proof (induction s)
  case Nil
  then show ?case by (simp add: ws_width_def)
next
  case (Cons c cs)
  then have "ws_width (c # cs) = 0" "find_ws cs = length cs" by (auto split: if_splits)
  with Cons.IH ws_width_space [of "c # cs" r] show ?case by simp
qed

lemma is_word_ws_width: "is_word s \<Longrightarrow> ws_width s = 0"
  by (cases s) (auto simp: is_word_def split: if_splits)

lemma trim_start_space: "trim_start (CHR '' '' # s) = trim_start s"
  by (subst trim_start.simps) (simp add: ws_width_def)

lemma trim_start_word: "is_word w \<Longrightarrow> trim_start (w @ CHR '' '' # r) = w @ CHR '' '' # r"
  by (rule trim_start_id) (simp add: ws_width_space is_word_def is_word_ws_width [unfolded is_word_def])

lemma is_word_split: "is_word w \<Longrightarrow> find_ws (w @ CHR '' '' # r) = length w"
  by (simp add: is_word_def find_ws_space)

lemma split_whitespace_space: "split_whitespace (CHR '' '' # s) = split_whitespace s"
  by (subst (1 2) split_whitespace.simps) (simp add: trim_start_space)

lemma split_whitespace_word: "is_word w \<Longrightarrow> split_whitespace w = [w]"
  by (simp add: split_whitespace.simps [of w] trim_start_id [OF is_word_ws_width] is_word_def Let_def
    split_whitespace.simps [of "[]"])

lemma split_whitespace_Cons: "is_word w \<Longrightarrow> split_whitespace (w @ CHR '' '' # r) = w # split_whitespace r"
  by (subst split_whitespace.simps) (simp add: trim_start_word is_word_split split_whitespace_space Let_def)

section \<open>Trimming padded text\<close>

text \<open>A byte that is a character by itself and not white space; text between such bytes
  loses only its padding.\<close>

definition solid :: "char \<Rightarrow> bool" where
  "solid c \<longleftrightarrow> byte c < 128 \<and> ws_width [c] = 0"

abbreviation spaces :: "nat \<Rightarrow> string" where
  "spaces n \<equiv> replicate n (CHR '' '')"

lemma ws_width_solid: "solid c \<Longrightarrow> ws_width (c # s) = 0"
  by (auto simp: solid_def ws_width_def split: list.splits if_splits)

lemma ws_width_last:
  assumes "solid (last s)" and "s \<noteq> []"
  shows "ws_width s < length s"
proof (rule ccontr)
  assume "\<not> ws_width s < length s"
  with ws_width_le [of s] have "ws_width s = length s" by simp
  with assms show False by (auto simp: ws_width_def solid_def split: list.splits if_splits)
qed

text \<open>Padding of ASCII white space.\<close>

abbreviation padding :: "string \<Rightarrow> bool" where
  "padding p \<equiv> list_all ascii_ws p"

lemma padding_spaces [simp]: "padding (spaces k)"
  by (simp add: list_all_iff)

lemma ws_width_padding: "s \<noteq> [] \<Longrightarrow> padding p \<Longrightarrow> ws_width (s @ p) = ws_width s"
  by (cases p) (simp_all add: ws_width_ascii)

lemma trim_start_ascii_ws: "ascii_ws c \<Longrightarrow> trim_start (c # s) = trim_start s"
  by (subst trim_start.simps) (simp add: ws_width_def ascii_ws_def)

lemma trim_start_padded: "s \<noteq> [] \<Longrightarrow> solid (last s) \<Longrightarrow> padding p \<Longrightarrow> trim_start (s @ p) \<noteq> []"
proof (induction s rule: trim_start.induct)
  case (1 s)
  show ?case
  proof (cases "ws_width s = 0")
    case True
    with "1.prems" show ?thesis by (simp add: trim_start_id ws_width_padding)
  next
    case False
    have lt: "ws_width s < length s" using ws_width_last "1.prems" by blast
    with False "1.IH" "1.prems" have "trim_start (drop (ws_width s) s @ p) \<noteq> []" by simp
    with False lt "1.prems" show ?thesis
      by (subst trim_start.simps) (simp add: ws_width_padding drop_append)
  qed
qed

lemma trim_start_leading: "padding p \<Longrightarrow> trim_start (p @ s) = trim_start s"
  by (induction p) (simp_all add: trim_start_ascii_ws)

lemma trim_end_padded: "s \<noteq> [] \<Longrightarrow> solid (last s) \<Longrightarrow> padding p \<Longrightarrow> trim_end (s @ p) = s"
proof (induction s)
  case (Cons c s)
  have ne: "trim_start ((c # s) @ p) \<noteq> []" using trim_start_padded [of "c # s"] Cons.prems by blast
  show ?case
  proof (cases "s = []")
    case True
    have "trim_end p = []" using trim_start_leading [OF \<open>padding p\<close>, of "[]"] by (cases p) simp_all
    with True ne show ?thesis by simp
  next
    case False
    with Cons ne show ?thesis by simp
  qed
qed simp

lemma trim_padded:
  assumes "s \<noteq> []" and "ws_width s = 0" and "solid (last s)" and "padding p" and "padding q"
  shows "trim (p @ s @ q) = s"
  using assms trim_start_id [of "s @ q"] by (simp add: trim_def trim_start_leading trim_end_padded ws_width_padding)

lemma trim_solid: "s \<noteq> [] \<Longrightarrow> ws_width s = 0 \<Longrightarrow> solid (last s) \<Longrightarrow> trim s = s"
  using trim_padded [of s "[]" "[]"] by simp

text \<open>What trimming leaves is part of what there was.\<close>

lemma trim_end_prefix: "\<exists>r. s = trim_end s @ r"
  by (induction s) auto

lemma trim_valid_length: "length (trim s) \<le> length s"
  by (metis trim_def trim_end_prefix trim_start_length length_append le_add1 le_trans)

end
