(* ===== verification/Net_Addr.thy ===== *)
theory Net_Addr
  imports Strings
begin

text \<open>
  Internet addresses as the standard library of Rust reads them: \<open>IpAddr\<close> and \<open>SocketAddr\<close>
  from text, and the resolution of \<open>host:port\<close> (\<open>ToSocketAddrs\<close>), in which the name lookup of
  the host system is a parameter.
\<close>

type_synonym u16 = "16 word"

section \<open>IP addresses\<close>

text \<open>\<open>std::net::IpAddr::from_str\<close>: four decimal octets without leading zeros, or IPv6
  groups with at most one \<open>::\<close> and an IPv4 tail.\<close>

fun span_digits :: "(char \<Rightarrow> bool) \<Rightarrow> nat \<Rightarrow> string \<Rightarrow> string \<times> string" where
  "span_digits P n [] = ([], [])"
| "span_digits P n (c # cs) = (if n > 0 \<and> P c then (case span_digits P (n - 1) cs of (a, b) \<Rightarrow> (c # a, b)) else ([], c # cs))"

definition hex_val :: "char \<Rightarrow> nat" where
  "hex_val c = (if is_digit c then of_char c - 48 else if CHR ''a'' \<le> c \<and> c \<le> CHR ''f'' then of_char c - 87
     else of_char c - 55)"

definition is_hex :: "char \<Rightarrow> bool" where
  "is_hex c \<longleftrightarrow> is_digit c \<or> (CHR ''a'' \<le> c \<and> c \<le> CHR ''f'') \<or> (CHR ''A'' \<le> c \<and> c \<le> CHR ''F'')"

text \<open>A number of at most \<open>n\<close> digits; more digits than that is no number.\<close>

definition read_octet :: "string \<Rightarrow> (nat \<times> string) option" where
  "read_octet s = (case span_digits is_digit 3 s of (ds, rest) \<Rightarrow>
     if ds = [] \<or> (case rest of c # _ \<Rightarrow> is_digit c | [] \<Rightarrow> False) \<or> (hd ds = CHR ''0'' \<and> length ds > 1) \<or> digits_val 0 ds > 255
     then None else Some (digits_val 0 ds, rest))"

definition read_group :: "string \<Rightarrow> (nat \<times> string) option" where
  "read_group s = (case span_digits is_hex 4 s of (ds, rest) \<Rightarrow>
     if ds = [] \<or> (case rest of c # _ \<Rightarrow> is_hex c | [] \<Rightarrow> False) then None
     else Some (foldl (\<lambda>a c. 16 * a + hex_val c) 0 ds, rest))"

definition read_char :: "char \<Rightarrow> string \<Rightarrow> string option" where
  "read_char c s = (case s of d # ds \<Rightarrow> if d = c then Some ds else None | [] \<Rightarrow> None)"

definition read_ipv4 :: "string \<Rightarrow> (nat list \<times> string) option" where
  "read_ipv4 s =
     Option.bind (read_octet s) (\<lambda>(a, s1). Option.bind (read_char (CHR ''.'') s1) (\<lambda>s2.
     Option.bind (read_octet s2) (\<lambda>(b, s3). Option.bind (read_char (CHR ''.'') s3) (\<lambda>s4.
     Option.bind (read_octet s4) (\<lambda>(c, s5). Option.bind (read_char (CHR ''.'') s5) (\<lambda>s6.
     Option.bind (read_octet s6) (\<lambda>(d, s7). Some ([a, b, c, d], s7))))))))"

definition read_sep :: "nat \<Rightarrow> string \<Rightarrow> string option" where
  "read_sep i s = (if i > 0 then read_char (CHR '':'') s else Some s)"

text \<open>\<open>read_groups\<close>: at most \<open>limit\<close> groups from position \<open>i\<close>; whether it ended in an IPv4 address.\<close>

fun read_groups :: "nat \<Rightarrow> nat \<Rightarrow> string \<Rightarrow> nat list \<times> bool \<times> string" where
  "read_groups 0 i s = ([], False, s)"
| "read_groups (Suc n) i s =
     (case (if n > 0 then Option.bind (read_sep i s) read_ipv4 else None) of
        Some ([a, b, c, d], rest) \<Rightarrow> ([256 * a + b, 256 * c + d], True, rest)
      | _ \<Rightarrow> (case Option.bind (read_sep i s) read_group of
          Some (g, rest) \<Rightarrow> (case read_groups n (Suc i) rest of (gs, v4, r) \<Rightarrow> (g # gs, v4, r))
        | None \<Rightarrow> ([], False, s)))"

definition read_ipv6 :: "string \<Rightarrow> (nat list \<times> string) option" where
  "read_ipv6 s = (case read_groups 8 0 s of (hs, v4, r) \<Rightarrow>
     if length hs = 8 then Some (hs, r)
     else if v4 then None
     else Option.bind (read_char (CHR '':'') r) (\<lambda>r1. Option.bind (read_char (CHR '':'') r1) (\<lambda>r2.
       case read_groups (8 - (length hs + 1)) 0 r2 of (ts, _, r3) \<Rightarrow>
         Some (hs @ replicate (8 - length hs - length ts) 0 @ ts, r3))))"

datatype ip_addr = V4 "nat list" | V6 "nat list"

definition parse_ip :: "string \<Rightarrow> ip_addr option" where
  "parse_ip s = (case read_ipv4 s of
      Some (a, []) \<Rightarrow> Some (V4 a)
    | Some (a, c # cs) \<Rightarrow> (case read_ipv6 s of Some (g, []) \<Rightarrow> Some (V6 g) | _ \<Rightarrow> None)
    | None \<Rightarrow> (case read_ipv6 s of Some (g, []) \<Rightarrow> Some (V6 g) | _ \<Rightarrow> None))"

fun is_loopback :: "ip_addr \<Rightarrow> bool" where
  "is_loopback (V4 a) = (hd a = 127)"
| "is_loopback (V6 g) = (g = [0, 0, 0, 0, 0, 0, 0, 1])"

fun is_unspecified :: "ip_addr \<Rightarrow> bool" where
  "is_unspecified (V4 a) = (a = [0, 0, 0, 0])"
| "is_unspecified (V6 g) = (g = [0, 0, 0, 0, 0, 0, 0, 0])"

section \<open>Socket addresses\<close>

record socket_addr =
  sa_ip :: ip_addr
  sa_scope :: nat
  sa_port :: u16

text \<open>All the digits at the front, as a number below the bound.\<close>

definition read_number :: "nat \<Rightarrow> string \<Rightarrow> (nat \<times> string) option" where
  "read_number bound s =
     (let ds = takeWhile is_digit s; n = digits_val 0 ds
      in if ds = [] \<or> n \<ge> bound then None else Some (n, dropWhile is_digit s))"

definition read_port :: "string \<Rightarrow> (nat \<times> string) option" where
  "read_port s = Option.bind (read_char (CHR '':'') s) (read_number (2 ^ 16))"

definition read_scope :: "string \<Rightarrow> nat \<times> string" where
  "read_scope s = (case Option.bind (read_char (CHR ''%'') s) (read_number (2 ^ 32)) of None \<Rightarrow> (0, s) | Some r \<Rightarrow> r)"

definition read_socket_v4 :: "string \<Rightarrow> (socket_addr \<times> string) option" where
  "read_socket_v4 s = Option.bind (read_ipv4 s) (\<lambda>(a, s1). Option.bind (read_port s1) (\<lambda>(p, s2).
     Some (\<lparr>sa_ip = V4 a, sa_scope = 0, sa_port = of_nat p\<rparr>, s2)))"

definition read_socket_v6 :: "string \<Rightarrow> (socket_addr \<times> string) option" where
  "read_socket_v6 s = Option.bind (read_char (CHR ''['') s) (\<lambda>s1. Option.bind (read_ipv6 s1) (\<lambda>(g, s2).
     case read_scope s2 of (scope, s3) \<Rightarrow> Option.bind (read_char (CHR '']'') s3) (\<lambda>s4.
     Option.bind (read_port s4) (\<lambda>(p, s5). Some (\<lparr>sa_ip = V6 g, sa_scope = scope, sa_port = of_nat p\<rparr>, s5)))))"

definition parse_socket_addr :: "string \<Rightarrow> socket_addr option" where
  "parse_socket_addr s =
     (case (case read_socket_v4 s of Some r \<Rightarrow> Some r | None \<Rightarrow> read_socket_v6 s) of
        Some (a, []) \<Rightarrow> Some a
      | _ \<Rightarrow> None)"

text \<open>\<open>str::to_socket_addrs\<close>: a literal address, or a host that the system looks up.\<close>

definition to_socket_addrs :: "(string \<Rightarrow> string + ip_addr list) \<Rightarrow> string \<Rightarrow> string + socket_addr list" where
  "to_socket_addrs lookup s = (case parse_socket_addr s of
      Some a \<Rightarrow> Inr [a]
    | None \<Rightarrow> (case rsplit_once (CHR '':'') s of
        None \<Rightarrow> Inl ''invalid socket address''
      | Some (host, port) \<Rightarrow> (case parse_unsigned (2 ^ 16) port of
          None \<Rightarrow> Inl ''invalid port value''
        | Some p \<Rightarrow> map_sum id (map (\<lambda>ip. \<lparr>sa_ip = ip, sa_scope = 0, sa_port = of_nat p\<rparr>)) (lookup host))))"

end
