(* ===== verification/Core.thy ===== *)
theory Core
  imports Store Attach Net_Addr
begin

text \<open>
  The broker core (\<open>crates/broker/src/core.rs\<close>): sessions with their bounded outbound
  queue and in-flight calls, the registry, watch streaming, acknowledgment updates, and
  delivery. The state of \<open>Inner\<close> is the record \<open>broker\<close>; a function that mutates it
  through shared handles is a function from broker to broker. Spawned tasks are entries
  of \<open>b_tasks\<close>, run by their own steps in any order; a call that waits for its response
  is an entry of the session's \<open>pending\<close> map, with the delivery that waits on it; when
  the session goes away the wait goes on in \<open>b_orphans\<close> until its timeout. Handlers and
  task steps are atomic (each runs under the locks it takes; no handler awaits). Instants
  are milliseconds in \<open>b_now\<close>. A map is an association list in some order; no theorem
  depends on which.
\<close>

section \<open>Configuration\<close>

definition DEFAULT_PORT :: u16 where
  "DEFAULT_PORT = 9675"

record broker_config =
  listens :: "socket_addr list"
  db_path :: "string option"
  message_size_limit :: nat
  grace_window :: nat
  version :: string
  auth_token :: "string option"
  codex_token_file :: "string option"
  max_out_queue :: nat
  admin_token :: "string option"

definition default_config :: "string \<Rightarrow> broker_config" where
  "default_config ver = \<lparr>listens = [\<lparr>sa_ip = V4 [127, 0, 0, 1], sa_scope = 0, sa_port = DEFAULT_PORT\<rparr>], db_path = None, message_size_limit = 8 * 1024 * 1024,
     grace_window = 60000, version = ver, auth_token = None, codex_token_file = None,
     max_out_queue = 8192, admin_token = None\<rparr>"

section \<open>Sessions\<close>

datatype watch_filter = WatchOff | WatchAll | WatchChannels "string list"

text \<open>What waits for the answer of a \<open>message/deliver\<close> call.\<close>

record delivery =
  d_recipient :: string
  d_envelope :: envelope
  d_tracked :: bool

record session =
  s_out :: "message list"
  s_client_info :: "client_info option"
  s_principal :: "string option"
  s_admin :: bool
  s_watch :: watch_filter
  s_codex :: "codex_coordinates option"
  s_next_req_id :: u64
  s_pending :: "(u64 \<times> delivery) list"
  s_queued :: nat
  s_max_out_queue :: nat
  s_overflow :: bool

definition new_session :: "nat \<Rightarrow> session" where
  "new_session limit = \<lparr>s_out = [], s_client_info = None, s_principal = None, s_admin = False,
     s_watch = WatchOff, s_codex = None, s_next_req_id = 1, s_pending = [], s_queued = 0,
     s_max_out_queue = limit, s_overflow = False\<rparr>"

text \<open>\<open>Session::send\<close>: reserve a slot or overflow; nothing more is queued after that.\<close>

definition send :: "message \<Rightarrow> session \<Rightarrow> session" where
  "send msg s =
     (if s_overflow s then s
      else if s_queued s < s_max_out_queue s
      then s\<lparr>s_queued := s_queued s + 1, s_out := s_out s @ [msg]\<rparr>
      else s\<lparr>s_overflow := True\<rparr>)"

text \<open>The writer task takes one message off the queue.\<close>

definition writer_recv :: "session \<Rightarrow> (message \<times> session) option" where
  "writer_recv s = (case s_out s of [] \<Rightarrow> None
     | m # ms \<Rightarrow> Some (m, s\<lparr>s_out := ms, s_queued := s_queued s - 1\<rparr>))"

text \<open>The first half of \<open>Session::call\<close>: allocate an id, park the waiter, send.\<close>

definition call_start :: "string \<Rightarrow> json \<Rightarrow> delivery \<Rightarrow> session \<Rightarrow> session" where
  "call_start method params d s =
     (let i = s_next_req_id s in
      send (Request (mk_request i method params))
        (s\<lparr>s_next_req_id := i + 1, s_pending := (i, d) # filter (\<lambda>p. fst p \<noteq> i) (s_pending s)\<rparr>))"

text \<open>\<open>resolve_response\<close>: the waiter the response settles, with the call's result.\<close>

definition resolve_response :: "response \<Rightarrow> session \<Rightarrow> (delivery \<times> (rpc_error + json)) option \<times> session" where
  "resolve_response resp s = (case rs_id resp of
      IdNum n \<Rightarrow> (case map_of (s_pending s) n of
          Some d \<Rightarrow> (Some (d, (case rs_error resp of Some e \<Rightarrow> Inl e
              | None \<Rightarrow> Inr (case rs_result resp of Some v \<Rightarrow> v | None \<Rightarrow> JNull))),
            s\<lparr>s_pending := filter (\<lambda>p. fst p \<noteq> n) (s_pending s)\<rparr>)
        | None \<Rightarrow> (None, s))
    | _ \<Rightarrow> (None, s))"

definition delivery_timeout :: rpc_error where
  "delivery_timeout = \<lparr>err_code = -32000, err_message = ''delivery timeout'', err_data = None\<rparr>"

section \<open>The broker\<close>

record delete_token =
  dt_channel_id :: int
  dt_channel_name :: string
  dt_session_id :: u64
  dt_expires :: nat

record attach_cache =
  ac_clients :: "string list"
  ac_dial_backoff :: "(string \<times> nat \<times> nat) list"

text \<open>A delivery in the retry loop of \<open>deliver_via_codex\<close>: at its check of the session, waiting
  for the attach client, or injecting.\<close>

record codex_task =
  ct_recipient :: string
  ct_envelope :: envelope
  ct_coords :: codex_coordinates
  ct_tracked :: bool
  ct_session_id :: u64
  ct_retry :: nat
  ct_wake :: nat

datatype task = SpawnDeliver string envelope bool | CodexTask codex_task | CodexDial codex_task | CodexInject codex_task

record broker =
  b_cfg :: broker_config
  b_db :: conn
  b_started :: nat
  b_sessions :: "(u64 \<times> session) list"
  b_next_session_id :: u64
  b_delete_tokens :: "(string \<times> delete_token) list"
  b_token_counter :: u64
  b_shutdown :: bool
  b_shutdown_pending :: bool
  b_attach :: attach_cache
  b_tasks :: "task list"
  b_orphans :: "delivery list"
  b_grace_pending :: bool
  b_now :: nat

definition DELIVER_TIMEOUT :: nat where
  "DELIVER_TIMEOUT = 30000"

definition DELETE_TOKEN_TTL :: nat where
  "DELETE_TOKEN_TTL = 30000"

definition CODEX_RETRY_MAX :: nat where
  "CODEX_RETRY_MAX = 30000"

text \<open>\<open>Broker::new\<close> on an opened store: the grace window is pending.\<close>

definition new_broker :: "broker_config \<Rightarrow> conn \<Rightarrow> nat \<Rightarrow> broker" where
  "new_broker cfg db now = \<lparr>b_cfg = cfg, b_db = db, b_started = now, b_sessions = [], b_next_session_id = 1,
     b_delete_tokens = [], b_token_counter = 1, b_shutdown = False, b_shutdown_pending = False,
     b_attach = \<lparr>ac_clients = [], ac_dial_backoff = []\<rparr>, b_tasks = [], b_orphans = [], b_grace_pending = True,
     b_now = now\<rparr>"

definition open_broker ::
  "broker_config \<Rightarrow> (string + unit) option \<Rightarrow> string + conn \<Rightarrow> nat \<Rightarrow> open_error + broker" where
  "open_broker cfg parent connection now = map_sum id (\<lambda>db. new_broker cfg db now)
     (case db_path cfg of Some _ \<Rightarrow> open_store parent connection | None \<Rightarrow> open_in_memory connection)"

text \<open>A store operation run on the broker's connection.\<close>

definition store :: "'a db \<Rightarrow> (broker, store_error, 'a) em" where
  "store m b = (case m (b_db b) of (r, c) \<Rightarrow> (r, b\<lparr>b_db := c\<rparr>))"

definition upd_session :: "u64 \<Rightarrow> (session \<Rightarrow> session) \<Rightarrow> broker \<Rightarrow> broker" where
  "upd_session sid f b = b\<lparr>b_sessions := map (\<lambda>p. if fst p = sid then (fst p, f (snd p)) else p) (b_sessions b)\<rparr>"

definition the_session :: "u64 \<Rightarrow> broker \<Rightarrow> session" where
  "the_session sid b = (case map_of (b_sessions b) sid of Some s \<Rightarrow> s | None \<Rightarrow> new_session 0)"

definition attach :: "broker \<Rightarrow> u64 \<times> broker" where
  "attach b = (let i = b_next_session_id b in
     (i, b\<lparr>b_next_session_id := i + 1,
           b_sessions := (i, new_session (max_out_queue (b_cfg b))) # filter (\<lambda>p. fst p \<noteq> i) (b_sessions b)\<rparr>))"

definition session_of :: "string \<Rightarrow> broker \<Rightarrow> (u64 \<times> session) option" where
  "session_of p b = List.find (\<lambda>s. s_principal (snd s) = Some p) (b_sessions b)"

definition principal_active :: "string \<Rightarrow> broker \<Rightarrow> bool" where
  "principal_active p b \<longleftrightarrow> session_of p b \<noteq> None"

section \<open>Log and watch\<close>

definition wants :: "watch_filter \<Rightarrow> string list option \<Rightarrow> bool \<Rightarrow> bool" where
  "wants w scope is_dm = (case w of
      WatchOff \<Rightarrow> False
    | WatchAll \<Rightarrow> True
    | WatchChannels chs \<Rightarrow> \<not> is_dm \<and> (case scope of None \<Rightarrow> False | Some cs \<Rightarrow> (\<exists>c \<in> set cs. c \<in> set chs)))"

definition watch_message :: "watch_event \<Rightarrow> message" where
  "watch_message ev = Notification (mk_notification (method_name WATCH_EVENT) (enc_watch_event ev))"

definition broadcast :: "watch_event \<Rightarrow> string list option \<Rightarrow> bool \<Rightarrow> broker \<Rightarrow> broker" where
  "broadcast ev scope is_dm b = b\<lparr>b_sessions :=
     map (\<lambda>p. if wants (s_watch (snd p)) scope is_dm then (fst p, send (watch_message ev) (snd p)) else p) (b_sessions b)\<rparr>"

definition system_record :: "system_event \<Rightarrow> (int \<times> string) option \<Rightarrow> broker \<Rightarrow> broker" where
  "system_record ev channel b = (case store (append_system ev (map_option fst channel)) b of
      (Inr record, b') \<Rightarrow> broadcast (WatchRecord record) (map_option (\<lambda>c. [snd c]) channel) False b'
    | (Inl e, b') \<Rightarrow> b')"

definition broadcast_ack :: "u64 \<Rightarrow> string \<Rightarrow> ack_state \<Rightarrow> u64 \<Rightarrow> string option \<Rightarrow> broker \<Rightarrow> broker" where
  "broadcast_ack rid recipient st ts reason b =
     (let (r, b') = store (envelope_of rid) b;
          scope = (case r of Inr (Some e) \<Rightarrow> Some (to_channels (recipients_of e)) | _ \<Rightarrow> None);
          is_dm = (scope = Some [])
      in broadcast (WatchAck \<lparr>at_kind = ''ack'', at_message_id = rid, at_recipient = recipient, at_state = st,
           at_timestamp = ts, at_reason = reason\<rparr>) scope is_dm b')"

definition ack_update :: "u64 \<Rightarrow> string \<Rightarrow> ack_state \<Rightarrow> string option \<Rightarrow> broker \<Rightarrow> broker" where
  "ack_update rid recipient st reason b = (case store (ack_set rid recipient st reason) b of
      (Inr (Some ts), b') \<Rightarrow> broadcast_ack rid recipient st ts reason b'
    | (Inr None, b') \<Rightarrow> b'
    | (Inl e, b') \<Rightarrow> b')"

text \<open>\<open>unwrap_or_else(|e| Vec::new())\<close> of a sweep's query.\<close>

definition or_empty :: "'a list db \<Rightarrow> broker \<Rightarrow> 'a list \<times> broker" where
  "or_empty m b = (case store m b of (Inr xs, b') \<Rightarrow> (xs, b') | (Inl e, b') \<Rightarrow> ([], b'))"

definition fail_disconnected :: "string \<Rightarrow> u64 \<Rightarrow> broker \<Rightarrow> broker" where
  "fail_disconnected recipient rid = ack_update rid recipient Failed (Some ''disconnected'')"

definition detach :: "u64 \<Rightarrow> broker \<Rightarrow> broker" where
  "detach sid b =
     (let s = the_session sid b;
          b1 = b\<lparr>b_sessions := filter (\<lambda>p. fst p \<noteq> sid) (b_sessions b),
                 b_orphans := b_orphans b @ map snd (s_pending s)\<rparr>
      in case s_principal s of None \<Rightarrow> b1
         | Some p \<Rightarrow>
             (let b2 = system_record (Disconnected p) None b1;
                  (held, b3) = or_empty (held_for p) b2
              in fold (fail_disconnected p) held b3))"

text \<open>The restart sweep, when the grace window closes.\<close>

definition sweep_entry :: "u64 \<times> string \<Rightarrow> broker \<Rightarrow> broker" where
  "sweep_entry e b = (if session_of (snd e) b = None then fail_disconnected (snd e) (fst e) b else b)"

definition grace_window_closes :: "broker \<Rightarrow> broker" where
  "grace_window_closes b = (let (held, b1) = or_empty held_all (b\<lparr>b_grace_pending := False\<rparr>) in fold sweep_entry held b1)"

section \<open>Delivery\<close>

definition spawn_deliver :: "string \<Rightarrow> envelope \<Rightarrow> bool \<Rightarrow> broker \<Rightarrow> broker" where
  "spawn_deliver recipient env tracked b = b\<lparr>b_tasks := b_tasks b @ [SpawnDeliver recipient env tracked]\<rparr>"

definition drain_entry :: "string \<Rightarrow> u64 \<Rightarrow> broker \<Rightarrow> broker" where
  "drain_entry p rid b = (case store (envelope_of rid) b of
      (Inr (Some e), b') \<Rightarrow> spawn_deliver p e True b'
    | (_, b') \<Rightarrow> b')"

definition drain_held :: "string \<Rightarrow> broker \<Rightarrow> broker" where
  "drain_held p b = (let (held, b1) = or_empty (held_for p) b in fold (drain_entry p) held b1)"

text \<open>The task of \<open>spawn_deliver\<close>, up to where it waits.\<close>

definition deliver_task :: "string \<Rightarrow> envelope \<Rightarrow> bool \<Rightarrow> broker \<Rightarrow> broker" where
  "deliver_task recipient env tracked b = (case session_of recipient b of
      None \<Rightarrow> if tracked then fail_disconnected recipient (message_id env) b else b
    | Some (sid, s) \<Rightarrow> (case s_codex s of
          Some coords \<Rightarrow> b\<lparr>b_tasks := b_tasks b @ [CodexTask \<lparr>ct_recipient = recipient, ct_envelope = env,
            ct_coords = coords, ct_tracked = tracked, ct_session_id = sid, ct_retry = 1000, ct_wake = b_now b\<rparr>]\<rparr>
        | None \<Rightarrow> upd_session sid (call_start (method_name MESSAGE_DELIVER)
            (enc_deliver_params \<lparr>dp_recipient = recipient, dp_envelope = env\<rparr>)
            \<lparr>d_recipient = recipient, d_envelope = env, d_tracked = tracked\<rparr>) b))"

text \<open>The rest of it, with the result of the call.\<close>

definition deliver_result :: "delivery \<Rightarrow> rpc_error + json \<Rightarrow> broker \<Rightarrow> broker" where
  "deliver_result d result b =
     (if \<not> d_tracked d then b
      else case result of
        Inr _ \<Rightarrow> ack_update (message_id (d_envelope d)) (d_recipient d) Relayed None b
      | Inl e \<Rightarrow> ack_update (message_id (d_envelope d)) (d_recipient d) Failed (Some (err_message e)) b)"

text \<open>A response arrives on a session: the call it settles goes on.\<close>

definition on_response :: "u64 \<Rightarrow> response \<Rightarrow> broker \<Rightarrow> broker" where
  "on_response sid resp b = (case fst (resolve_response resp (the_session sid b)) of
      Some (d, r) \<Rightarrow> deliver_result d r (upd_session sid (\<lambda>s. snd (resolve_response resp s)) b)
    | None \<Rightarrow> b)"

text \<open>A call's timeout fires.\<close>

definition call_timeout :: "u64 \<Rightarrow> u64 \<Rightarrow> broker \<Rightarrow> broker" where
  "call_timeout sid i b = (case map_of (s_pending (the_session sid b)) i of
      Some d \<Rightarrow> deliver_result d (Inl delivery_timeout)
        (upd_session sid (\<lambda>s. s\<lparr>s_pending := filter (\<lambda>p. fst p \<noteq> i) (s_pending s)\<rparr>) b)
    | None \<Rightarrow> b)"

definition orphan_timeout :: "delivery \<Rightarrow> broker \<Rightarrow> broker" where
  "orphan_timeout d b = (if d \<in> set (b_orphans b)
     then deliver_result d (Inl delivery_timeout) (b\<lparr>b_orphans := remove1 d (b_orphans b)\<rparr>) else b)"

subsection \<open>Codex recipients\<close>

text \<open>\<open>codex_attach_client\<close>: a cached client, the dial backoff, an unreadable token file, or
  a dial, whose outcome is given (\<open>None\<close> when the connection was made).\<close>

definition backoff_of :: "string \<Rightarrow> attach_cache \<Rightarrow> (nat \<times> nat) option" where
  "backoff_of endpoint ac = map_of (ac_dial_backoff ac) endpoint"

definition set_backoff :: "string \<Rightarrow> (nat \<times> nat) option \<Rightarrow> attach_cache \<Rightarrow> attach_cache" where
  "set_backoff endpoint v ac = ac\<lparr>ac_dial_backoff :=
     (case v of None \<Rightarrow> [] | Some x \<Rightarrow> [(endpoint, x)]) @ filter (\<lambda>p. fst p \<noteq> endpoint) (ac_dial_backoff ac)\<rparr>"

definition codex_attach_client ::
  "string \<Rightarrow> string option \<Rightarrow> string option \<Rightarrow> nat \<Rightarrow> attach_cache \<Rightarrow> (string + unit) \<times> attach_cache" where
  "codex_attach_client endpoint token_error dial_error now ac =
     (if endpoint \<in> set (ac_clients ac) then (Inr (), ac)
      else if (case backoff_of endpoint ac of Some (_, not_before) \<Rightarrow> now < not_before | None \<Rightarrow> False)
      then (Inl ''endpoint in dial backoff'', ac)
      else case token_error of
        Some e \<Rightarrow> (Inl (''cannot read codex token file: '' @ e), ac)
      | None \<Rightarrow> (case dial_error of
          None \<Rightarrow> (Inr (), set_backoff endpoint None (ac\<lparr>ac_clients := endpoint # ac_clients ac\<rparr>))
        | Some e \<Rightarrow>
            (let next = (case backoff_of endpoint ac of Some (d, _) \<Rightarrow> min (d * 2) CODEX_RETRY_MAX | None \<Rightarrow> 1000)
             in (Inl e, set_backoff endpoint (Some (next, now + next)) ac))))"

text \<open>The loop of \<open>deliver_via_codex\<close>, cut where it waits: for the attach client, for the end of
  the injection, and in the sleep before the next round. Anything may happen to the broker
  in between. Each part yields where the task goes on, if it does.\<close>

definition codex_check :: "codex_task \<Rightarrow> broker \<Rightarrow> task option \<times> broker" where
  "codex_check ct b = (case session_of (ct_recipient ct) b of
      None \<Rightarrow> (None, if ct_tracked ct then fail_disconnected (ct_recipient ct) (message_id (ct_envelope ct)) b else b)
    | Some (sid, _) \<Rightarrow> if sid \<noteq> ct_session_id ct then (None, b) else (Some (CodexDial ct), b))"

text \<open>What is done with the outcome of a round.\<close>

definition codex_outcome :: "delivered \<Rightarrow> codex_task \<Rightarrow> broker \<Rightarrow> task option \<times> broker" where
  "codex_outcome outcome ct b =
     (let rid = message_id (ct_envelope ct); recipient = ct_recipient ct; endpoint = cx_app_server (ct_coords ct) in
      case outcome of
        Delivered \<Rightarrow> (None, if ct_tracked ct
          then ack_update rid recipient Processed None (ack_update rid recipient Relayed None b) else b)
      | DeliveryFailed reason \<Rightarrow> (None, if ct_tracked ct then ack_update rid recipient Failed (Some reason) b else b)
      | Unreachable reason \<Rightarrow>
          (let b1 = b\<lparr>b_attach := (b_attach b)\<lparr>ac_clients := filter (\<lambda>e. e \<noteq> endpoint) (ac_clients (b_attach b))\<rparr>\<rparr>
           in if \<not> ct_tracked ct then (None, b1)
              else (Some (CodexTask (ct\<lparr>ct_wake := b_now b + ct_retry ct, ct_retry := min (ct_retry ct * 2) CODEX_RETRY_MAX\<rparr>)), b1)))"

text \<open>The environment decides whether the token file can be read and how a dial goes.\<close>

definition codex_dial :: "string option \<Rightarrow> string option \<Rightarrow> codex_task \<Rightarrow> broker \<Rightarrow> task option \<times> broker" where
  "codex_dial token_error dial_error ct b =
     (let (client, ac) = codex_attach_client (cx_app_server (ct_coords ct))
            (if codex_token_file (b_cfg b) = None then None else token_error) dial_error (b_now b) (b_attach b);
          b1 = b\<lparr>b_attach := ac\<rparr>
      in case client of
           Inr _ \<Rightarrow> (Some (CodexInject ct), b1)
         | Inl e \<Rightarrow> codex_outcome (Unreachable (''app-server unreachable: '' @ e)) ct b1)"

text \<open>What the task injects.\<close>

definition codex_text :: "codex_task \<Rightarrow> string" where
  "codex_text ct = render_delivery (ct_envelope ct)"

end
