(* ===== verification/Rpc.thy ===== *)
theory Rpc
  imports Core
begin

text \<open>
  JSON-RPC dispatch and the method handlers (\<open>crates/broker/src/core/rpc.rs\<close>). A handler
  is a program over the broker that fails with an RPC error: \<open>?\<close> and \<open>map_err\<close> are the
  monad's bind, every early return is a branch, and what a handler did before it failed
  stays done. The texts serde gives for malformed parameters are not modelled; their code
  is.
\<close>

type_synonym 'a handler = "(broker, rpc_error, 'a) em"

section \<open>Errors\<close>

fun store_error_text :: "store_error \<Rightarrow> string" where
  "store_error_text StNameTaken = ''name taken''"
| "store_error_text (NewerSchema f s) = ''database is from a newer workplace version (schema ''
     @ show_nat (nat f) @ '' > '' @ show_nat (nat s) @ '')''"
| "store_error_text (Sql (ConstraintViolation t)) = t"
| "store_error_text (Sql DiskFull) = ''database or disk is full''"
| "store_error_text (Sql ConversionFailure) = ''Conversion error from type Text''"
| "store_error_text (Sql (EngineFailure t)) = t"

definition internal :: "string \<Rightarrow> rpc_error" where
  "internal e = \<lparr>err_code = -32603, err_message = ''internal error: '' @ e, err_data = None\<rparr>"

text \<open>\<open>store.f(..).map_err(internal)?\<close>.\<close>

definition try_store :: "'a db \<Rightarrow> 'a handler" where
  "try_store m = handleE (store m) (\<lambda>e. failE (internal (store_error_text e))) returnE"

definition fail :: "error_code \<Rightarrow> string \<Rightarrow> 'a handler" where
  "fail c detail = failE (to_error c detail)"

definition invalid_params :: rpc_error where
  "invalid_params = \<lparr>err_code = -32602, err_message = ''invalid params: '', err_data = None\<rparr>"

definition parse :: "(json \<Rightarrow> 'a option) \<Rightarrow> json \<Rightarrow> 'a handler" where
  "parse d params = (case d params of None \<Rightarrow> failE invalid_params | Some p \<Rightarrow> returnE p)"

section \<open>Session state\<close>

definition principal_of :: "u64 \<Rightarrow> string option handler" where
  "principal_of sid = getE (\<lambda>b. s_principal (the_session sid b))"

definition is_admin :: "u64 \<Rightarrow> bool handler" where
  "is_admin sid = getE (\<lambda>b. s_admin (the_session sid b))"

definition require_principal :: "u64 \<Rightarrow> string \<Rightarrow> string handler" where
  "require_principal sid detail = bindE (principal_of sid) (\<lambda>p.
     case p of None \<Rightarrow> fail NotRegistered detail | Some n \<Rightarrow> returnE n)"

definition require_admin :: "u64 \<Rightarrow> string handler" where
  "require_admin sid = bindE (getE (the_session sid)) (\<lambda>s.
     case (s_admin s, s_principal s) of
       (True, Some p) \<Rightarrow> returnE p
     | (True, None) \<Rightarrow> failE (internal ''admin session without principal'')
     | _ \<Rightarrow> fail NotAdmin ''admin verb on a non-admin session'')"

definition bind_principal :: "string option \<Rightarrow> bool \<Rightarrow> codex_coordinates option \<Rightarrow> session \<Rightarrow> session" where
  "bind_principal p adm cx s = s\<lparr>s_principal := p, s_admin := adm, s_codex := cx\<rparr>"

definition live_channel :: "string \<Rightarrow> channel_row handler" where
  "live_channel nm = bindE (try_store (channel_by_name nm)) (\<lambda>c. case c of
      Some ch \<Rightarrow> if ch_archived ch = 0 then returnE ch else fail UnknownName (nm @ '' is archived'')
    | None \<Rightarrow> fail UnknownName (''no such channel: '' @ nm))"

definition known_channel :: "string \<Rightarrow> channel_row handler" where
  "known_channel nm = bindE (try_store (channel_by_name nm)) (\<lambda>c. case c of
      Some ch \<Rightarrow> returnE ch | None \<Rightarrow> fail UnknownName (''no such channel: '' @ nm))"

definition known_principal :: "string \<Rightarrow> int handler" where
  "known_principal nm = bindE (try_store (principal_id nm)) (\<lambda>p. case p of
      Some i \<Rightarrow> returnE i | None \<Rightarrow> fail UnknownName (''no such principal: '' @ nm))"

definition principal_row :: "string \<Rightarrow> int handler" where
  "principal_row nm = bindE (try_store (principal_id nm)) (\<lambda>p. case p of
      Some i \<Rightarrow> returnE i | None \<Rightarrow> failE (internal (''principal '' @ nm @ '' not persisted'')))"

section \<open>Loopback endpoints\<close>

text \<open>The part before the first occurrence of a character, and the part before the last.\<close>

definition before_char :: "char \<Rightarrow> string \<Rightarrow> string" where
  "before_char c s = takeWhile (\<lambda>d. d \<noteq> c) s"

definition before_last :: "char \<Rightarrow> string \<Rightarrow> string" where
  "before_last c s = (if c \<in> set s then rev (tl (dropWhile (\<lambda>d. d \<noteq> c) (rev s))) else s)"

definition url_host :: "string \<Rightarrow> string" where
  "url_host authority = (case strip_prefix ''['' authority of
      Some v6 \<Rightarrow> before_char (CHR '']'') v6
    | None \<Rightarrow> before_last (CHR '':'') authority)"

definition loopback_ws_url :: "string \<Rightarrow> bool" where
  "loopback_ws_url url = (case strip_prefix ''ws://'' url of
      None \<Rightarrow> False
    | Some rest \<Rightarrow>
        (let host = url_host (before_char (CHR ''/'') rest) in
         host = ''localhost'' \<or> (case parse_ip host of None \<Rightarrow> False | Some ip \<Rightarrow> is_loopback ip)))"

section \<open>Registration\<close>

definition hello :: "u64 \<Rightarrow> hello_params \<Rightarrow> json handler" where
  "hello sid p = bindE (getE b_cfg) (\<lambda>cfg.
     if auth_token cfg \<noteq> None \<and> hp_auth_token p \<noteq> auth_token cfg
     then fail Unauthorized ''missing or invalid auth token''
     else bindE (modifyE (upd_session sid (\<lambda>s. s\<lparr>s_client_info := Some (hp_client_info p)\<rparr>))) (\<lambda>_.
       returnE (enc_hello_result (version cfg) sid)))"

definition deny_registration :: "string \<Rightarrow> string \<Rightarrow> unit handler" where
  "deny_registration nm reason = modifyE (system_record (RegistrationDenied nm reason) None)"

definition authorized :: "broker_config \<Rightarrow> register_params \<Rightarrow> bool" where
  "authorized cfg p = (case (admin_token cfg, rp_admin_token p) of
     (Some required, Some supplied) \<Rightarrow> required = supplied | _ \<Rightarrow> False)"

definition register :: "u64 \<Rightarrow> register_params \<Rightarrow> bool \<Rightarrow> json handler" where
  "register sid p admin =
     (if \<not> valid_principal_name (rp_name p)
      then fail InvalidName (''principal names are '' @ [CHR 0x27] @ ''@'' @ [CHR 0x27] @ '' + lowercase alphanumeric/''
        @ [CHR 0x27] @ ''-'' @ [CHR 0x27] @ '': '' @ rp_name p)
      else if (case rp_codex p of Some cx \<Rightarrow> \<not> loopback_ws_url (cx_app_server cx) | None \<Rightarrow> False)
      then fail InvalidName (''codex app_server must be a loopback ws:// endpoint: ''
        @ (case rp_codex p of Some cx \<Rightarrow> cx_app_server cx | None \<Rightarrow> []))
      else bindE (getE b_cfg) (\<lambda>cfg.
        if admin \<and> \<not> authorized cfg p
        then bindE (deny_registration (rp_name p) ''invalid admin credential'') (\<lambda>_.
          fail Unauthorized (''admin registration requires the admin token (see the daemon''
            @ [CHR 0x27] @ ''s admin-token file, ADR-0019)''))
        else bindE (principal_of sid) (\<lambda>bound.
          if bound \<noteq> None then fail AlreadyRegistered ''session already bound to a principal''
          else bindE (getE (principal_active (rp_name p))) (\<lambda>claimed.
            if claimed
            then bindE (deny_registration (rp_name p) ''actively claimed'') (\<lambda>_.
              fail NameTaken (rp_name p @ '' is actively claimed''))
            else bindE (modifyE (upd_session sid (bind_principal (Some (rp_name p)) admin (rp_codex p)))) (\<lambda>_.
              handleE (store (register_principal (rp_name p) admin))
                (\<lambda>e. bindE (modifyE (upd_session sid (bind_principal None False None))) (\<lambda>_.
                   failE (internal (store_error_text e))))
                (\<lambda>record. bindE (modifyE (broadcast (WatchRecord record) None False)) (\<lambda>_.
                   bindE (modifyE (drain_held (rp_name p))) (\<lambda>_.
                   returnE (enc_register_result (rp_name p))))))))))"

definition deregister :: "u64 \<Rightarrow> json handler" where
  "deregister sid = bindE (require_principal sid ''session has no principal'') (\<lambda>p.
     bindE (try_store (append_system (Deregistered p) None)) (\<lambda>record.
     bindE (modifyE (upd_session sid (bind_principal None False None))) (\<lambda>_.
     bindE (modifyE (broadcast (WatchRecord record) None False)) (\<lambda>_.
     returnE JNull))))"

section \<open>Sending\<close>

text \<open>\<open>str::is_char_boundary\<close>, and the loop that moves a cut down to one.\<close>

definition continuation_byte :: "char \<Rightarrow> bool" where
  "continuation_byte c \<longleftrightarrow> 128 \<le> (of_char c :: nat) \<and> (of_char c :: nat) < 192"

definition is_char_boundary :: "string \<Rightarrow> nat \<Rightarrow> bool" where
  "is_char_boundary s i \<longleftrightarrow> i = 0 \<or> i = length s \<or> (i < length s \<and> \<not> continuation_byte (s ! i))"

fun char_floor :: "string \<Rightarrow> nat \<Rightarrow> nat" where
  "char_floor s 0 = 0"
| "char_floor s (Suc n) = (if is_char_boundary s (Suc n) then Suc n else char_floor s n)"

definition truncate_body :: "nat \<Rightarrow> string \<Rightarrow> string \<times> bool" where
  "truncate_body limit contents =
     (if length contents > limit then (take (char_floor contents limit) contents, True) else (contents, False))"

text \<open>The audience (ADR-0009): the addressed principals subscribed to one of the addressed
  channels, the subscribers of the channels, or the addressed principals.\<close>

fun subscribed_any :: "int \<Rightarrow> int list \<Rightarrow> bool handler" where
  "subscribed_any p [] = returnE False"
| "subscribed_any p (c # cs) = bindE (try_store (is_subscribed p c)) (\<lambda>y.
     if y then returnE True else subscribed_any p cs)"

fun intersect_audience :: "string list \<Rightarrow> int list \<Rightarrow> string list handler" where
  "intersect_audience [] cs = returnE []"
| "intersect_audience (p # ps) cs = bindE (try_store (principal_id p)) (\<lambda>i. case i of
      None \<Rightarrow> failE (internal ''principal disappeared mid-send'')
    | Some pid \<Rightarrow> bindE (subscribed_any pid cs) (\<lambda>y.
        bindE (intersect_audience ps cs) (\<lambda>rest. returnE (if y then p # rest else rest))))"

definition resolve_audience :: "send_params \<Rightarrow> int list \<Rightarrow> (string list \<times> empty_audience option) handler" where
  "resolve_audience p cs =
     (if sp_channels p \<noteq> [] \<and> sp_principals p \<noteq> [] then
        bindE (intersect_audience (sp_principals p) cs) (\<lambda>aud.
        returnE (aud, if aud = [] then Some EmptyIntersection else None))
      else if sp_channels p \<noteq> [] then
        bindE (mapE (\<lambda>c. try_store (subscribers_of c)) cs) (\<lambda>subs.
        returnE (concat subs, if concat subs = [] then Some NoSubscribers else None))
      else returnE (sp_principals p, None))"

text \<open>\<open>sort\<close>, \<open>dedup\<close>, and the sender taken out.\<close>

definition normalize_audience :: "string \<Rightarrow> string list \<Rightarrow> string list" where
  "normalize_audience author aud = filter (\<lambda>r. r \<noteq> author) (remdups_adj (sort aud))"

definition check_thread :: "u64 option \<Rightarrow> unit handler" where
  "check_thread thread = (case thread of None \<Rightarrow> returnE ()
     | Some t \<Rightarrow> bindE (try_store (message_exists t)) (\<lambda>y.
         if y then returnE () else fail UnknownName (''no such thread: '' @ show_u64 t)))"

definition report_absent :: "u64 \<Rightarrow> string \<Rightarrow> broker \<Rightarrow> broker" where
  "report_absent rid recipient b =
     broadcast_ack rid recipient Failed (clock (b_db b)) (Some ''disconnected'') b"

definition spawn_tracked :: "envelope \<Rightarrow> string \<Rightarrow> broker \<Rightarrow> broker" where
  "spawn_tracked env recipient = spawn_deliver recipient env True"

text \<open>The admin observability tap.\<close>

definition tap_principals :: "string \<Rightarrow> string list \<Rightarrow> broker \<Rightarrow> string list" where
  "tap_principals author audience b = concat (map (\<lambda>p. case s_principal (snd p) of
      Some a \<Rightarrow> if s_admin (snd p) \<and> a \<noteq> author \<and> a \<notin> set audience then [a] else []
    | None \<Rightarrow> []) (b_sessions b))"

definition admin_tap :: "string \<Rightarrow> string list \<Rightarrow> envelope \<Rightarrow> broker \<Rightarrow> broker" where
  "admin_tap author audience env b =
     fold (\<lambda>a. spawn_deliver a env False) (tap_principals author audience b) b"

text \<open>The second half of the handler, once the audience is found.\<close>

definition commit_send :: "string \<Rightarrow> send_params \<Rightarrow> int list \<Rightarrow> string list \<Rightarrow> empty_audience option \<Rightarrow> json handler" where
  "commit_send author p channel_ids found why =
     (let audience = normalize_audience author found;
          empty_aud = (if audience = [] then why else None);
          rcpts = \<lparr>to_channels = sp_channels p, to_principals = sp_principals p\<rparr> in
     bindE (getE (\<lambda>b. truncate_body (message_size_limit (b_cfg b)) (sp_body p))) (\<lambda>(contents, trunc).
     bindE (getE (\<lambda>b. (filter (\<lambda>r. principal_active r b) audience, filter (\<lambda>r. \<not> principal_active r b) audience)))
       (\<lambda>(held, absent).
     bindE (try_store (append_message_with_acks author rcpts contents trunc (sp_thread_id p) channel_ids held absent)) (\<lambda>env.
     bindE (modifyE (fold (spawn_tracked env) held)) (\<lambda>_.
     bindE (modifyE (fold (report_absent (message_id env)) absent)) (\<lambda>_.
     bindE (modifyE (admin_tap author audience env)) (\<lambda>_.
     bindE (modifyE (broadcast (WatchRecord (MessageRec env)) (Some (to_channels (recipients_of env)))
       (to_channels (recipients_of env) = []))) (\<lambda>_.
     returnE (enc_send_result (message_id env) (thread_id env)
       \<lparr>dr_delivered = held,
        dr_failed = map (\<lambda>r. \<lparr>fd_principal = r, fd_reason = ''disconnected''\<rparr>) absent,
        dr_empty_audience = empty_aud\<rparr>)))))))))"

definition send_message :: "u64 \<Rightarrow> send_params \<Rightarrow> json handler" where
  "send_message sid p = bindE (require_principal sid ''register before sending'') (\<lambda>author.
     if sp_channels p = [] \<and> sp_principals p = []
     then failE \<lparr>err_code = -32602, err_message = ''send requires channels, principals, or both'', err_data = None\<rparr>
     else
     bindE (mapE live_channel (sp_channels p)) (\<lambda>chs.
     bindE (eachE (\<lambda>n. bindE (known_principal n) (\<lambda>_. returnE ())) (sp_principals p)) (\<lambda>_.
     bindE (check_thread (sp_thread_id p)) (\<lambda>_.
     bindE (resolve_audience p (map ch_id chs)) (\<lambda>(found, why).
     commit_send author p (map ch_id chs) found why)))))"

section \<open>Channels\<close>

definition channel_event :: "log_record \<Rightarrow> string \<Rightarrow> unit handler" where
  "channel_event record nm = modifyE (broadcast (WatchRecord record) (Some [nm]) False)"

definition self_subscription_rpc :: "u64 \<Rightarrow> string \<Rightarrow> bool \<Rightarrow> json handler" where
  "self_subscription_rpc sid channel subscribe =
     bindE (require_principal sid ''register before (un)subscribing'') (\<lambda>p.
     bindE (live_channel channel) (\<lambda>ch.
     bindE (principal_row p) (\<lambda>pid.
     bindE (try_store (self_subscription pid (ch_id ch) subscribe p (ch_name ch))) (\<lambda>out.
     case out of
       Applied record \<Rightarrow> bindE (channel_event record (ch_name ch)) (\<lambda>_. returnE JNull)
     | NoChange \<Rightarrow> returnE JNull
     | Denied Cancelled \<Rightarrow> fail OverrideDenied (p @ '' was cancelled from '' @ ch_name ch @ '' by the manager'')
     | Denied Forced \<Rightarrow> fail OverrideDenied (p @ '' is forced onto '' @ ch_name ch @ '' by the manager'')))))"

definition create_channel :: "u64 \<Rightarrow> register_params \<Rightarrow> json handler" where
  "create_channel sid p = bindE (require_principal sid ''register before creating channels'') (\<lambda>by.
     if \<not> valid_channel_name (rp_name p)
     then fail InvalidName (''channel names are '' @ [CHR 0x27] @ ''#'' @ [CHR 0x27] @ '' + lowercase alphanumeric/''
       @ [CHR 0x27] @ ''-'' @ [CHR 0x27] @ '': '' @ rp_name p)
     else handleE (store (create_channel_logged (rp_name p) by))
       (\<lambda>e. case e of
          StNameTaken \<Rightarrow> fail NameTaken (rp_name p @ '' already exists (live or archived)'')
        | _ \<Rightarrow> failE (internal (store_error_text e)))
       (\<lambda>(_, record). bindE (channel_event record (rp_name p)) (\<lambda>_.
          returnE (enc_channel_create_result (rp_name p)))))"

section \<open>Reading\<close>

definition clamp_limit :: "u32 \<Rightarrow> u32" where
  "clamp_limit l = (if l < 1 then 1 else if l > 1000 then 1000 else l)"

definition history_records :: "u64 \<Rightarrow> history_params \<Rightarrow> u32 \<Rightarrow> log_record list handler" where
  "history_records sid p limit = (case hi_scope p of
      ScopeChannel channel \<Rightarrow>
        bindE (known_channel channel) (\<lambda>ch.
        bindE (is_admin sid) (\<lambda>adm.
        if ch_archived ch \<noteq> 0 \<and> \<not> adm then fail ScopeDenied ''archived channel history is admin-only''
        else try_store (history_channel (ch_id ch) (hi_before_message_id p) limit)))
    | DmWith other \<Rightarrow>
        bindE (require_principal sid ''register before reading DM history'') (\<lambda>me.
        bindE (known_principal other) (\<lambda>_.
        try_store (history_dm me other (hi_before_message_id p) limit)))
    | DmBetween a b \<Rightarrow>
        bindE (is_admin sid) (\<lambda>adm.
        if \<not> adm then fail ScopeDenied ''dm_between is admin-only''
        else bindE (eachE (\<lambda>n. bindE (known_principal n) (\<lambda>_. returnE ())) [a, b]) (\<lambda>_.
          try_store (history_dm a b (hi_before_message_id p) limit))))"

definition next_cursor :: "u32 \<Rightarrow> log_record list \<Rightarrow> u64 option" where
  "next_cursor limit records =
     (if (of_nat (length records) :: u32) = limit then (case records of [] \<Rightarrow> None | r # _ \<Rightarrow> Some (record_id r)) else None)"

definition history :: "u64 \<Rightarrow> history_params \<Rightarrow> json handler" where
  "history sid p = (let limit = clamp_limit (hi_limit p) in
     bindE (history_records sid p limit) (\<lambda>records.
     returnE (enc_history_result \<lparr>hr_records = records, hr_next_cursor = next_cursor limit records\<rparr>)))"

definition who :: "json handler" where
  "who = bindE (try_store live_channels) (\<lambda>chs.
     bindE (mapE (\<lambda>c. bindE (try_store (subscribers_of (ch_id c))) (\<lambda>subs. returnE (ch_name c, subs))) chs) (\<lambda>cs.
     bindE (try_store all_principals) (\<lambda>ps.
     bindE (getE (\<lambda>b. map (\<lambda>p. (p, principal_active p b)) ps)) (\<lambda>entries.
     returnE (enc_who_result cs entries)))))"

section \<open>Admin verbs\<close>

definition admin_subscription_rpc :: "u64 \<Rightarrow> admin_subscription_params \<Rightarrow> bool \<Rightarrow> json handler" where
  "admin_subscription_rpc sid p subscribe =
     bindE (require_admin sid) (\<lambda>_.
     bindE (known_principal (sb_principal p)) (\<lambda>pid.
     bindE (live_channel (sb_channel p)) (\<lambda>ch.
     bindE (try_store (admin_subscription pid (ch_id ch) subscribe (sb_principal p) (ch_name ch))) (\<lambda>r.
     case r of
       Some record \<Rightarrow> bindE (channel_event record (ch_name ch)) (\<lambda>_. returnE JNull)
     | None \<Rightarrow> returnE JNull))))"

definition rename :: "u64 \<Rightarrow> rename_params \<Rightarrow> json handler" where
  "rename sid p = bindE (require_admin sid) (\<lambda>by.
     bindE (known_channel (rn_channel p)) (\<lambda>ch.
     if \<not> valid_channel_name (rn_new_name p)
     then fail InvalidName (''invalid channel name: '' @ rn_new_name p)
     else handleE (store (rename_channel_logged (ch_id ch) (rn_channel p) (rn_new_name p) by))
       (\<lambda>e. case e of
          StNameTaken \<Rightarrow> fail NameTaken (rn_new_name p @ '' already exists'')
        | _ \<Rightarrow> failE (internal (store_error_text e)))
       (\<lambda>record. bindE (channel_event record (rn_new_name p)) (\<lambda>_. returnE JNull))))"

definition archive :: "u64 \<Rightarrow> string \<Rightarrow> bool \<Rightarrow> json handler" where
  "archive sid channel arch = bindE (require_admin sid) (\<lambda>by.
     bindE (known_channel channel) (\<lambda>ch.
     if (ch_archived ch \<noteq> 0) = arch then returnE JNull
     else bindE (try_store (archive_channel (ch_id ch) (ch_name ch) by arch)) (\<lambda>records.
       bindE (eachE (\<lambda>record. channel_event record (ch_name ch)) records) (\<lambda>_.
       returnE JNull))))"

definition delete_request :: "u64 \<Rightarrow> string \<Rightarrow> json handler" where
  "delete_request sid channel = bindE (require_admin sid) (\<lambda>_.
     bindE (known_channel channel) (\<lambda>ch.
     bindE (getE (\<lambda>b. (b_token_counter b, clock (b_db b), b_now b))) (\<lambda>(counter, ms, now).
     let token = ''del-'' @ show_u64 sid @ ''-'' @ show_u64 counter @ ''-'' @ show_u64 ms in
     bindE (modifyE (\<lambda>b. b\<lparr>b_token_counter := counter + 1,
       b_delete_tokens := (token, \<lparr>dt_channel_id = ch_id ch, dt_channel_name = ch_name ch, dt_session_id = sid,
         dt_expires = now + DELETE_TOKEN_TTL\<rparr>) # filter (\<lambda>t. fst t \<noteq> token) (b_delete_tokens b)\<rparr>)) (\<lambda>_.
     returnE (enc_channel_delete_result token)))))"

definition delete_confirm :: "u64 \<Rightarrow> delete_confirm_params \<Rightarrow> json handler" where
  "delete_confirm sid p = bindE (require_admin sid) (\<lambda>by.
     bindE (getE (\<lambda>b. map_of (b_delete_tokens b) (dc_confirmation_token p))) (\<lambda>token.
     bindE (modifyE (\<lambda>b. b\<lparr>b_delete_tokens := filter (\<lambda>t. fst t \<noteq> dc_confirmation_token p) (b_delete_tokens b)\<rparr>)) (\<lambda>_.
     case token of
       None \<Rightarrow> fail BadConfirmation ''unknown or already-used confirmation token''
     | Some tok \<Rightarrow>
         bindE (try_store (channel_by_name (dt_channel_name tok))) (\<lambda>current.
         bindE (getE b_now) (\<lambda>now.
         if dt_session_id tok \<noteq> sid \<or> dt_expires tok < now \<or> map_option ch_id current \<noteq> Some (dt_channel_id tok)
            \<or> dc_channel p \<noteq> dt_channel_name tok
         then fail BadConfirmation ''confirmation token expired or mismatched''
         else bindE (try_store (delete_channel_logged (dt_channel_id tok) (dt_channel_name tok) by)) (\<lambda>(_, record).
           bindE (modifyE (broadcast (WatchRecord record) None False)) (\<lambda>_.
           returnE JNull)))))))"

definition message_status :: "u64 \<Rightarrow> u64 \<Rightarrow> json handler" where
  "message_status sid mid = bindE (require_admin sid) (\<lambda>_.
     bindE (try_store (message_exists mid)) (\<lambda>y.
     if \<not> y then fail UnknownName (''no such message: '' @ show_u64 mid)
     else bindE (try_store (acks_for mid)) (\<lambda>acks.
       returnE (enc_message_status_result acks))))"

definition session_infos :: "broker \<Rightarrow> session_info list" where
  "session_infos b = concat (map (\<lambda>p. case s_client_info (snd p) of None \<Rightarrow> []
     | Some ci \<Rightarrow> [\<lparr>si_session_id = fst p, si_principal = s_principal (snd p), si_admin = s_admin (snd p),
         si_client_info = ci\<rparr>]) (b_sessions b))"

definition daemon_status :: "u64 \<Rightarrow> json handler" where
  "daemon_status sid = bindE (require_admin sid) (\<lambda>_.
     bindE (getE session_infos) (\<lambda>infos.
     bindE (try_store channel_count) (\<lambda>chans.
     bindE (try_store principal_count) (\<lambda>prins.
     bindE (getE (\<lambda>b. (version (b_cfg b), of_nat ((b_now b - b_started b) div 1000)))) (\<lambda>(ver, uptime).
     returnE (enc_daemon_status_result ver uptime infos chans prins))))))"

definition daemon_shutdown :: "u64 \<Rightarrow> json handler" where
  "daemon_shutdown sid = bindE (require_admin sid) (\<lambda>_.
     bindE (modifyE (\<lambda>b. b\<lparr>b_shutdown_pending := True\<rparr>)) (\<lambda>_. returnE JNull))"

section \<open>Watching\<close>

definition set_watch :: "u64 \<Rightarrow> watch_filter \<Rightarrow> json handler" where
  "set_watch sid w = bindE (modifyE (upd_session sid (\<lambda>s. s\<lparr>s_watch := w\<rparr>))) (\<lambda>_. returnE JNull)"

definition watch_start :: "u64 \<Rightarrow> string list option \<Rightarrow> json handler" where
  "watch_start sid channels = (case channels of
      None \<Rightarrow> set_watch sid WatchAll
    | Some names \<Rightarrow> bindE (eachE (\<lambda>n. bindE (known_channel n) (\<lambda>_. returnE ())) names) (\<lambda>_.
        set_watch sid (WatchChannels names)))"

section \<open>Dispatch\<close>

definition method_not_found :: "string \<Rightarrow> rpc_error" where
  "method_not_found m = \<lparr>err_code = -32601, err_message = ''method not found: '' @ m, err_data = None\<rparr>"

definition hello_first :: rpc_error where
  "hello_first = \<lparr>err_code = -32600, err_message = ''session/hello must be the first call'', err_data = None\<rparr>"

definition dispatch_method :: "u64 \<Rightarrow> string \<Rightarrow> json \<Rightarrow> json handler" where
  "dispatch_method sid m params =
     (if m = method_name SESSION_HELLO then bindE (parse dec_hello_params params) (hello sid)
      else if m = method_name PRINCIPAL_REGISTER then bindE (parse dec_register_params params) (\<lambda>p. register sid p False)
      else if m = method_name ADMIN_REGISTER then bindE (parse dec_register_params params) (\<lambda>p. register sid p True)
      else if m = method_name PRINCIPAL_DEREGISTER then deregister sid
      else if m = method_name MESSAGE_SEND then bindE (parse dec_send_params params) (send_message sid)
      else if m = method_name CHANNEL_SUBSCRIBE then bindE (parse dec_channel_params params) (\<lambda>c. self_subscription_rpc sid c True)
      else if m = method_name CHANNEL_UNSUBSCRIBE then bindE (parse dec_channel_params params) (\<lambda>c. self_subscription_rpc sid c False)
      else if m = method_name CHANNEL_CREATE then bindE (parse dec_register_params params) (create_channel sid)
      else if m = method_name HISTORY_GET then bindE (parse dec_history_params params) (history sid)
      else if m = method_name DIRECTORY_WHO then who
      else if m = method_name ADMIN_SUBSCRIBE then bindE (parse dec_admin_subscription_params params) (\<lambda>p. admin_subscription_rpc sid p True)
      else if m = method_name ADMIN_UNSUBSCRIBE then bindE (parse dec_admin_subscription_params params) (\<lambda>p. admin_subscription_rpc sid p False)
      else if m = method_name CHANNEL_RENAME then bindE (parse dec_rename_params params) (rename sid)
      else if m = method_name CHANNEL_ARCHIVE then bindE (parse dec_channel_params params) (\<lambda>c. archive sid c True)
      else if m = method_name CHANNEL_UNARCHIVE then bindE (parse dec_channel_params params) (\<lambda>c. archive sid c False)
      else if m = method_name CHANNEL_DELETE then bindE (parse dec_channel_params params) (delete_request sid)
      else if m = method_name CHANNEL_DELETE_CONFIRM then bindE (parse dec_delete_confirm_params params) (delete_confirm sid)
      else if m = method_name MESSAGE_STATUS then bindE (parse dec_message_status_params params) (message_status sid)
      else if m = method_name DAEMON_STATUS then daemon_status sid
      else if m = method_name DAEMON_SHUTDOWN then daemon_shutdown sid
      else if m = method_name WATCH_START then bindE (parse dec_watch_start_params params) (watch_start sid)
      else if m = method_name WATCH_STOP then set_watch sid WatchOff
      else failE (method_not_found m))"

definition dispatch :: "u64 \<Rightarrow> string \<Rightarrow> json \<Rightarrow> json handler" where
  "dispatch sid m params = bindE (getE b_shutdown) (\<lambda>down.
     if down then fail ShuttingDown ''broker is shutting down''
     else bindE (getE (\<lambda>b. s_client_info (the_session sid b))) (\<lambda>ci.
       if m \<noteq> method_name SESSION_HELLO \<and> ci = None then failE hello_first
       else dispatch_method sid m params))"

definition handle_request :: "u64 \<Rightarrow> request \<Rightarrow> broker \<Rightarrow> response \<times> broker" where
  "handle_request sid rq b =
     (case dispatch sid (rq_method rq) (case rq_params rq of Some p \<Rightarrow> p | None \<Rightarrow> JNull) b of
        (Inr v, b') \<Rightarrow> (ok_response (rq_id rq) v, b')
      | (Inl e, b') \<Rightarrow> (err_response (rq_id rq) e, b'))"

definition handle_notification :: "u64 \<Rightarrow> notification \<Rightarrow> broker \<Rightarrow> broker" where
  "handle_notification sid nt b =
     (if nt_method nt = method_name MESSAGE_PROCESSED then
        (case dec_processed_params (case nt_params nt of Some p \<Rightarrow> p | None \<Rightarrow> JNull) of
           None \<Rightarrow> b
         | Some (mid, recipient) \<Rightarrow>
             if s_principal (the_session sid b) = Some recipient
             then ack_update mid recipient Processed None b else b)
      else b)"

end
