(* ===== verification/Server.thy ===== *)
theory Server
  imports Rpc Strings
begin

text \<open>
  The TCP server (\<open>crates/broker/src/server.rs\<close>): the bounded line reader, the body of
  the connection loop, and how the broker starts and a connection ends. A connection's input is the list of chunks its buffered reader
  yields, ended by end of file or a read error; the JSON parser (\<open>serde_json::from_str\<close>)
  is a parameter, and so is whether an address can be bound. An accepted connection is an
  \<open>attach\<close>.
\<close>

section \<open>Reading a line\<close>

datatype inbound_line = Line string | Oversized | Eof | ReadError

record reader =
  rd_chunks :: "string list"
  rd_broken :: bool

definition newline_char :: char where
  "newline_char = CHR 0x0A"

text \<open>\<open>String::from_utf8\<close>, and the empty line for what is not UTF-8.\<close>

definition line_of :: "string \<Rightarrow> inbound_line" where
  "line_of buf = Line (if valid_utf8 buf then buf else [])"

text \<open>The loop over \<open>fill_buf\<close>: what was buffered and whether the cap was passed.\<close>

fun read_loop :: "nat \<Rightarrow> bool \<Rightarrow> string \<Rightarrow> bool \<Rightarrow> string list \<Rightarrow> inbound_line \<times> string list" where
  "read_loop limit broken buf oversized [] =
     (if broken then ReadError else if oversized then Oversized else if buf = [] then Eof else line_of buf, [])"
| "read_loop limit broken buf oversized (available # chunks) =
     (if available = [] then
        (if oversized then Oversized else if buf = [] then Eof else line_of buf, available # chunks)
      else if newline_char \<in> set available then
        (let buf' = (if oversized then buf else buf @ takeWhile (\<lambda>c. c \<noteq> newline_char) available);
             rest = tl (dropWhile (\<lambda>c. c \<noteq> newline_char) available);
             left = (if rest = [] then chunks else rest # chunks)
         in (if oversized \<or> length buf' > limit then Oversized else line_of buf', left))
      else
        (let buf' = (if oversized then buf else buf @ available)
         in if length buf' > limit then read_loop limit broken [] True chunks
            else read_loop limit broken buf' oversized chunks))"

definition read_line_bounded :: "nat \<Rightarrow> reader \<Rightarrow> inbound_line \<times> reader" where
  "read_line_bounded limit rd =
     (case read_loop limit (rd_broken rd) [] False (rd_chunks rd) of (l, left) \<Rightarrow> (l, rd\<lparr>rd_chunks := left\<rparr>))"

text \<open>\<open>line.trim().is_empty()\<close>.\<close>

definition blank :: "string \<Rightarrow> bool" where
  "blank line \<longleftrightarrow> trim line = []"

section \<open>One pass of the connection loop\<close>

definition LINE_OVERHEAD :: nat where
  "LINE_OVERHEAD = 64 * 1024"

definition max_line :: "broker \<Rightarrow> nat" where
  "max_line b = message_size_limit (b_cfg b) + LINE_OVERHEAD"

definition protocol_error :: "int \<Rightarrow> string \<Rightarrow> rpc_error" where
  "protocol_error code msg = \<lparr>err_code = code, err_message = msg, err_data = None\<rparr>"

definition answer :: "u64 \<Rightarrow> response \<Rightarrow> broker \<Rightarrow> broker" where
  "answer sid resp = upd_session sid (send (Response resp))"

definition handle_message :: "u64 \<Rightarrow> message \<Rightarrow> broker \<Rightarrow> broker" where
  "handle_message sid msg b = (case msg of
      Request rq \<Rightarrow>
        if rq_jsonrpc rq \<noteq> ''2.0''
        then answer sid (err_response (rq_id rq) (protocol_error (-32600) (''jsonrpc must be '' @ [CHR 0x22] @ ''2.0'' @ [CHR 0x22]))) b
        else (let (resp, b') = handle_request sid rq b in answer sid resp b')
    | Response resp \<Rightarrow> if rs_jsonrpc resp = ''2.0'' then on_response sid resp b else b
    | Notification nt \<Rightarrow> if nt_jsonrpc nt = ''2.0'' then handle_notification sid nt b else b)"

definition handle_line :: "(string \<Rightarrow> json option) \<Rightarrow> u64 \<Rightarrow> string \<Rightarrow> broker \<Rightarrow> broker" where
  "handle_line parse_json sid line b =
     (if blank line then b
      else case parse_json line of
        None \<Rightarrow> answer sid (err_response IdNull (protocol_error (-32700) ''parse error: '')) b
      | Some v \<Rightarrow> (case from_value v of
          Some msg \<Rightarrow> handle_message sid msg b
        | None \<Rightarrow> answer sid (err_response IdNull (protocol_error (-32600) ''invalid request shape: '')) b))"

text \<open>What the loop does with one inbound line; leaving it detaches the session.\<close>

definition connection_round :: "(string \<Rightarrow> json option) \<Rightarrow> u64 \<Rightarrow> inbound_line \<Rightarrow> broker \<Rightarrow> broker" where
  "connection_round parse_json sid inbound b =
     (if s_overflow (the_session sid b) then detach sid b
      else case inbound of
        Line line \<Rightarrow> handle_line parse_json sid line b
      | Oversized \<Rightarrow> detach sid (answer sid (err_response IdNull
          (protocol_error (-32600) (''line exceeds '' @ show_nat (max_line b) @ '' bytes''))) b)
      | Eof \<Rightarrow> detach sid b
      | ReadError \<Rightarrow> detach sid b)"

section \<open>Serving\<close>

text \<open>Every configured address is bound before any is served; \<open>cannot_bind\<close> says why an address
  cannot be.\<close>

fun bind_all :: "(socket_addr \<Rightarrow> string option) \<Rightarrow> socket_addr list \<Rightarrow> (socket_addr \<times> string) + socket_addr list" where
  "bind_all cannot_bind [] = Inr []"
| "bind_all cannot_bind (a # as) = (case cannot_bind a of
      Some e \<Rightarrow> Inl (a, e)
    | None \<Rightarrow> (case bind_all cannot_bind as of Inl e \<Rightarrow> Inl e | Inr ls \<Rightarrow> Inr (a # ls)))"

text \<open>A connection is accepted, or accepting one failed; none is once the shutdown is signalled.\<close>

definition accept_round :: "bool \<Rightarrow> broker \<Rightarrow> broker" where
  "accept_round accepted b = (if b_shutdown b \<or> \<not> accepted then b else snd (attach b))"

text \<open>Starting: the store is opened, then the addresses are bound.\<close>

datatype run_error = CannotOpen open_error | CannotBind socket_addr string

definition broker_run ::
  "(socket_addr \<Rightarrow> string option) \<Rightarrow> broker_config \<Rightarrow> (string + unit) option \<Rightarrow> string + conn \<Rightarrow> nat \<Rightarrow> run_error + broker \<times> socket_addr list" where
  "broker_run cannot_bind cfg parent connection now = (case open_broker cfg parent connection now of
      Inl e \<Rightarrow> Inl (CannotOpen e)
    | Inr b \<Rightarrow> (case bind_all cannot_bind (listens cfg) of
        Inl (a, e) \<Rightarrow> Inl (CannotBind a e) | Inr ls \<Rightarrow> Inr (b, ls)))"

text \<open>The end of a connection: once the session is detached its writer still writes what is
  queued, unless the queue overflowed; then it is aborted.\<close>

definition written_after_end :: "session \<Rightarrow> message list" where
  "written_after_end s = (if s_overflow s then [] else s_out s)"

text \<open>A connection left to itself: its lines in order, until a round detaches the session.\<close>

fun connection_loop :: "(string \<Rightarrow> json option) \<Rightarrow> u64 \<Rightarrow> inbound_line list \<Rightarrow> broker \<Rightarrow> broker" where
  "connection_loop parse_json sid [] b = b"
| "connection_loop parse_json sid (l # ls) b =
     (if sid \<in> fst ` set (b_sessions b) then connection_loop parse_json sid ls (connection_round parse_json sid l b) else b)"

lemma bind_all_complete:
  "(\<exists>ls. bind_all cannot_bind as = Inr ls) \<longleftrightarrow> (\<forall>a \<in> set as. cannot_bind a = None)"
  "bind_all cannot_bind as = Inr ls \<Longrightarrow> ls = as"
  by (induction as arbitrary: ls) (auto split: option.split sum.split option.split_asm sum.split_asm)

text \<open>A broker that runs has its database open and serves every address it was told to.\<close>

lemma broker_run_serves:
  "broker_run cannot_bind cfg parent connection now = Inr (b, ls) \<Longrightarrow>
    open_broker cfg parent connection now = Inr b \<and> ls = listens cfg \<and> (\<forall>a \<in> set ls. cannot_bind a = None)"
  using bind_all_complete by (fastforce simp: broker_run_def split: sum.split_asm prod.split_asm)

text \<open>The answer to a protocol violation still reaches a peer that reads.\<close>

lemma last_answer_written:
  assumes "\<not> s_overflow s" "s_queued s < s_max_out_queue s"
  shows "written_after_end (send (Response resp) s) = s_out s @ [Response resp]"
  using assms by (simp add: written_after_end_def send_def)

section \<open>The line reader\<close>

text \<open>What the reader should do, on the bytes alone: the bytes up to the first newline or the
  end of input are the line.\<close>

definition read_spec :: "nat \<Rightarrow> bool \<Rightarrow> string \<Rightarrow> inbound_line" where
  "read_spec limit broken bytes =
     (let line = takeWhile (\<lambda>c. c \<noteq> newline_char) bytes in
      if newline_char \<notin> set bytes \<and> broken then ReadError
      else if length line > limit then Oversized
      else if bytes = [] then Eof else line_of line)"

definition rest_spec :: "string \<Rightarrow> string" where
  "rest_spec bytes = tl (dropWhile (\<lambda>c. c \<noteq> newline_char) bytes)"

lemma takeWhile_no_newline: "newline_char \<notin> set xs \<Longrightarrow> takeWhile (\<lambda>c. c \<noteq> newline_char) (xs @ ys) = xs @ takeWhile (\<lambda>c. c \<noteq> newline_char) ys"
  by (rule takeWhile_append2) auto

lemma dropWhile_no_newline: "newline_char \<notin> set xs \<Longrightarrow> dropWhile (\<lambda>c. c \<noteq> newline_char) (xs @ ys) = dropWhile (\<lambda>c. c \<noteq> newline_char) ys"
  by (rule dropWhile_append2) auto

lemma takeWhile_newline: "newline_char \<in> set xs \<Longrightarrow> takeWhile (\<lambda>c. c \<noteq> newline_char) (xs @ ys) = takeWhile (\<lambda>c. c \<noteq> newline_char) xs"
  by (rule takeWhile_append1) auto

lemma dropWhile_newline: "newline_char \<in> set xs \<Longrightarrow> dropWhile (\<lambda>c. c \<noteq> newline_char) (xs @ ys) = dropWhile (\<lambda>c. c \<noteq> newline_char) xs @ ys"
  by (rule dropWhile_append1) auto

lemma dropWhile_newline_nonempty: "newline_char \<in> set xs \<Longrightarrow> dropWhile (\<lambda>c. c \<noteq> newline_char) xs \<noteq> []"
  by (auto simp: dropWhile_eq_Nil_conv)

lemma read_loop_spec:
  assumes "[] \<notin> set chunks" and "newline_char \<notin> set seen" and "length buf \<le> limit"
    and "if oversized then buf = [] \<and> length seen > limit else buf = seen"
    and "read_loop limit broken buf oversized chunks = (l, left)"
  shows "l = read_spec limit broken (seen @ concat chunks) \<and> concat left = rest_spec (seen @ concat chunks) \<and> [] \<notin> set left"
  using assms
proof (induction limit broken buf oversized chunks arbitrary: seen l left rule: read_loop.induct)
  case (1 limit broken buf oversized)
  have whole: "takeWhile (\<lambda>c. c \<noteq> newline_char) seen = seen" "dropWhile (\<lambda>c. c \<noteq> newline_char) seen = []"
    using 1(2) by (auto simp: takeWhile_eq_all_conv dropWhile_eq_Nil_conv)
  from 1 show ?case by (auto simp: read_spec_def rest_spec_def Let_def whole split: if_splits)
next
  case (2 limit broken buf oversized available chunks)
  show ?case
  proof (cases "newline_char \<in> set available")
    case True
    note nl = takeWhile_newline [OF True] dropWhile_newline [OF True] dropWhile_newline_nonempty [OF True]
    from 2(3-7) True show ?thesis
      by (auto simp: read_spec_def rest_spec_def Let_def takeWhile_no_newline dropWhile_no_newline nl split: if_splits)
  next
    case False
    have seen: "newline_char \<notin> set (seen @ available)" using 2(4) False by simp
    have ne: "available \<noteq> []" "[] \<notin> set chunks" using 2(3) by auto
    define buf' where "buf' = (if oversized then buf else buf @ available)"
    show ?thesis
    proof (cases "length buf' > limit")
      case True
      with 2(6,7) ne False have run: "read_loop limit broken [] True chunks = (l, left)" and "\<not> oversized"
        using 2(5) by (auto simp: buf'_def Let_def split: if_splits)
      with True 2(6) have "length (seen @ available) > limit" by (simp add: buf'_def)
      with 2(1) [OF ne(1) False buf'_def True ne(2) seen _ _ run] show ?thesis by simp
    next
      case small: False
      with 2(7) ne False have run: "read_loop limit broken buf' oversized chunks = (l, left)"
        by (simp add: buf'_def [symmetric] Let_def)
      have "if oversized then buf' = [] \<and> limit < length (seen @ available) else buf' = seen @ available"
        using 2(6) by (auto simp: buf'_def)
      with 2(2) [OF ne(1) False buf'_def small ne(2) seen _ _ run] small show ?thesis by simp
    qed
  qed
qed

section \<open>Properties\<close>

text \<open>C27. The line reader is right however the network splits the bytes: it yields the bytes up
  to the next newline (or the end of input) when they are within the cap, reports a longer
  line as oversized, and leaves exactly the bytes after the newline for the next read. A
  line it yields is valid UTF-8 and never longer than the cap.\<close>

theorem reader_independent_of_chunks:
  assumes "[] \<notin> set (rd_chunks rd)" and "read_line_bounded limit rd = (l, rd')"
  shows "l = read_spec limit (rd_broken rd) (concat (rd_chunks rd)) \<and> concat (rd_chunks rd') = rest_spec (concat (rd_chunks rd)) \<and>
    [] \<notin> set (rd_chunks rd') \<and> (\<forall>line. l = Line line \<longrightarrow> valid_utf8 line \<and> length line \<le> limit)"
proof -
  from assms(2) obtain left where run: "read_loop limit (rd_broken rd) [] False (rd_chunks rd) = (l, left)"
    and left: "rd_chunks rd' = left" by (auto simp: read_line_bounded_def split: prod.splits)
  from read_loop_spec [OF assms(1) _ _ _ run, of "[]"] have
    spec: "l = read_spec limit (rd_broken rd) (concat (rd_chunks rd))" "concat left = rest_spec (concat (rd_chunks rd))" "[] \<notin> set left"
    by simp_all
  moreover have "valid_utf8 line \<and> length line \<le> limit" if "l = Line line" for line
    using that spec(1) by (auto simp: read_spec_def line_of_def Let_def valid_utf8.simps [of "[]"] split: if_splits)
  ultimately show ?thesis using left by blast
qed

theorem reader_independent_of_chunks_witness:
  "fst (read_line_bounded 5 \<lparr>rd_chunks = [''ab'', ''c'' @ [newline_char] @ ''d''], rd_broken = False\<rparr>) = Line ''abc''"
proof -
  let ?rd = "\<lparr>rd_chunks = [''ab'', ''c'' @ [newline_char] @ ''d''], rd_broken = False\<rparr>"
  have "valid_utf8 ''abc''" by (rule valid_utf8_ascii) simp
  then have "read_spec 5 False (concat (rd_chunks ?rd)) = Line ''abc''"
    by (simp add: read_spec_def newline_char_def line_of_def)
  with reader_independent_of_chunks [of ?rd 5 "fst (read_line_bounded 5 ?rd)" "snd (read_line_bounded 5 ?rd)"]
  show ?thesis by simp
qed

end
