(* ===== verification/Broker_Laws.thy ===== *)
theory Broker_Laws
  imports Server Store_Laws
begin

text \<open>
  What the broker's operations leave alone. \<open>calm\<close> relates the states before and after an
  operation that runs only store operations on the database, keeps the configuration and
  every session's identity (client, principal, admin right, Codex coordinates), and keeps
  the outbound queues within their bound. All handlers but the three that change an
  identity are calm, which is proved once per handler from the rules of locale \<open>frame\<close>.
\<close>

section \<open>The database under the broker\<close>

definition db_step :: "conn \<Rightarrow> conn \<Rightarrow> bool" where
  "db_step c c' \<longleftrightarrow> (\<exists>l. store_step c l c')"

definition store_call :: "'a db \<Rightarrow> bool" where
  "store_call m \<longleftrightarrow> (\<forall>c. db_step c (snd (m c)))"

lemma db_step_same: "tabs c' = tabs c \<Longrightarrow> db_step c c'"
proof -
  assume "tabs c' = tabs c"
  then have "c' = c\<lparr>faults := faults c', clock := clock c'\<rparr>" by simp
  then show ?thesis unfolding db_step_def by (metis step_env)
qed

lemma store_call_reads: "reads m \<Longrightarrow> store_call m"
  by (simp add: store_call_def within_def db_step_same)

lemma snd_ignore_result: "snd (ignore_result m c) = snd (m c)"
  by (auto simp: ignore_result_def bindE_def returnE_def split: prod.splits sum.splits)

lemma store_call_op: "run_op op = ignore_result m \<Longrightarrow> store_call m"
  unfolding store_call_def db_step_def by (metis prod.collapse snd_ignore_result step_op)

lemmas store_calls = reading [THEN store_call_reads] run_op.simps [THEN store_call_op]

section \<open>Sessions\<close>

type_synonym ident = "client_info option \<times> string option \<times> bool \<times> codex_coordinates option"

definition ident :: "session \<Rightarrow> ident" where
  "ident s = (s_client_info s, s_principal s, s_admin s, s_codex s)"

definition idents :: "broker \<Rightarrow> (u64 \<times> ident) list" where
  "idents b = map (\<lambda>p. (fst p, ident (snd p))) (b_sessions b)"

definition queue_ok :: "session \<Rightarrow> bool" where
  "queue_ok s \<longleftrightarrow> s_queued s = length (s_out s) \<and> s_queued s \<le> s_max_out_queue s"

definition queues_ok :: "broker \<Rightarrow> bool" where
  "queues_ok b \<longleftrightarrow> (\<forall>p \<in> set (b_sessions b). queue_ok (snd p) \<and> s_max_out_queue (snd p) = max_out_queue (b_cfg b))"

definition calm :: "broker \<Rightarrow> broker \<Rightarrow> bool" where
  "calm b b' \<longleftrightarrow> db_step\<^sup>*\<^sup>* (b_db b) (b_db b') \<and> b_cfg b' = b_cfg b \<and> idents b' = idents b \<and> (queues_ok b \<longrightarrow> queues_ok b')"

interpretation cm: frame calm
  by unfold_locales (auto simp: calm_def intro: rtranclp_trans)

lemma calm_refl [simp]: "calm b b"
  by (rule cm.frame_refl)

lemma calm_trans: "calm b b' \<Longrightarrow> calm b' b'' \<Longrightarrow> calm b b''"
  by (rule cm.frame_trans)

text \<open>A change of one session that is invisible to its identity and its queue bound.\<close>

definition modest :: "(session \<Rightarrow> session) \<Rightarrow> bool" where
  "modest f \<longleftrightarrow> (\<forall>s. ident (f s) = ident s \<and> s_max_out_queue (f s) = s_max_out_queue s \<and> (queue_ok s \<longrightarrow> queue_ok (f s)))"

lemma modest_send: "modest (send m)"
  by (auto simp: modest_def ident_def queue_ok_def send_def)

lemma modest_call: "modest (call_start m params d)"
  by (auto simp: modest_def ident_def queue_ok_def send_def call_start_def Let_def)

lemma modest_pending: "modest (\<lambda>s. s\<lparr>s_pending := f s\<rparr>)"
  by (auto simp: modest_def ident_def queue_ok_def)

lemma modest_watch: "modest (\<lambda>s. s\<lparr>s_watch := w\<rparr>)"
  by (auto simp: modest_def ident_def queue_ok_def)

lemma calm_sessions:
  assumes "\<And>p. fst (g p) = fst p" and "\<And>p. snd (g p) = snd p \<or> (\<exists>f. modest f \<and> snd (g p) = f (snd p))"
  shows "calm b (b\<lparr>b_sessions := map g (b_sessions b)\<rparr>)"
proof -
  have "ident (snd (g p)) = ident (snd p) \<and> s_max_out_queue (snd (g p)) = s_max_out_queue (snd p) \<and>
      (queue_ok (snd p) \<longrightarrow> queue_ok (snd (g p)))" for p
    using assms(2) [of p] by (auto simp: modest_def)
  with assms(1) show ?thesis by (auto simp: calm_def idents_def queues_ok_def)
qed

lemma calm_upd_session: "modest f \<Longrightarrow> calm b (upd_session sid f b)"
  unfolding upd_session_def by (rule calm_sessions) auto

lemma calm_broadcast: "calm b (broadcast ev scope is_dm b)"
  unfolding broadcast_def by (rule calm_sessions) (auto intro: modest_send)

lemma calm_other [simp]:
  "calm b (b\<lparr>b_tasks := ts\<rparr>)" "calm b (b\<lparr>b_orphans := os\<rparr>)" "calm b (b\<lparr>b_grace_pending := g\<rparr>)" "calm b (b\<lparr>b_attach := ac\<rparr>)"
  "calm b (b\<lparr>b_delete_tokens := dts\<rparr>)" "calm b (b\<lparr>b_shutdown_pending := sp\<rparr>)" "calm b (b\<lparr>b_shutdown := sd\<rparr>)"
  "calm b (b\<lparr>b_now := n\<rparr>)" "calm b (b\<lparr>b_token_counter := k, b_delete_tokens := dts\<rparr>)"
  by (simp_all add: calm_def idents_def queues_ok_def)

lemma store_db: "store m b = (r, b') \<Longrightarrow> b' = b\<lparr>b_db := snd (m (b_db b))\<rparr> \<and> r = fst (m (b_db b))"
  by (auto simp: store_def split: prod.splits)

lemma calm_db: "db_step (b_db b) c \<Longrightarrow> calm b (b\<lparr>b_db := c\<rparr>)"
  by (simp add: calm_def idents_def queues_ok_def r_into_rtranclp)

lemma calm_store: "store_call m \<Longrightarrow> within calm (store m)"
  by (rule withinI) (auto dest!: store_db intro: calm_db simp: store_call_def)

lemma calm_store_run: "store m b = (r, b') \<Longrightarrow> store_call m \<Longrightarrow> calm b b'"
  using calm_store by (blast dest: withinD)

lemma calm_fold: "(\<And>x b. calm b (f x b)) \<Longrightarrow> calm b (fold f xs b)"
  by (induction xs arbitrary: b) (auto intro: calm_trans)

section \<open>Core operations\<close>

lemma calm_system_record: "calm b (system_record ev ch b)"
  unfolding system_record_def
  by (auto split: prod.split sum.split intro: calm_trans calm_broadcast dest!: calm_store_run intro: store_calls)

lemma calm_broadcast_ack: "calm b (broadcast_ack rid p st ts reason b)"
  unfolding broadcast_ack_def Let_def
  by (auto split: prod.split intro: calm_trans calm_broadcast dest!: calm_store_run intro: store_calls)

lemma calm_ack_update: "calm b (ack_update rid p st reason b)"
  unfolding ack_update_def
  by (auto split: prod.split sum.split option.split intro: calm_trans calm_broadcast_ack dest!: calm_store_run intro: store_calls)

lemma calm_or_empty: "or_empty m b = (xs, b') \<Longrightarrow> store_call m \<Longrightarrow> calm b b'"
  unfolding or_empty_def by (auto split: prod.splits sum.splits dest: calm_store_run)

lemma calm_fail_disconnected: "calm b (fail_disconnected p rid b)"
  by (simp add: fail_disconnected_def calm_ack_update)

lemma calm_sweep: "calm b (grace_window_closes b)"
proof -
  obtain held b1 where q: "or_empty held_all (b\<lparr>b_grace_pending := False\<rparr>) = (held, b1)" by fastforce
  have "calm b b1" using calm_or_empty [OF q store_call_reads [OF reads_lists(8)]] calm_other(3) calm_trans by blast
  moreover have "calm b1 (fold sweep_entry held b1)"
    by (rule calm_fold) (simp add: sweep_entry_def calm_fail_disconnected)
  ultimately show ?thesis using q calm_trans by (auto simp: grace_window_closes_def)
qed

lemma calm_spawn: "calm b (spawn_deliver p e tracked b)"
  by (simp add: spawn_deliver_def)

lemma calm_drain_entry: "calm b (drain_entry p rid b)"
  unfolding drain_entry_def
  by (auto split: prod.split sum.split option.split intro: calm_trans calm_spawn dest!: calm_store_run intro: store_calls)

lemma calm_drain_held: "calm b (drain_held p b)"
proof -
  obtain held b1 where q: "or_empty (held_for p) b = (held, b1)" by fastforce
  have "calm b b1" using q by (rule calm_or_empty) (intro store_calls)
  moreover have "calm b1 (fold (drain_entry p) held b1)" by (rule calm_fold) (rule calm_drain_entry)
  ultimately show ?thesis using q calm_trans by (auto simp: drain_held_def)
qed

lemma calm_deliver_task: "calm b (deliver_task p e tracked b)"
  unfolding deliver_task_def by (auto split: option.split intro: calm_fail_disconnected calm_upd_session modest_call)

lemma calm_deliver_result: "calm b (deliver_result d r b)"
  by (auto simp: deliver_result_def calm_ack_update split: sum.split)

lemma modest_resolve: "modest (\<lambda>s. snd (resolve_response resp s))"
  by (auto simp: modest_def ident_def queue_ok_def resolve_response_def split: id.split option.split)

lemma calm_on_response: "calm b (on_response sid resp b)"
  unfolding on_response_def
  by (auto split: option.split intro: calm_trans [OF calm_upd_session calm_deliver_result] modest_resolve)

lemma calm_timeouts: "calm b (call_timeout sid i b)" "calm b (orphan_timeout d b)"
  unfolding call_timeout_def orphan_timeout_def
  by (auto split: option.split intro: calm_trans [OF calm_upd_session calm_deliver_result] modest_pending
      calm_trans [OF calm_other(2) calm_deliver_result])

lemma calm_codex_check: "codex_check ct b = (t, b') \<Longrightarrow> calm b b'"
  by (auto simp: codex_check_def calm_fail_disconnected split: option.splits prod.splits if_splits)

lemma calm_codex_outcome: "codex_outcome d ct b = (t, b') \<Longrightarrow> calm b b'"
  unfolding codex_outcome_def Let_def
  by (auto split: if_splits delivered.splits intro: calm_ack_update calm_trans [OF calm_ack_update calm_ack_update])

lemma calm_codex_dial: "codex_dial te de ct b = (t, b') \<Longrightarrow> calm b b'"
  unfolding codex_dial_def Let_def
  by (auto split: prod.splits sum.splits dest: calm_codex_outcome intro: calm_trans [OF calm_other(4)])

section \<open>Handlers\<close>

lemmas calm_rules = cm.within_rules within_branches

lemma calm_modify: "(\<And>b. calm b (f b)) \<Longrightarrow> within calm (modifyE f)"
  by (rule cm.within_modify)

lemma calm_fail: "within calm (fail c d)"
  by (simp add: fail_def cm.within_fail)

lemma calm_try_store: "store_call m \<Longrightarrow> within calm (try_store m)"
  unfolding try_store_def by (intro calm_rules calm_store)

lemma calm_parse: "within calm (parse d params)"
  unfolding parse_def by (intro calm_rules)

lemma calm_session_reads: "within calm (principal_of sid)" "within calm (is_admin sid)"
  unfolding principal_of_def is_admin_def by (intro calm_rules)+

lemma calm_require_principal: "within calm (require_principal sid d)"
  unfolding require_principal_def by (intro calm_rules calm_fail calm_session_reads)

lemma calm_require_admin: "within calm (require_admin sid)"
proof (rule withinI)
  fix b r b' assume "require_admin sid b = (r, b')"
  then have "b' = b" unfolding require_admin_def
    by (auto simp: bindE_def getE_def returnE_def fail_def failE_def split: bool.splits option.splits)
  then show "calm b b'" by simp
qed

lemma calm_lookups: "within calm (live_channel nm)" "within calm (known_channel nm)" "within calm (known_principal nm)"
  "within calm (Rpc.principal_row nm)"
  unfolding live_channel_def known_channel_def known_principal_def principal_row_def
  by (intro calm_rules calm_fail calm_try_store store_calls)+

lemma calm_deny: "within calm (deny_registration nm reason)"
  unfolding deny_registration_def by (intro calm_modify calm_system_record)

lemmas handler_rules = calm_rules calm_fail calm_try_store calm_parse calm_session_reads calm_require_principal
  calm_require_admin calm_lookups calm_deny store_calls

lemma calm_subscribed_any: "within calm (subscribed_any p cs)"
  by (induction cs) (simp_all, (intro handler_rules | assumption)+)

lemma calm_intersect: "within calm (intersect_audience ps cs)"
  by (induction ps) (simp_all, (intro handler_rules calm_subscribed_any | assumption)+)

lemma calm_resolve: "within calm (resolve_audience p cs)"
  unfolding resolve_audience_def by (intro handler_rules calm_intersect)

lemma calm_check_thread: "within calm (check_thread t)"
  unfolding check_thread_def by (intro handler_rules)

lemma calm_send_steps: "calm b (fold (spawn_tracked env) held b)" "calm b (fold (report_absent rid) absent b)"
  "calm b (admin_tap author audience env b)"
  by (auto simp: spawn_tracked_def report_absent_def admin_tap_def intro!: calm_fold calm_spawn calm_broadcast_ack)

lemma calm_commit_send: "within calm (commit_send author p cs found why)"
  unfolding commit_send_def Let_def by (intro handler_rules calm_modify calm_send_steps calm_broadcast)

lemma calm_send_message: "within calm (send_message sid p)"
  unfolding send_message_def by (intro handler_rules calm_resolve calm_check_thread calm_commit_send)

lemma calm_channel_event: "within calm (channel_event record nm)"
  unfolding channel_event_def by (intro calm_modify calm_broadcast)

lemma within_sub_outcome:
  "(\<And>r. within R (f r)) \<Longrightarrow> within R m \<Longrightarrow> within R c \<Longrightarrow> within R d \<Longrightarrow>
    within R (case out of Applied r \<Rightarrow> f r | NoChange \<Rightarrow> m | Denied Cancelled \<Rightarrow> c | Denied Forced \<Rightarrow> d)"
  by (auto split: sub_outcome.split override_mode.split)

lemma within_store_error:
  "within R m \<Longrightarrow> within R n \<Longrightarrow> within R (case e of StNameTaken \<Rightarrow> m | _ \<Rightarrow> n)"
  by (auto split: store_error.split)

lemma calm_self_subscription: "within calm (self_subscription_rpc sid ch sub)"
  unfolding self_subscription_rpc_def by (intro handler_rules within_sub_outcome calm_channel_event)

lemma calm_create_channel: "within calm (create_channel sid p)"
  unfolding create_channel_def by (intro handler_rules calm_store within_store_error calm_channel_event)

lemma calm_history: "within calm (history sid p)"
  unfolding history_def history_records_def Let_def by (cases "hi_scope p"; simp; intro handler_rules)

lemma calm_who: "within calm who"
  unfolding who_def by (intro handler_rules)

lemma calm_admin_subscription: "within calm (admin_subscription_rpc sid p sub)"
  unfolding admin_subscription_rpc_def by (intro handler_rules calm_channel_event)

lemma calm_rename: "within calm (rename sid p)"
  unfolding rename_def by (intro handler_rules calm_store within_store_error calm_channel_event)

lemma calm_archive: "within calm (archive sid ch arch)"
  unfolding archive_def by (intro handler_rules calm_channel_event)

lemma calm_delete_request: "within calm (delete_request sid ch)"
  unfolding delete_request_def Let_def by (intro handler_rules calm_modify) simp_all

lemma calm_delete_confirm: "within calm (delete_confirm sid p)"
  unfolding delete_confirm_def by (intro handler_rules calm_modify calm_broadcast) simp_all

lemma calm_message_status: "within calm (message_status sid mid)"
  unfolding message_status_def by (intro handler_rules)

lemma calm_daemon: "within calm (daemon_status sid)" "within calm (daemon_shutdown sid)"
  unfolding daemon_status_def daemon_shutdown_def by (intro handler_rules calm_modify | simp)+

lemma calm_watch: "within calm (set_watch sid w)" "within calm (watch_start sid chs)"
  unfolding set_watch_def watch_start_def by (intro handler_rules calm_modify calm_upd_session modest_watch)+

lemma calm_notification: "calm b (handle_notification sid nt b)"
  unfolding handle_notification_def by (auto split: option.split intro: calm_ack_update)

section \<open>Operations that change an identity\<close>

lemma idents_upd_session:
  "idents (upd_session sid f b) = map (\<lambda>p. if fst p = sid then (fst p, ident (f (snd p))) else (fst p, ident (snd p))) (b_sessions b)"
  by (auto simp: idents_def upd_session_def)

text \<open>What the identities of a sound broker satisfy, over the principals of its database.\<close>

definition ident_ok :: "broker_config \<Rightarrow> string set \<Rightarrow> ident \<Rightarrow> bool" where
  "ident_ok cfg known = (\<lambda>(ci, p, adm, cx). (p \<noteq> None \<longrightarrow> ci \<noteq> None) \<and>
     (\<forall>n. p = Some n \<longrightarrow> valid_principal_name n \<and> n \<in> known) \<and> (adm \<longrightarrow> p \<noteq> None \<and> admin_token cfg \<noteq> None) \<and>
     (\<forall>c. cx = Some c \<longrightarrow> p \<noteq> None \<and> loopback_ws_url (cx_app_server c)))"

definition idents_ok :: "broker_config \<Rightarrow> string set \<Rightarrow> (u64 \<times> ident) list \<Rightarrow> bool" where
  "idents_ok cfg known xs \<longleftrightarrow> distinct (map fst xs) \<and> (\<forall>x \<in> set xs. ident_ok cfg known (snd x)) \<and>
     (\<forall>x \<in> set xs. \<forall>y \<in> set xs. fst (snd (snd x)) \<noteq> None \<longrightarrow> fst (snd (snd x)) = fst (snd (snd y)) \<longrightarrow> fst x = fst y)"

definition known_names :: "tables \<Rightarrow> string set" where
  "known_names t = pr_name ` set (t_principals t)"

lemma known_names_spec: "known_names t \<subseteq> known_names (op_spec op ts t)"
  by (cases op) (auto simp: known_names_def Let_def purge_def add_message_def spec_rename_def spec_archived_def spec_evict_def
      spec_ack_def)

lemma store_good_step:
  assumes "db_step c c'" and "store_good (tabs c)"
  shows "store_good (tabs c') \<and> known_names (tabs c) \<subseteq> known_names (tabs c')"
proof -
  from assms(1) obtain l where step: "store_step c l c'" by (auto simp: db_step_def)
  have "integrity (tabs c)" using assms(2) by (simp add: store_good_def)
  from step_tables [OF step this] have "known_names (tabs c) \<subseteq> known_names (tabs c')"
    by (metis known_names_spec order_refl)
  with store_safe.inv_step [OF assms(2) step] show ?thesis by simp
qed

lemma store_good_path:
  assumes "db_step\<^sup>*\<^sup>* c c'" and "store_good (tabs c)"
  shows "store_good (tabs c') \<and> known_names (tabs c) \<subseteq> known_names (tabs c')"
  using assms by (induction rule: rtranclp_induct) (auto dest: store_good_step)

lemma store_path:
  assumes "db_step\<^sup>*\<^sup>* c c'" and "store_reachable c"
  shows "store_reachable c' \<and> known_names (tabs c) \<subseteq> known_names (tabs c')"
proof -
  have "store_reachable c'" using assms by (induction rule: rtranclp_induct) (auto simp: db_step_def intro: reach_step)
  with store_good_path [OF assms(1)] store_safe.reachable_inv [OF assms(2)] show ?thesis by simp
qed

definition broker_good :: "broker \<Rightarrow> bool" where
  "broker_good b \<longleftrightarrow> store_reachable (b_db b) \<and> idents_ok (b_cfg b) (known_names (tabs (b_db b))) (idents b) \<and> queues_ok b"

lemma broker_good_store: "broker_good b \<Longrightarrow> store_good (tabs (b_db b))"
  using store_safe.reachable_inv by (auto simp: broker_good_def)

lemma ident_ok_mono: "ident_ok cfg A x \<Longrightarrow> A \<subseteq> B \<Longrightarrow> ident_ok cfg B x"
  by (cases x) (auto simp: ident_ok_def)

lemma idents_ok_mono: "idents_ok cfg A xs \<Longrightarrow> A \<subseteq> B \<Longrightarrow> idents_ok cfg B xs"
  unfolding idents_ok_def using ident_ok_mono by blast

lemma calm_good:
  assumes "calm b b'" and "broker_good b"
  shows "broker_good b'"
  using assms store_path [of "b_db b" "b_db b'"] idents_ok_mono unfolding broker_good_def calm_def by metis

lemma calm_keeps: "within calm m \<Longrightarrow> keeps broker_good m"
  by (erule within_mono) (blast intro: calm_good)

end
