(* ===== verification/Broker_Steps.thy ===== *)
theory Broker_Steps
  imports Broker_Laws
begin

text \<open>
  The broker as a state machine: connections opened, lines arriving on them, messages
  written out, delivery tasks and timeouts firing, the grace window closing and time and
  storage faults passing, in any order. Its invariant \<open>broker_good\<close> (a sound database,
  sound identities, bounded queues) is established for every reachable state.
\<close>

section \<open>Identity updates\<close>

definition principal_in :: "u64 \<times> ident \<Rightarrow> string option" where
  "principal_in x = fst (snd (snd x))"

lemma idents_ok_alt: "idents_ok cfg known xs \<longleftrightarrow> distinct (map fst xs) \<and> (\<forall>x \<in> set xs. ident_ok cfg known (snd x)) \<and>
     (\<forall>x \<in> set xs. \<forall>y \<in> set xs. principal_in x \<noteq> None \<longrightarrow> principal_in x = principal_in y \<longrightarrow> fst x = fst y)"
  by (simp add: idents_ok_def principal_in_def)

lemma idents_ok_filter: "idents_ok cfg known xs \<Longrightarrow> idents_ok cfg known (filter P xs)"
  unfolding idents_ok_alt by (auto simp: distinct_map_filter)

lemma idents_ok_Cons:
  assumes "idents_ok cfg known xs" and "i \<notin> fst ` set xs"
  shows "idents_ok cfg known ((i, (None, None, False, None)) # xs)"
proof -
  have "principal_in (i, (None, None, False, None)) = None" "ident_ok cfg known (None, None, False, None)"
    by (simp_all add: principal_in_def ident_ok_def)
  with assms show ?thesis unfolding idents_ok_alt
    by (simp only: list.map distinct.simps list.set set_map ball_simps insert_iff snd_conv fst_conv) metis
qed

lemma idents_ok_update:
  assumes ok: "idents_ok cfg known xs"
    and fine: "\<And>x. (sid, x) \<in> set xs \<Longrightarrow> ident_ok cfg known (g x)"
    and fresh: "\<And>x y. (sid, x) \<in> set xs \<Longrightarrow> y \<in> set xs \<Longrightarrow> fst y \<noteq> sid \<Longrightarrow> principal_in (sid, g x) \<noteq> None \<Longrightarrow>
      principal_in y \<noteq> principal_in (sid, g x)"
  shows "idents_ok cfg known (map (\<lambda>y. if fst y = sid then (sid, g (snd y)) else y) xs)"
proof -
  let ?u = "\<lambda>y. if fst y = sid then (sid, g (snd y)) else y"
  have keys: "map fst (map ?u xs) = map fst xs" by auto
  have each: "ident_ok cfg known (snd (?u x))" if "x \<in> set xs" for x
    using ok fine [of "snd x"] that by (cases x) (auto simp: idents_ok_alt)
  have sole: "fst (?u x) = fst (?u y)"
    if mem: "x \<in> set xs" "y \<in> set xs" and p: "principal_in (?u x) \<noteq> None" "principal_in (?u x) = principal_in (?u y)" for x y
  proof (cases "fst x = sid"; cases "fst y = sid")
    assume other: "fst x \<noteq> sid" "fst y \<noteq> sid"
    with p have "principal_in x \<noteq> None" "principal_in x = principal_in y" by simp_all
    with ok mem have "fst x = fst y" unfolding idents_ok_alt by blast
    with other show ?thesis by simp
  next
    assume here: "fst x = sid" "fst y \<noteq> sid"
    then have "(sid, snd x) \<in> set xs" using mem(1) by (cases x) simp
    from fresh [OF this mem(2) here(2)] p here show ?thesis by simp
  next
    assume here: "fst x \<noteq> sid" "fst y = sid"
    then have "(sid, snd y) \<in> set xs" using mem(2) by (cases y) simp
    from fresh [OF this mem(1) here(1)] p here show ?thesis by simp
  qed simp
  show ?thesis unfolding idents_ok_alt
  proof (intro conjI ballI impI)
    show "distinct (map fst (map ?u xs))" unfolding keys using ok by (simp add: idents_ok_alt)
  next
    fix x assume "x \<in> set (map ?u xs)"
    then show "ident_ok cfg known (snd x)" unfolding set_map by (blast intro: each)
  next
    fix x y assume "x \<in> set (map ?u xs)" "y \<in> set (map ?u xs)"
    then obtain x' y' where *: "x' \<in> set xs" "y' \<in> set xs" "x = ?u x'" "y = ?u y'" unfolding set_map by blast
    assume "principal_in x \<noteq> None" "principal_in x = principal_in y"
    with sole [OF *(1,2)] show "fst x = fst y" unfolding *(3,4) by blast
  qed
qed

definition keeps_queue :: "(session \<Rightarrow> session) \<Rightarrow> bool" where
  "keeps_queue f \<longleftrightarrow> (\<forall>s. s_out (f s) = s_out s \<and> s_queued (f s) = s_queued s \<and> s_max_out_queue (f s) = s_max_out_queue s)"

lemma queues_upd_session: "keeps_queue f \<Longrightarrow> queues_ok b \<Longrightarrow> queues_ok (upd_session sid f b)"
  by (force simp: keeps_queue_def queues_ok_def queue_ok_def upd_session_def)

lemma idents_upd: "(\<And>s. ident (f s) = g (ident s)) \<Longrightarrow>
    idents (upd_session sid f b) = map (\<lambda>y. if fst y = sid then (sid, g (snd y)) else y) (idents b)"
  by (simp add: idents_def upd_session_def)

lemma upd_session_sel [simp]: "b_db (upd_session sid f b) = b_db b" "b_cfg (upd_session sid f b) = b_cfg b"
  by (simp_all add: upd_session_def)

lemma session_ident:
  assumes "idents_ok cfg known (idents b)" and "(sid, x) \<in> set (idents b)"
  shows "x = ident (the_session sid b)"
proof -
  from assms(2) obtain s where s: "(sid, s) \<in> set (b_sessions b)" "x = ident s" by (auto simp: idents_def)
  have "distinct (map fst (b_sessions b))" using assms(1) by (simp add: idents_ok_def idents_def comp_def)
  with s show ?thesis by (simp add: the_session_def)
qed

lemma good_upd_session:
  assumes good: "broker_good b" and q: "keeps_queue f" and g: "\<And>s. ident (f s) = g (ident s)"
    and fine: "\<And>x. (sid, x) \<in> set (idents b) \<Longrightarrow> ident_ok (b_cfg b) (known_names (tabs (b_db b))) (g x)"
    and fresh: "\<And>x y. (sid, x) \<in> set (idents b) \<Longrightarrow> y \<in> set (idents b) \<Longrightarrow> fst y \<noteq> sid \<Longrightarrow> principal_in (sid, g x) \<noteq> None \<Longrightarrow>
      principal_in y \<noteq> principal_in (sid, g x)"
  shows "broker_good (upd_session sid f b)"
  using good idents_ok_update [OF _ fine fresh] queues_upd_session [OF q]
  by (auto simp: broker_good_def idents_upd [of f g, OF g])

lemma keeps_queue_bind: "keeps_queue (bind_principal p adm cx)" "keeps_queue (\<lambda>s. s\<lparr>s_client_info := ci\<rparr>)"
  by (simp_all add: keeps_queue_def bind_principal_def)

lemma ident_bind: "ident (bind_principal p adm cx s) = (fst (ident s), p, adm, cx)"
  by (simp add: ident_def bind_principal_def)

lemma good_unbind:
  assumes "broker_good b" shows "broker_good (upd_session sid (bind_principal None False None) b)"
  by (rule good_upd_session [OF assms keeps_queue_bind(1) ident_bind]) (auto simp: ident_ok_def principal_in_def)

lemma good_hello_update:
  assumes "broker_good b" shows "broker_good (upd_session sid (\<lambda>s. s\<lparr>s_client_info := Some ci\<rparr>) b)"
proof (rule good_upd_session [OF assms keeps_queue_bind(2), where g = "\<lambda>x. (Some ci, snd x)"])
  have ok: "idents_ok (b_cfg b) (known_names (tabs (b_db b))) (idents b)" using assms by (simp add: broker_good_def)
  show "ident_ok (b_cfg b) (known_names (tabs (b_db b))) (Some ci, snd x)" if "(sid, x) \<in> set (idents b)" for x
    using ok that by (cases x) (auto simp: idents_ok_alt ident_ok_def)
  show "principal_in y \<noteq> principal_in (sid, Some ci, snd x)"
    if "(sid, x) \<in> set (idents b)" "y \<in> set (idents b)" "fst y \<noteq> sid" "principal_in (sid, Some ci, snd x) \<noteq> None" for x y
    using ok that by (auto simp: idents_ok_alt principal_in_def)
qed (simp add: ident_def)

lemma keeps_hello: "keeps broker_good (hello sid p)"
  unfolding hello_def
  by (intro kp.within_rules within_branches kp.within_modify impI good_hello_update calm_keeps [OF calm_fail]) 

lemma keeps_deregister: "keeps broker_good (deregister sid)"
  unfolding deregister_def
  by (intro kp.within_bind kp.within_return kp.within_modify impI good_unbind calm_keeps [OF calm_require_principal]
      calm_keeps [OF calm_try_store] store_calls calm_good [OF calm_broadcast])

lemma upd_session_twice: "upd_session sid f (upd_session sid g b) = upd_session sid (\<lambda>s. f (g s)) b"
  by (auto simp: upd_session_def)

lemma upd_session_db: "(upd_session sid f b)\<lparr>b_db := c\<rparr> = upd_session sid f (b\<lparr>b_db := c\<rparr>)"
  by (simp add: upd_session_def)

lemma session_of_None:
  "session_of p b = None \<Longrightarrow> y \<in> set (idents b) \<Longrightarrow> principal_in y \<noteq> Some p"
  by (auto simp: session_of_def find_None_all idents_def principal_in_def ident_def)

text \<open>Binding a free, valid name that the database knows to a session that said hello.\<close>

lemma good_bind:
  assumes good: "broker_good b" and ci: "s_client_info (the_session sid b) \<noteq> None" and free: "\<not> principal_active n b"
    and name: "valid_principal_name n" "n \<in> known_names (tabs (b_db b))"
    and adm: "adm \<longrightarrow> admin_token (b_cfg b) \<noteq> None" and cx: "\<And>c. cx = Some c \<Longrightarrow> loopback_ws_url (cx_app_server c)"
  shows "broker_good (upd_session sid (bind_principal (Some n) adm cx) b)"
proof (rule good_upd_session [OF good keeps_queue_bind(1) ident_bind])
  fix x assume "(sid, x) \<in> set (idents b)"
  with good have "x = ident (the_session sid b)" unfolding broker_good_def by (blast intro: session_ident)
  with ci name adm cx show "ident_ok (b_cfg b) (known_names (tabs (b_db b))) (fst x, Some n, adm, cx)"
    by (auto simp: ident_ok_def ident_def)
next
  fix x y assume "y \<in> set (idents b)"
  moreover have "session_of n b = None" using free unfolding principal_active_def by blast
  ultimately show "principal_in y \<noteq> principal_in (sid, fst x, Some n, adm, cx)"
    using session_of_None [of n b y] by (simp add: principal_in_def)
qed

lemma register_known:
  assumes "register_principal n adm c = (Inr record, c')" and "integrity (tabs c)"
  shows "n \<in> known_names (tabs c')"
proof -
  have "run_op (RegisterPrincipal n adm) c = (Inr (), c')" using assms(1) by (simp add: ignore_result_def bindE_def returnE_def)
  from run_op_success [OF this assms(2)] show ?thesis by (auto simp: known_names_def image_iff)
qed

lemma sessions_after_db [simp]: "the_session sid (b\<lparr>b_db := c\<rparr>) = the_session sid b" "principal_active p (b\<lparr>b_db := c\<rparr>) = principal_active p b"
  by (simp_all add: the_session_def principal_active_def session_of_def)

lemma good_register_claim:
  assumes good: "broker_good b" and ci: "s_client_info (the_session sid b) \<noteq> None" and free: "\<not> principal_active n b"
    and name: "valid_principal_name n" and adm: "adm \<longrightarrow> admin_token (b_cfg b) \<noteq> None"
    and cx: "\<And>c. cx = Some c \<Longrightarrow> loopback_ws_url (cx_app_server c)"
    and run: "store (register_principal n adm) (upd_session sid (bind_principal (Some n) adm cx) b) = (r, b')"
  shows "case r of Inr _ \<Rightarrow> broker_good b' | Inl _ \<Rightarrow> broker_good (upd_session sid (bind_principal None False None) b')"
proof -
  obtain q c' where m: "register_principal n adm (b_db b) = (q, c')" by fastforce
  with store_db [OF run] have r: "r = q" and b': "b' = upd_session sid (bind_principal (Some n) adm cx) (b\<lparr>b_db := c'\<rparr>)"
    by (simp_all add: upd_session_db)
  have "db_step (b_db b) c'" using store_call_op [OF run_op.simps(5), of n adm] m unfolding store_call_def by (metis snd_conv)
  then have good': "broker_good (b\<lparr>b_db := c'\<rparr>)" using good by (blast intro: calm_good calm_db)
  show ?thesis
  proof (cases q)
    case (Inl e)
    have "upd_session sid (bind_principal None False None) b' = upd_session sid (bind_principal None False None) (b\<lparr>b_db := c'\<rparr>)"
      unfolding b' upd_session_twice by (simp add: upd_session_def bind_principal_def)
    with Inl r good_unbind [OF good'] show ?thesis by simp
  next
    case (Inr rc)
    have "n \<in> known_names (tabs c')" using register_known m Inr broker_good_store [OF good] by (auto simp: store_good_def)
    with good_bind [OF good', of sid n adm cx] ci free name adm cx have "broker_good b'" unfolding b' by simp
    with Inr r show ?thesis by simp
  qed
qed

text \<open>The registration a session may make, and what it does.\<close>

definition may_register :: "u64 \<Rightarrow> register_params \<Rightarrow> bool \<Rightarrow> broker \<Rightarrow> bool" where
  "may_register sid p adm b \<longleftrightarrow> valid_principal_name (rp_name p) \<and>
     (case rp_codex p of Some c \<Rightarrow> loopback_ws_url (cx_app_server c) | None \<Rightarrow> True) \<and>
     (adm \<longrightarrow> authorized (b_cfg b) p) \<and> s_principal (the_session sid b) = None \<and> \<not> principal_active (rp_name p) b"

lemma register_run:
  assumes "may_register sid p adm b"
  shows "register sid p adm b =
    (case store (register_principal (rp_name p) adm) (upd_session sid (bind_principal (Some (rp_name p)) adm (rp_codex p)) b) of
       (Inl e, b2) \<Rightarrow> (Inl (internal (store_error_text e)), upd_session sid (bind_principal None False None) b2)
     | (Inr rc, b2) \<Rightarrow> (Inr (enc_register_result (rp_name p)), drain_held (rp_name p) (broadcast (WatchRecord rc) None False b2)))"
  using assms by (auto simp: register_def may_register_def bindE_def getE_def principal_of_def modifyE_def handleE_def failE_def
      returnE_def split: option.splits prod.splits sum.splits)

lemma register_refused:
  assumes "\<not> may_register sid p adm b" and "register sid p adm b = (r, b')"
  shows "\<exists>e. r = Inl e \<and> (b' = b \<or> (\<exists>why. b' = system_record (RegistrationDenied (rp_name p) why) None b))"
  using assms by (auto simp: register_def may_register_def fail_def failE_def bindE_def getE_def principal_of_def
      deny_registration_def modifyE_def split: option.splits if_splits)

lemma good_register:
  assumes good: "broker_good b" and ci: "s_client_info (the_session sid b) \<noteq> None" and run: "register sid p adm b = (r, b')"
  shows "broker_good b'"
proof (cases "may_register sid p adm b")
  case False
  from register_refused [OF False run] good calm_good [OF calm_system_record good] show ?thesis by auto
next
  case True
  then have adm: "adm \<longrightarrow> admin_token (b_cfg b) \<noteq> None" by (auto simp: may_register_def authorized_def split: option.splits)
  let ?b1 = "upd_session sid (bind_principal (Some (rp_name p)) adm (rp_codex p)) b"
  obtain q b2 where q: "store (register_principal (rp_name p) adm) ?b1 = (q, b2)" by fastforce
  have claim: "case q of Inr _ \<Rightarrow> broker_good b2 | Inl _ \<Rightarrow> broker_good (upd_session sid (bind_principal None False None) b2)"
    by (rule good_register_claim [OF good ci _ _ adm _ q]) (use True in \<open>auto simp: may_register_def\<close>)
  with run register_run [OF True] q calm_good [OF calm_drain_held calm_good [OF calm_broadcast]] show ?thesis
    by (cases q) auto
qed

section \<open>Requests\<close>

lemma good_dispatch:
  assumes good: "broker_good b" and run: "dispatch sid m params b = (r, b')"
  shows "broker_good b'"
proof (cases "b_shutdown b \<or> (m \<noteq> method_name SESSION_HELLO \<and> s_client_info (the_session sid b) = None)")
  case True
  with run good show ?thesis
    by (auto simp: dispatch_def bindE_def getE_def fail_def failE_def split: if_splits)
next
  case False
  with run have run: "dispatch_method sid m params b = (r, b')"
    by (auto simp: dispatch_def bindE_def getE_def split: if_splits)
  show ?thesis
  proof (cases "m = method_name PRINCIPAL_REGISTER \<or> m = method_name ADMIN_REGISTER")
    case True
    then have reg: "dispatch_method sid m params = bindE (parse dec_register_params params) (\<lambda>p. register sid p (m = method_name ADMIN_REGISTER))"
      by (elim disjE) (simp_all add: dispatch_method_def)
    from True False have "s_client_info (the_session sid b) \<noteq> None" by auto
    note ci = this
    show ?thesis
    proof (cases "dec_register_params params")
      case None
      with run have "b' = b" unfolding reg by (simp add: parse_def failE_def bindE_def)
      with good show ?thesis by simp
    next
      case (Some p)
      with run have "register sid p (m = method_name ADMIN_REGISTER) b = (r, b')" unfolding reg by (simp add: parse_def)
      with good ci show ?thesis by (rule good_register)
    qed
  next
    case False
    have "keeps broker_good (dispatch_method sid m params)"
      unfolding dispatch_method_def using False
      by (simp only: de_Morgan_disj if_False simp_thms)
        (intro within_if kp.within_bind kp.within_fail keeps_hello keeps_deregister calm_keeps [OF calm_parse]
          calm_keeps [OF calm_send_message] calm_keeps [OF calm_self_subscription] calm_keeps [OF calm_create_channel]
          calm_keeps [OF calm_history] calm_keeps [OF calm_who] calm_keeps [OF calm_admin_subscription]
          calm_keeps [OF calm_rename] calm_keeps [OF calm_archive] calm_keeps [OF calm_delete_request]
          calm_keeps [OF calm_delete_confirm] calm_keeps [OF calm_message_status] calm_keeps [OF calm_daemon(1)]
          calm_keeps [OF calm_daemon(2)] calm_keeps [OF calm_watch(1)] calm_keeps [OF calm_watch(2)])
    with good run show ?thesis by (blast intro: keepsD)
  qed
qed

lemma good_request: "broker_good b \<Longrightarrow> handle_request sid rq b = (resp, b') \<Longrightarrow> broker_good b'"
  by (auto simp: handle_request_def split: prod.splits sum.splits intro: good_dispatch)

lemma calm_answer: "calm b (answer sid resp b)"
  unfolding answer_def by (rule calm_upd_session) (rule modest_send)

lemma good_message: "broker_good b \<Longrightarrow> broker_good (handle_message sid msg b)"
  unfolding handle_message_def
  by (auto split: message.split prod.split intro: calm_good [OF calm_answer] calm_good [OF calm_on_response]
      calm_good [OF calm_notification] good_request)

lemma good_line: "broker_good b \<Longrightarrow> broker_good (handle_line parse_json sid line b)"
  unfolding handle_line_def by (auto split: option.split intro: calm_good [OF calm_answer] good_message)

lemma good_detach:
  assumes "broker_good b" shows "broker_good (detach sid b)"
proof -
  let ?b1 = "b\<lparr>b_sessions := filter (\<lambda>p. fst p \<noteq> sid) (b_sessions b),
                 b_orphans := b_orphans b @ map snd (s_pending (the_session sid b))\<rparr>"
  have "idents ?b1 = filter (\<lambda>x. fst x \<noteq> sid) (idents b)" by (simp add: idents_def filter_map comp_def)
  moreover have "queues_ok b \<Longrightarrow> queues_ok ?b1" by (simp add: queues_ok_def)
  ultimately have good: "broker_good ?b1" using assms idents_ok_filter by (simp add: broker_good_def)
  show ?thesis
  proof (cases "s_principal (the_session sid b)")
    case None
    with good show ?thesis by (simp add: detach_def Let_def)
  next
    case (Some p)
    obtain held b3 where q: "or_empty (held_for p) (system_record (Disconnected p) None ?b1) = (held, b3)" by fastforce
    have "calm ?b1 b3"
      using calm_system_record calm_or_empty [OF q store_call_reads [OF reads_lists(7)]] by (rule calm_trans)
    moreover have "calm b3 (fold (fail_disconnected p) held b3)" by (rule calm_fold) (rule calm_fail_disconnected)
    ultimately have "calm ?b1 (fold (fail_disconnected p) held b3)" by (rule calm_trans)
    with good Some q show ?thesis by (auto simp: detach_def Let_def intro: calm_good)
  qed
qed

lemma good_attach: "broker_good b \<Longrightarrow> broker_good (snd (attach b))"
proof -
  assume good: "broker_good b"
  let ?i = "b_next_session_id b" and ?n = "new_session (max_out_queue (b_cfg b))"
  have new: "ident ?n = (None, None, False, None)" by (simp add: ident_def new_session_def)
  have ids: "idents (snd (attach b)) = (?i, ident ?n) # filter (\<lambda>x. fst x \<noteq> ?i) (idents b)"
    by (simp add: attach_def Let_def idents_def filter_map comp_def)
  have "idents_ok (b_cfg b) (known_names (tabs (b_db b))) (filter (\<lambda>x. fst x \<noteq> ?i) (idents b))"
    using good by (auto simp: broker_good_def intro: idents_ok_filter)
  then have "idents_ok (b_cfg b) (known_names (tabs (b_db b))) (idents (snd (attach b)))"
    unfolding ids new by (rule idents_ok_Cons) auto
  moreover have "queues_ok (snd (attach b))"
    using good by (auto simp: broker_good_def queues_ok_def attach_def Let_def new_session_def queue_ok_def)
  ultimately show ?thesis using good by (simp add: broker_good_def attach_def Let_def)
qed

lemma good_round: "broker_good b \<Longrightarrow> broker_good (connection_round parse_json sid inbound b)"
  unfolding connection_round_def
  by (auto split: inbound_line.split intro: good_detach good_line calm_good [OF calm_answer])

section \<open>The state machine\<close>

definition writer_step :: "u64 \<Rightarrow> broker \<Rightarrow> broker" where
  "writer_step sid = upd_session sid (\<lambda>s. case writer_recv s of None \<Rightarrow> s | Some (_, s') \<Rightarrow> s')"

lemma modest_writer: "modest (\<lambda>s. case writer_recv s of None \<Rightarrow> s | Some (_, s') \<Rightarrow> s')"
  by (auto simp: modest_def writer_recv_def ident_def queue_ok_def split: list.split option.split)

text \<open>A task runs to where it waits next; the environment is given: how the token file, a dial and
  the app-server behave.\<close>

definition codex_inject :: "codex_task \<Rightarrow> world \<Rightarrow> delivered \<times> world" where
  "codex_inject ct = Attach.deliver (cx_thread_id (ct_coords ct)) (codex_text ct)"

definition codex_move :: "string option \<Rightarrow> string option \<Rightarrow> world \<Rightarrow> task \<Rightarrow> broker \<Rightarrow> task option \<times> broker" where
  "codex_move token_error dial_error w t b = (case t of
      SpawnDeliver p e tracked \<Rightarrow> (None, deliver_task p e tracked b)
    | CodexTask ct \<Rightarrow> codex_check ct b
    | CodexDial ct \<Rightarrow> codex_dial token_error dial_error ct b
    | CodexInject ct \<Rightarrow> codex_outcome (fst (codex_inject ct w)) ct b)"

definition run_task :: "string option \<Rightarrow> string option \<Rightarrow> world \<Rightarrow> task \<Rightarrow> broker \<Rightarrow> broker" where
  "run_task token_error dial_error w t b = (case codex_move token_error dial_error w t b of
      (None, b') \<Rightarrow> b' | (Some t', b') \<Rightarrow> b'\<lparr>b_tasks := b_tasks b' @ [t']\<rparr>)"

text \<open>A task that sleeps before its next round is not run before it wakes.\<close>

definition task_due :: "nat \<Rightarrow> task \<Rightarrow> bool" where
  "task_due now t = (case t of CodexTask ct \<Rightarrow> ct_wake ct \<le> now | _ \<Rightarrow> True)"

datatype event = Connect | Inbound u64 inbound_line | Overflowed u64 | Written u64 | TaskRuns task
  | CallTimesOut u64 u64 | OrphanTimesOut delivery | GraceEnds | ShutsDown | Passes

inductive broker_step :: "broker \<Rightarrow> event \<Rightarrow> broker \<Rightarrow> bool" where
  connects: "broker_step b Connect (snd (attach b))"
| receives: "sid \<in> fst ` set (b_sessions b) \<Longrightarrow>
    broker_step b (Inbound sid inbound) (connection_round parse_json sid inbound b)"
| overflows: "sid \<in> fst ` set (b_sessions b) \<Longrightarrow> s_overflow (the_session sid b) \<Longrightarrow> broker_step b (Overflowed sid) (detach sid b)"
| writes: "broker_step b (Written sid) (writer_step sid b)"
| task_runs: "b_tasks b = before @ t # later \<Longrightarrow> task_due (b_now b) t \<Longrightarrow>
    broker_step b (TaskRuns t) (run_task token_error dial_error w t (b\<lparr>b_tasks := before @ later\<rparr>))"
| call_times_out: "broker_step b (CallTimesOut sid i) (call_timeout sid i b)"
| orphan_times_out: "broker_step b (OrphanTimesOut d) (orphan_timeout d b)"
| grace_ends: "b_grace_pending b \<Longrightarrow> broker_step b GraceEnds (grace_window_closes b)"
| shuts_down: "b_shutdown_pending b \<Longrightarrow> broker_step b ShutsDown (b\<lparr>b_shutdown := True\<rparr>)"
| passes: "b_now b \<le> now \<Longrightarrow> broker_step b Passes (b\<lparr>b_now := now, b_db := (b_db b)\<lparr>faults := fs, clock := ts\<rparr>\<rparr>)"

definition broker_init :: "broker \<Rightarrow> bool" where
  "broker_init b \<longleftrightarrow> (\<exists>cfg db now. store_reachable db \<and> b = new_broker cfg db now)"

abbreviation broker_reachable :: "broker \<Rightarrow> bool" where
  "broker_reachable \<equiv> reachable broker_init broker_step"

lemma calm_codex_move: "codex_move te de w t b = (t', b') \<Longrightarrow> calm b b'"
  unfolding codex_move_def
  by (auto split: task.splits intro: calm_deliver_task calm_codex_check calm_codex_dial calm_codex_outcome)

lemma good_task: "broker_good b \<Longrightarrow> broker_good (run_task te de w t b)"
  unfolding run_task_def
  by (auto split: prod.split option.split intro: calm_good [OF calm_codex_move]
      calm_good [OF calm_trans [OF calm_codex_move calm_other(1)]])

lemma good_passes:
  assumes "broker_good b" shows "broker_good (b\<lparr>b_now := now, b_db := (b_db b)\<lparr>faults := fs, clock := ts\<rparr>\<rparr>)"
proof -
  have "calm (b\<lparr>b_now := now\<rparr>) ((b\<lparr>b_now := now\<rparr>)\<lparr>b_db := (b_db b)\<lparr>faults := fs, clock := ts\<rparr>\<rparr>)"
    by (rule calm_db) (simp add: db_step_same)
  with assms show ?thesis using calm_good [OF calm_other(8)] by (auto intro: calm_good)
qed

interpretation broker_safe: safety broker_init broker_step broker_good
proof unfold_locales
  fix b assume "broker_init b"
  then obtain cfg db now where db: "store_reachable db" and b: "b = new_broker cfg db now" by (auto simp: broker_init_def)
  from db show "broker_good b"
    unfolding b by (simp add: broker_good_def new_broker_def idents_def idents_ok_def queues_ok_def)
next
  fix b e b' assume good: "broker_good b" and step: "broker_step b e b'"
  from step good show "broker_good b'"
  proof cases
    case (writes sid)
    with good show ?thesis using calm_good [OF calm_upd_session [OF modest_writer]] by (simp add: writer_step_def)
  qed (auto intro: good_attach good_round good_detach good_task good_passes calm_good [OF calm_timeouts(1)]
      calm_good [OF calm_timeouts(2)] calm_good [OF calm_sweep] calm_good [OF calm_other(7)] calm_good [OF calm_other(1)])
qed

end
