(* ===== verification/Session_Queue.thy ===== *)
theory Session_Queue
  imports Broker_Steps
begin

text \<open>
  The outbound queue of a session and the size limit of a message body: what a peer reads
  is a prefix of what was sent to it, in order, and what a long body is cut to.
\<close>

section \<open>The queue as its reader sees it\<close>

datatype queue_op = Push message | Pop

fun pushed :: "queue_op list \<Rightarrow> message list" where
  "pushed [] = []"
| "pushed (Push m # ops) = m # pushed ops"
| "pushed (Pop # ops) = pushed ops"

text \<open>What the writer takes out, and the session at the end.\<close>

fun run_queue :: "session \<Rightarrow> queue_op list \<Rightarrow> message list \<times> session" where
  "run_queue s [] = ([], s)"
| "run_queue s (Push m # ops) = run_queue (send m s) ops"
| "run_queue s (Pop # ops) = (case writer_recv s of
     None \<Rightarrow> run_queue s ops
   | Some (m, s') \<Rightarrow> (case run_queue s' ops of (written, s'') \<Rightarrow> (m # written, s'')))"

lemma send_overflowed: "s_overflow s \<Longrightarrow> send m s = s"
  by (simp add: send_def)

lemma writer_recv_sel: "writer_recv s = Some (m, s') \<Longrightarrow> s_out s = m # s_out s' \<and> s_overflow s' = s_overflow s \<and>
    s_max_out_queue s' = s_max_out_queue s \<and> (queue_ok s \<longrightarrow> queue_ok s')"
  by (auto simp: writer_recv_def queue_ok_def split: list.splits)

lemma run_queue_prefix:
  assumes "run_queue s ops = (written, s')" and "queue_ok s"
  shows "queue_ok s' \<and> s_max_out_queue s' = s_max_out_queue s \<and> (s_overflow s \<longrightarrow> s_overflow s' \<and> written @ s_out s' = s_out s) \<and>
    (\<exists>k. written @ s_out s' = s_out s @ take k (pushed ops) \<and> (\<not> s_overflow s' \<longrightarrow> k = length (pushed ops)))"
  using assms
proof (induction s ops arbitrary: written rule: run_queue.induct)
  case (1 s)
  then show ?case by simp
next
  case (2 s m ops)
  then have run: "run_queue (send m s) ops = (written, s')" by simp
  have ok: "queue_ok (send m s)" using 2(3) by (auto simp: queue_ok_def send_def)
  note IH = 2(1) [OF run ok]
  show ?case
  proof (cases "s_overflow s \<or> s_queued s \<ge> s_max_out_queue s")
    case True
    then have over: "s_overflow (send m s)" "s_out (send m s) = s_out s" "s_max_out_queue (send m s) = s_max_out_queue s"
      by (auto simp: send_def)
    with IH show ?thesis by (intro conjI) (auto intro: exI [of _ 0])
  next
    case False
    then have room: "s_out (send m s) = s_out s @ [m]" "s_max_out_queue (send m s) = s_max_out_queue s" "\<not> s_overflow s"
      by (simp_all add: send_def)
    from IH obtain k where "written @ s_out s' = s_out s @ take (Suc k) (pushed (Push m # ops))"
      "\<not> s_overflow s' \<longrightarrow> Suc k = length (pushed (Push m # ops))" by (auto simp: room)
    then have "\<exists>k. written @ s_out s' = s_out s @ take k (pushed (Push m # ops)) \<and>
        (\<not> s_overflow s' \<longrightarrow> k = length (pushed (Push m # ops)))" by blast
    with IH room show ?thesis by (simp only: simp_thms)
  qed
next
  case (3 s ops)
  show ?case
  proof (cases "writer_recv s")
    case None
    with 3 show ?thesis by simp
  next
    case (Some x)
    then obtain m s1 where x: "writer_recv s = Some (m, s1)" by (cases x) auto
    obtain w where run: "run_queue s1 ops = (w, s')" and w: "written = m # w" using 3(3) x by (auto split: prod.splits)
    note sel = writer_recv_sel [OF x]
    from 3(2) [OF x refl run] 3(4) sel w show ?thesis by auto
  qed
qed

section \<open>Where a body is cut\<close>

lemma continuation_byte_cont: "continuation_byte c = cont c"
  by (simp add: continuation_byte_def cont_def)

lemma char_floor_boundary: "is_char_boundary s (char_floor s n)"
  by (induction s n rule: char_floor.induct) (auto simp: is_char_boundary_def)

lemma char_floor_greatest: "is_char_boundary s k \<Longrightarrow> k \<le> n \<Longrightarrow> k \<le> char_floor s n"
  by (induction s n rule: char_floor.induct) (auto simp: le_Suc_eq)

lemma char_floor_le: "char_floor s n \<le> n"
  by (induction s n rule: char_floor.induct) auto

lemma char_floor_near:
  assumes "valid_utf8 s" and "n \<le> length s"
  shows "n < char_floor s n + 4"
proof -
  from valid_utf8_boundary_near [OF assms] obtain j where j: "j \<le> n" "n < j + 4" "j = 0 \<or> j = length s \<or> \<not> cont (s ! j)"
    by blast
  with assms(2) have "is_char_boundary s j" by (auto simp: is_char_boundary_def continuation_byte_cont)
  from char_floor_greatest [OF this j(1)] j(2) show ?thesis by simp
qed

section \<open>Properties\<close>

text \<open>C25. A peer reads a prefix of what the broker sent it, in order, with nothing lost or
  duplicated: for any interleaving of sends and writes, what was written followed by what
  is still queued is what was queued at first followed by the first of the messages sent;
  all of them unless the queue overflowed, which it does rather than grow past its limit.\<close>

theorem outbound_fifo:
  assumes "queue_ok s" and "run_queue s ops = (written, s')"
  shows "length (s_out s') \<le> s_max_out_queue s \<and>
    (\<exists>k. written @ s_out s' = s_out s @ take k (pushed ops) \<and> (\<not> s_overflow s' \<longrightarrow> k = length (pushed ops)))"
  using run_queue_prefix [OF assms(2,1)] by (auto simp: queue_ok_def)

theorem outbound_fifo_witness:
  "\<exists>written s'. run_queue (new_session 1) [Push (Response (ok_response IdNull JNull)), Pop, Push (Response (ok_response (IdNum 1) JNull)),
      Push (Response (ok_response (IdNum 2) JNull))] = (written, s') \<and> length (s_out s') \<le> 1 \<and> s_overflow s'"
proof -
  let ?ops = "[Push (Response (ok_response IdNull JNull)), Pop, Push (Response (ok_response (IdNum 1) JNull)),
      Push (Response (ok_response (IdNum 2) JNull))]"
  obtain w s' where run: "run_queue (new_session 1) ?ops = (w, s')" by fastforce
  then have "s_overflow s'" by (auto simp: new_session_def send_def writer_recv_def)
  moreover have "queue_ok (new_session 1)" by (simp add: queue_ok_def new_session_def)
  ultimately show ?thesis using outbound_fifo [OF _ run] run by (auto simp: new_session_def)
qed

text \<open>C26. An overlong body is cut, never rejected and never broken: the stored body is a prefix
  of what was sent, within the limit and less than one character short of it, still valid
  UTF-8, and the flag says whether anything was cut.\<close>

theorem truncation_keeps_utf8:
  assumes "valid_utf8 contents" and "truncate_body limit contents = (out, trunc)"
  shows "valid_utf8 out \<and> length out \<le> limit \<and> (\<exists>rest. contents = out @ rest) \<and> (trunc \<longleftrightarrow> length contents > limit) \<and>
    (if trunc then limit < length out + 4 else out = contents)"
proof (cases "length contents > limit")
  case False
  with assms show ?thesis by (auto simp: truncate_body_def)
next
  case True
  define k where "k = char_floor contents limit"
  have k: "k \<le> limit" "k < length contents" "limit < k + 4"
    using char_floor_le [of contents limit] char_floor_near [OF assms(1), of limit] True by (auto simp: k_def)
  have "k < length contents \<longrightarrow> k = 0 \<or> \<not> cont (contents ! k)"
    using char_floor_boundary [of contents limit] by (auto simp: k_def is_char_boundary_def continuation_byte_cont)
  then have "valid_utf8 (take k contents)"
    using valid_utf8_take [OF assms(1)] by (cases "k = 0") (auto simp: valid_utf8.simps [of "[]"])
  moreover have "out = take k contents" "trunc" using assms(2) True by (simp_all add: truncate_body_def k_def)
  ultimately show ?thesis using k True by (auto intro: exI [of _ "drop k contents"])
qed

theorem truncation_keeps_utf8_witness:
  "truncate_body 2 ''abc'' = (''ab'', True) \<and> valid_utf8 ''ab''"
proof -
  have "valid_utf8 ''abc''" by (rule valid_utf8_ascii) simp
  moreover have "truncate_body 2 ''abc'' = (''ab'', True)" by code_simp
  ultimately show ?thesis using truncation_keeps_utf8 [of "''abc''" 2 "''ab''" True] by simp
qed

end
