(* ===== verification/Sending.thy ===== *)
theory Sending
  imports Session_Queue
begin

text \<open>
  Sending a message: what the lookups of a handler find, who the audience is (ADR-0009),
  and what a successful send leaves behind: the stored message, an acknowledgment per
  recipient, a delivery task per present recipient, and the report.
\<close>

section \<open>Lookups\<close>

text \<open>A program that only looks at the database leaves everything else, and the tables, alone.\<close>

definition looks :: "broker \<Rightarrow> broker \<Rightarrow> bool" where
  "looks b b' \<longleftrightarrow> (\<exists>c. tabs c = tabs (b_db b) \<and> b' = b\<lparr>b_db := c\<rparr>)"

interpretation lk: frame looks
proof unfold_locales
  fix b b' b'' :: broker
  have "b = b\<lparr>b_db := b_db b\<rparr>" by simp
  then show "looks b b" unfolding looks_def by blast
  assume "looks b b'" "looks b' b''"
  then show "looks b b''" by (auto simp: looks_def)
qed

lemma looks_sel: "looks b b' \<Longrightarrow> tabs (b_db b') = tabs (b_db b) \<and> b_sessions b' = b_sessions b \<and> b_cfg b' = b_cfg b \<and>
    b_tasks b' = b_tasks b \<and> b_delete_tokens b' = b_delete_tokens b \<and> b_now b' = b_now b"
  by (auto simp: looks_def)

lemma looks_session [simp]: "looks b b' \<Longrightarrow> the_session sid b' = the_session sid b" "looks b b' \<Longrightarrow> principal_active p b' = principal_active p b"
  by (auto simp: looks_def)

lemma looks_trans: "looks b b' \<Longrightarrow> looks b' b'' \<Longrightarrow> looks b b''"
  by (rule lk.frame_trans)

lemma looks_refl [simp]: "looks b b"
  by (rule lk.frame_refl)

lemma try_store_ok: "try_store m b = (Inr x, b') \<Longrightarrow> m (b_db b) = (Inr x, b_db b') \<and> b' = b\<lparr>b_db := b_db b'\<rparr>"
  by (auto simp: try_store_def handleE_ok failE_ok returnE_ok dest!: store_db)

lemma looks_store: "reads m \<Longrightarrow> within looks (store m)"
  by (rule withinI) (auto dest!: store_db simp: looks_def within_def)

lemma looks_try_store: "reads m \<Longrightarrow> within looks (try_store m)"
  unfolding try_store_def by (intro lk.within_rules looks_store)

lemma looks_fail: "within looks (fail c d)"
  by (simp add: fail_def lk.within_fail)

lemmas looks_rules = lk.within_rules within_branches looks_try_store looks_fail reading

lemma looks_lookups: "within looks (live_channel nm)" "within looks (known_channel nm)" "within looks (known_principal nm)"
  "within looks (Rpc.principal_row nm)" "within looks (check_thread t)" "within looks (principal_of sid)"
  "within looks (require_principal sid d)" "within looks (is_admin sid)"
  unfolding live_channel_def known_channel_def known_principal_def principal_row_def check_thread_def principal_of_def
    require_principal_def is_admin_def
  by (intro looks_rules)+

lemma query_row_filter:
  assumes "query_row f (\<lambda>t. filter (P t) (rows t)) c = (Inr x, c')"
  shows "tabs c' = tabs c \<and> (case x of None \<Rightarrow> \<forall>r \<in> set (rows (tabs c)). \<not> P (tabs c) r
    | Some y \<Rightarrow> \<exists>r \<in> set (rows (tabs c)). P (tabs c) r \<and> f r = Some y)"
proof (cases "filter (P (tabs c)) (rows (tabs c))")
  case Nil
  with query_row_run [OF assms] show ?thesis by (auto simp: filter_empty_conv)
next
  case (Cons r rs)
  then have "r \<in> set (filter (P (tabs c)) (rows (tabs c)))" by simp
  then have "r \<in> set (rows (tabs c))" "P (tabs c) r" by simp_all
  with query_row_run [OF assms] Cons show ?thesis by auto
qed

lemma channel_by_name_run: "channel_by_name nm c = (Inr r, c') \<Longrightarrow> tabs c' = tabs c \<and>
    (case r of None \<Rightarrow> nm \<notin> ch_name ` set (t_channels (tabs c)) | Some ch \<Rightarrow> ch \<in> set (t_channels (tabs c)) \<and> ch_name ch = nm)"
  unfolding channel_by_name_def by (drule query_row_filter) (auto split: option.splits)

lemma principal_id_run: "principal_id nm c = (Inr r, c') \<Longrightarrow> tabs c' = tabs c \<and>
    (case r of None \<Rightarrow> nm \<notin> known_names (tabs c) | Some i \<Rightarrow> \<exists>p \<in> set (t_principals (tabs c)). pr_name p = nm \<and> pr_id p = i)"
  unfolding principal_id_def by (drule query_row_filter) (auto simp: known_names_def split: option.splits)

lemma is_subscribed_run: "is_subscribed p ch c = (Inr y, c') \<Longrightarrow> tabs c' = tabs c \<and> (y \<longleftrightarrow> (p, ch) \<in> set (t_subscriptions (tabs c)))"
  unfolding is_subscribed_def by (auto simp: bindE_ok returnE_ok dest!: query_row_filter split: option.splits)

lemma live_channel_run:
  assumes "live_channel nm b = (Inr ch, b')"
  shows "looks b b' \<and> ch \<in> set (t_channels (tabs (b_db b))) \<and> ch_name ch = nm \<and> ch_archived ch = 0"
proof -
  obtain b1 where q: "try_store (channel_by_name nm) b = (Inr (Some ch), b1)" and live: "ch_archived ch = 0"
    using assms by (auto simp: live_channel_def bindE_ok fail_def failE_ok returnE_ok split: option.splits if_splits)
  from try_store_ok [OF q] channel_by_name_run have "ch \<in> set (t_channels (tabs (b_db b))) \<and> ch_name ch = nm" by fastforce
  with live withinD [OF looks_lookups(1) assms] show ?thesis by simp
qed

lemma live_channels_run:
  "mapE live_channel names b = (Inr chs, b') \<Longrightarrow> looks b b' \<and>
    list_all2 (\<lambda>nm ch. ch \<in> set (t_channels (tabs (b_db b))) \<and> ch_name ch = nm \<and> ch_archived ch = 0) names chs"
proof (induction names arbitrary: b chs)
  case Nil
  then show ?case by (simp add: returnE_ok)
next
  case (Cons nm names)
  then obtain ch b1 rest where ch: "live_channel nm b = (Inr ch, b1)" and rest: "mapE live_channel names b1 = (Inr rest, b')"
    and chs: "chs = ch # rest" by (auto simp: bindE_ok returnE_ok)
  note first = live_channel_run [OF ch]
  with Cons.IH [OF rest] chs looks_sel [of b b1] show ?case by (auto intro: looks_trans)
qed

lemma known_principal_run:
  assumes "known_principal nm b = (Inr i, b')"
  shows "looks b b' \<and> nm \<in> known_names (tabs (b_db b))"
proof -
  obtain b1 where q: "try_store (principal_id nm) b = (Inr (Some i), b1)"
    using assms by (auto simp: known_principal_def bindE_ok fail_def failE_ok returnE_ok split: option.splits)
  from try_store_ok [OF q] principal_id_run have "nm \<in> known_names (tabs (b_db b))" by (fastforce simp: known_names_def)
  with withinD [OF looks_lookups(3) assms] show ?thesis by simp
qed

section \<open>The audience\<close>

definition audience_of :: "tables \<Rightarrow> send_params \<Rightarrow> int list \<Rightarrow> string set" where
  "audience_of t p cs =
     (if sp_channels p \<noteq> [] \<and> sp_principals p \<noteq> [] then {q \<in> set (sp_principals p). \<exists>c \<in> set cs. q \<in> set (subscriber_names c t)}
      else if sp_channels p \<noteq> [] then (\<Union>c \<in> set cs. set (subscriber_names c t))
      else set (sp_principals p))"

lemma subscribed_any_run:
  "subscribed_any pid cs b = (Inr y, b') \<Longrightarrow> looks b b' \<and> (y \<longleftrightarrow> (\<exists>c \<in> set cs. (pid, c) \<in> set (t_subscriptions (tabs (b_db b)))))"
proof (induction cs arbitrary: b)
  case Nil
  then show ?case by (simp add: returnE_ok)
next
  case (Cons c cs)
  then obtain z b1 where z: "try_store (is_subscribed pid c) b = (Inr z, b1)"
    and rest: "(if z then returnE True else subscribed_any pid cs) b1 = (Inr y, b')" by (auto simp: bindE_ok)
  have look: "looks b b1" using z looks_try_store [OF reads_is_subscribed] by (blast dest: withinD)
  have "z \<longleftrightarrow> (pid, c) \<in> set (t_subscriptions (tabs (b_db b)))"
    using try_store_ok [OF z] is_subscribed_run by blast
  with rest Cons.IH [of b1] look looks_sel [OF look] show ?case
    by (cases z) (auto simp: returnE_ok intro: looks_trans)
qed

lemma subscriber_iff:
  assumes "integrity t" and "r \<in> set (t_principals t)"
  shows "pr_name r \<in> set (subscriber_names c t) \<longleftrightarrow> (pr_id r, c) \<in> set (t_subscriptions t)"
proof -
  have "distinct (map pr_name (t_principals t))" using assms(1) by (simp add: integrity_def principals_ok_def)
  with assms(2) have "q = r" if "q \<in> set (t_principals t)" "pr_name q = pr_name r" for q
    using that by (metis distinct_map_inj_unique)
  then show ?thesis unfolding set_subscriber_names using assms(2) by (auto simp: image_iff)
qed

lemma intersect_audience_run:
  "intersect_audience ps cs b = (Inr aud, b') \<Longrightarrow> integrity (tabs (b_db b)) \<Longrightarrow> looks b b' \<and>
    aud = filter (\<lambda>q. \<exists>c \<in> set cs. q \<in> set (subscriber_names c (tabs (b_db b)))) ps"
proof (induction ps arbitrary: b aud)
  case Nil
  then show ?case by (simp add: returnE_ok)
next
  case (Cons q ps)
  then obtain pid b1 y b2 rest where pid: "try_store (principal_id q) b = (Inr (Some pid), b1)"
    and y: "subscribed_any pid cs b1 = (Inr y, b2)" and rest: "intersect_audience ps cs b2 = (Inr rest, b')"
    and aud: "aud = (if y then q # rest else rest)"
    by (auto simp: bindE_ok returnE_ok failE_ok split: option.splits)
  have b1: "looks b b1" using pid looks_try_store [OF reads_principal_id] by (blast dest: withinD)
  have b2: "looks b1 b2" using subscribed_any_run [OF y] by blast
  have same: "tabs (b_db b1) = tabs (b_db b)" "tabs (b_db b2) = tabs (b_db b)"
    using looks_sel [OF b1] looks_sel [OF b2] by simp_all
  from try_store_ok [OF pid] principal_id_run obtain r where r: "r \<in> set (t_principals (tabs (b_db b)))" "pr_name r = q" "pr_id r = pid"
    by fastforce
  have "y \<longleftrightarrow> (\<exists>c \<in> set cs. q \<in> set (subscriber_names c (tabs (b_db b))))"
    using subscribed_any_run [OF y] subscriber_iff [OF Cons.prems(2) r(1)] r same by simp
  moreover have "looks b2 b' \<and> rest = filter (\<lambda>q. \<exists>c \<in> set cs. q \<in> set (subscriber_names c (tabs (b_db b)))) ps"
    using Cons.IH [OF rest] Cons.prems(2) same by simp
  ultimately show ?case using aud b1 b2 by (auto intro: looks_trans)
qed

lemma subscribers_run:
  "mapE (\<lambda>c. try_store (subscribers_of c)) cs b = (Inr subs, b') \<Longrightarrow> looks b b' \<and>
    subs = map (\<lambda>c. subscriber_names c (tabs (b_db b))) cs"
proof (induction cs arbitrary: b subs)
  case Nil
  then show ?case by (simp add: returnE_ok)
next
  case (Cons c cs)
  then obtain xs b1 rest where xs: "try_store (subscribers_of c) b = (Inr xs, b1)"
    and rest: "mapE (\<lambda>c. try_store (subscribers_of c)) cs b1 = (Inr rest, b')" and subs: "subs = xs # rest"
    by (auto simp: bindE_ok returnE_ok)
  have look: "looks b b1" using xs looks_try_store [OF reads_lists(5)] by (blast dest: withinD)
  have "xs = subscriber_names c (tabs (b_db b))"
    using try_store_ok [OF xs] by (auto simp: subscribers_of_def dest: query_run)
  with Cons.IH [OF rest] subs look looks_sel [OF look] show ?case by (auto intro: looks_trans)
qed

lemma resolve_audience_run:
  assumes "resolve_audience p cs b = (Inr (found, why), b')" and "integrity (tabs (b_db b))"
  shows "looks b b' \<and> set found = audience_of (tabs (b_db b)) p cs"
proof (cases "sp_channels p \<noteq> [] \<and> sp_principals p \<noteq> []")
  case True
  with assms(1) have "intersect_audience (sp_principals p) cs b = (Inr found, b')"
    by (auto simp: resolve_audience_def bindE_ok returnE_ok)
  from intersect_audience_run [OF this assms(2)] True show ?thesis by (auto simp: audience_of_def)
next
  case False
  with assms(1) subscribers_run show ?thesis
    by (fastforce simp: resolve_audience_def audience_of_def bindE_ok returnE_ok split: if_splits)
qed

lemma normalize_set: "set (normalize_audience author xs) = set xs - {author}"
  by (auto simp: normalize_audience_def)

lemma sorted_distinct_adj: "sorted xs \<Longrightarrow> distinct (remdups_adj xs)"
  by (induction xs rule: remdups_adj.induct) (auto simp: order_le_less dest: order_antisym)

lemma normalize_sorted: "sorted (normalize_audience author xs) \<and> distinct (normalize_audience author xs)"
  by (simp add: normalize_audience_def sorted_filter [where f = id, simplified] sorted_remdups_adj sorted_distinct_adj)

section \<open>A successful send\<close>

lemma looks_known_principals: "within looks (eachE (\<lambda>n. bindE (known_principal n) (\<lambda>_. returnE ())) ps)"
  by (intro looks_rules looks_lookups)

lemma require_principal_run: "require_principal sid d b = (Inr p, b') \<Longrightarrow> b' = b \<and> s_principal (the_session sid b) = Some p"
  by (auto simp: require_principal_def principal_of_def bindE_ok getE_ok returnE_ok fail_def failE_ok split: option.splits)

text \<open>The effects after the message is stored: tasks for the present recipients, watch events.\<close>

definition after_send :: "string \<Rightarrow> string list \<Rightarrow> string list \<Rightarrow> string list \<Rightarrow> envelope \<Rightarrow> broker \<Rightarrow> broker" where
  "after_send author audience held absent env b =
     broadcast (WatchRecord (MessageRec env)) (Some (to_channels (recipients_of env))) (to_channels (recipients_of env) = [])
       (admin_tap author audience env (fold (report_absent (message_id env)) absent (fold (spawn_tracked env) held b)))"

definition send_report :: "envelope \<Rightarrow> string list \<Rightarrow> string list \<Rightarrow> empty_audience option \<Rightarrow> json" where
  "send_report env held absent why = enc_send_result (message_id env) (thread_id env)
     \<lparr>dr_delivered = held, dr_failed = map (\<lambda>r. \<lparr>fd_principal = r, fd_reason = ''disconnected''\<rparr>) absent, dr_empty_audience = why\<rparr>"

lemma commit_send_run:
  assumes "commit_send author p cs found why b = (Inr v, b')"
  obtains contents trunc env b2 where
    "truncate_body (message_size_limit (b_cfg b)) (sp_body p) = (contents, trunc)" and
    "try_store (append_message_with_acks author \<lparr>to_channels = sp_channels p, to_principals = sp_principals p\<rparr> contents trunc
       (sp_thread_id p) cs (filter (\<lambda>r. principal_active r b) (normalize_audience author found))
       (filter (\<lambda>r. \<not> principal_active r b) (normalize_audience author found))) b = (Inr env, b2)" and
    "b' = after_send author (normalize_audience author found) (filter (\<lambda>r. principal_active r b) (normalize_audience author found))
       (filter (\<lambda>r. \<not> principal_active r b) (normalize_audience author found)) env b2" and
    "v = send_report env (filter (\<lambda>r. principal_active r b) (normalize_audience author found))
       (filter (\<lambda>r. \<not> principal_active r b) (normalize_audience author found)) (if normalize_audience author found = [] then why else None)"
proof -
  obtain contents trunc where tr: "truncate_body (message_size_limit (b_cfg b)) (sp_body p) = (contents, trunc)" by fastforce
  from assms tr that [OF tr] show thesis
    by (auto simp: commit_send_def Let_def bindE_ok getE_ok modifyE_ok returnE_ok after_send_def send_report_def)
qed

lemma send_message_run:
  assumes "send_message sid p b = (Inr v, b')" and int: "integrity (tabs (b_db b))"
  obtains author chs found why b1 where
    "s_principal (the_session sid b) = Some author" and
    "list_all2 (\<lambda>nm ch. ch \<in> set (t_channels (tabs (b_db b))) \<and> ch_name ch = nm \<and> ch_archived ch = 0) (sp_channels p) chs" and
    "set found = audience_of (tabs (b_db b)) p (map ch_id chs)" and "looks b b1" and
    "commit_send author p (map ch_id chs) found why b1 = (Inr v, b')"
proof -
  from assms(1) obtain author where author: "s_principal (the_session sid b) = Some author"
    and some: "sp_channels p \<noteq> [] \<or> sp_principals p \<noteq> []"
    by (auto simp: send_message_def bindE_ok failE_ok split: if_splits dest!: require_principal_run)
  then have require: "require_principal sid ''register before sending'' b = (Inr author, b)"
    by (simp add: require_principal_def principal_of_def bindE_def getE_def returnE_def)
  from assms(1) some obtain chs b3 u b4 w b5 found why b1
    where chs: "mapE live_channel (sp_channels p) b = (Inr chs, b3)"
      and ps: "eachE (\<lambda>n. bindE (known_principal n) (\<lambda>_. returnE ())) (sp_principals p) b3 = (Inr u, b4)"
      and th: "check_thread (sp_thread_id p) b4 = (Inr w, b5)"
      and aud: "resolve_audience p (map ch_id chs) b5 = (Inr (found, why), b1)"
      and rest: "commit_send author p (map ch_id chs) found why b1 = (Inr v, b')"
    unfolding send_message_def bindE_simps(1) [of "require_principal sid ''register before sending''", OF require]
    by (auto simp: bindE_ok split: if_splits)
  have b3: "looks b b3" using live_channels_run [OF chs] by simp
  have b4: "looks b3 b4" using looks_known_principals ps by (blast dest: withinD)
  have b5: "looks b4 b5" using looks_lookups(5) th by (blast dest: withinD)
  have to5: "looks b b5" using b3 b4 b5 by (blast intro: looks_trans)
  then have int5: "tabs (b_db b5) = tabs (b_db b)" using looks_sel by blast
  from resolve_audience_run [OF aud] int int5 have b1: "looks b5 b1" and
    found: "set found = audience_of (tabs (b_db b)) p (map ch_id chs)" by simp_all
  have to1: "looks b b1" using to5 b1 by (rule looks_trans)
  show thesis by (rule that [OF author _ found to1 rest]) (use live_channels_run [OF chs] in simp)
qed

section \<open>What the effects after the send leave\<close>

lemma broadcast_sel [simp]: "b_db (broadcast ev scope is_dm b) = b_db b" "b_tasks (broadcast ev scope is_dm b) = b_tasks b"
  by (simp_all add: broadcast_def)

lemma report_absent_sel: "tabs (b_db (report_absent rid r b)) = tabs (b_db b)" "b_tasks (report_absent rid r b) = b_tasks b"
proof -
  obtain q b1 where q: "store (envelope_of rid) b = (q, b1)" by fastforce
  then have "looks b b1" using looks_store [OF reads_envelope_of] by (blast dest: withinD)
  from looks_sel [OF this] q show "tabs (b_db (report_absent rid r b)) = tabs (b_db b)" "b_tasks (report_absent rid r b) = b_tasks b"
    by (simp_all add: report_absent_def broadcast_ack_def Let_def)
qed

lemma fold_report_absent: "tabs (b_db (fold (report_absent rid) rs b)) = tabs (b_db b) \<and> b_tasks (fold (report_absent rid) rs b) = b_tasks b"
  by (induction rs arbitrary: b) (simp_all add: report_absent_sel)

lemma fold_spawn: "b_db (fold (\<lambda>r. spawn_deliver r env tracked) rs b) = b_db b \<and>
    b_tasks (fold (\<lambda>r. spawn_deliver r env tracked) rs b) = b_tasks b @ map (\<lambda>r. SpawnDeliver r env tracked) rs"
  by (induction rs arbitrary: b) (simp_all add: spawn_deliver_def)

lemma after_send_sel:
  "tabs (b_db (after_send author audience held absent env b)) = tabs (b_db b)"
  "set (b_tasks (after_send author audience held absent env b)) \<supseteq> (\<lambda>r. SpawnDeliver r env True) ` set held \<union> set (b_tasks b)"
  using fold_spawn [of env True held b] fold_report_absent [of "message_id env" absent]
    fold_spawn [of env False "tap_principals author audience (fold (report_absent (message_id env)) absent (fold (\<lambda>r. spawn_deliver r env True) held b))"]
  by (auto simp: after_send_def admin_tap_def spawn_tracked_def [abs_def])

lemma ack_of_member:
  assumes "integrity t" and "a \<in> set (t_acks t)"
  shows "ack_of t (a_record_id a) (a_recipient a) = Some a"
proof -
  have keys: "distinct (map ack_key (t_acks t))" using assms(1) by (simp add: integrity_def acks_ok_def)
  show ?thesis unfolding ack_of_def ack_key_def [symmetric]
    using assms(2) by (rule find_unique) (auto intro: distinct_map_inj_unique [OF keys _ assms(2)])
qed

lemma append_message_acks:
  assumes run: "append_message_with_acks author rcpts contents trunc thread chs held absent c = (Inr env, c')" and int: "integrity (tabs c)"
  shows "integrity (tabs c') \<and> holds_message (tabs c') env \<and>
    (\<forall>r \<in> set held. map_option ack_view (ack_of (tabs c') (sint (message_id env)) r) = Some (Held, None)) \<and>
    (\<forall>r \<in> set absent. map_option ack_view (ack_of (tabs c') (sint (message_id env)) r) = Some (Failed, Some ''disconnected''))"
proof -
  let ?op = "AppendMessage author rcpts contents trunc thread chs held absent" and ?i = "seq_records (tabs c) + 1"
  have "run_op ?op c = (Inr (), c')" using run by (simp add: ignore_result_def bindE_def returnE_def)
  then have int': "integrity (tabs c')" using store_int.inv_step [OF int step_op] by blast
  note eff = append_message_run [OF run integrity_fresh [OF int]]
  then have seq: "seq_records (tabs c') = ?i" and acks: "t_acks (tabs c') = t_acks (tabs c) @
      map (held_row ?i (clock c)) held @ map (absent_row ?i (clock c)) absent" by (simp_all add: add_message_def Let_def)
  have room: "0 \<le> ?i" "?i \<le> max_rowid" using int int' seq by (simp_all add: integrity_def log_ok_def)
  then have id: "sint (message_id env) = ?i" using eff sint_rowid [OF room] by simp
  have "ack_of (tabs c') ?i r = Some (held_row ?i (clock c) r)" if "r \<in> set held" for r
    using ack_of_member [OF int', of "held_row ?i (clock c) r"] that acks by (simp add: held_row_def)
  moreover have "ack_of (tabs c') ?i r = Some (absent_row ?i (clock c) r)" if "r \<in> set absent" for r
    using ack_of_member [OF int', of "absent_row ?i (clock c) r"] that acks by (simp add: absent_row_def)
  moreover have "holds_message (tabs c') env" using holds_message_append [OF int run] room by simp
  ultimately show ?thesis using int' id by (simp add: held_row_def absent_row_def ack_view_def parse_ack_state_def)
qed

end
