(* ===== verification/Broker_Demo.thy ===== *)
theory Broker_Demo
  imports Sending
begin

text \<open>
  A small concrete run of the broker, on which its properties are exercised: a session for
  \<open>@a\<close> and one for the administrator \<open>@m\<close>, both registered, and a channel with \<open>@a\<close> in it.
\<close>

definition demo_config :: broker_config where
  "demo_config = \<lparr>listens = [], db_path = None, message_size_limit = 9, grace_window = 1, version = ''1'', auth_token = None,
     codex_token_file = None, max_out_queue = 9, admin_token = Some ''s''\<rparr>"

definition demo_start :: broker where
  "demo_start = new_broker demo_config \<lparr>tabs = new_tables, faults = [], clock = 1000\<rparr> 0"

text \<open>A request arriving on an open session, already parsed.\<close>

definition say :: "u64 \<Rightarrow> string \<Rightarrow> json \<Rightarrow> broker \<Rightarrow> broker" where
  "say sid m params b = (if sid \<in> fst ` set (b_sessions b)
     then connection_round (\<lambda>_. Some (to_line (Request (mk_request 1 m params)))) sid (Line ''x'') b else b)"

lemma say_reachable: "broker_reachable b \<Longrightarrow> broker_reachable (say sid m params b)"
  unfolding say_def by (auto intro: reach_step receives)

lemma attach_reachable: "broker_reachable b \<Longrightarrow> broker_reachable (snd (attach b))"
  by (erule reach_step) (rule connects)

definition demo_hello :: json where
  "demo_hello = enc_hello_params \<lparr>hp_client_info = \<lparr>ci_harness = None, ci_version = ''1'', ci_pid = 7, ci_cwd = ''c''\<rparr>, hp_auth_token = None\<rparr>"

definition demo_register :: "string \<Rightarrow> json" where
  "demo_register nm = enc_register_params \<lparr>rp_name = nm, rp_codex = None, rp_admin_token = Some ''s''\<rparr>"

definition demo_connected :: broker where
  "demo_connected = snd (attach (snd (attach demo_start)))"

definition demo_broker :: broker where
  "demo_broker = say 2 ''admin/register'' (demo_register ''@m'') (say 2 ''session/hello'' demo_hello
     (say 1 ''principal/register'' (demo_register ''@a'') (say 1 ''session/hello'' demo_hello demo_connected)))"

lemma demo_broker_reachable: "broker_reachable demo_broker"
proof -
  have "store_reachable \<lparr>tabs = new_tables, faults = [], clock = 1000\<rparr>"
    by (rule reach_init) (simp add: store_init_def)
  then have "broker_reachable demo_start" unfolding demo_start_def by (intro reach_init) (auto simp: broker_init_def)
  then show ?thesis unfolding demo_broker_def demo_connected_def by (intro say_reachable attach_reachable)
qed

lemma demo_sessions: "map (\<lambda>p. (fst p, s_principal (snd p), s_admin (snd p))) (b_sessions demo_broker) =
    [(2, Some ''@m'', True), (1, Some ''@a'', False)]"
  by code_simp

definition demo_send :: send_params where
  "demo_send = \<lparr>sp_channels = [], sp_principals = [''@m''], sp_body = ''hi'', sp_thread_id = None\<rparr>"

end
