(* ===== verification/Broker_Properties.thy ===== *)
theory Broker_Properties
  imports Broker_Demo
begin

text \<open>
  What the broker promises its clients: over every reachable state, or for every run of a
  handler.
\<close>

section \<open>Sessions\<close>

lemma session_in_idents: "(i, s) \<in> set (b_sessions b) \<Longrightarrow> (i, ident s) \<in> set (idents b)"
  by (force simp: idents_def)



text \<open>C24. A slow reader cannot exhaust the broker's memory: in every reachable state the queue of
  every session holds at most the configured number of messages, and its counter is right.\<close>

theorem queues_bounded:
  assumes "broker_reachable b" and "(i, s) \<in> set (b_sessions b)"
  shows "length (s_out s) \<le> max_out_queue (b_cfg b) \<and> s_queued s = length (s_out s)"
  using broker_safe.reachable_inv [OF assms(1)] assms(2) unfolding broker_good_def queues_ok_def queue_ok_def by fastforce

theorem queues_bounded_witness:
  "\<exists>s. (2, s) \<in> set (b_sessions demo_broker) \<and> length (s_out s) \<le> max_out_queue (b_cfg demo_broker)"
proof -
  have "(2, Some ''@m'', True) \<in> set (map (\<lambda>p. (fst p, s_principal (snd p), s_admin (snd p))) (b_sessions demo_broker))"
    unfolding demo_sessions by simp
  then obtain s where s: "(2, s) \<in> set (b_sessions demo_broker)" by auto
  from queues_bounded [OF demo_broker_reachable s] s show ?thesis by blast
qed

text \<open>Whatever clients send and however storage, tasks and timeouts interleave, the broker's
  database keeps its integrity and the manager's policy.\<close>

theorem broker_database_sound:
  assumes "broker_reachable b"
  shows "integrity (tabs (b_db b)) \<and> (policy_of (tabs (b_db b)) p ch = Some mode \<longrightarrow>
    ((p, ch) \<in> set (t_subscriptions (tabs (b_db b))) \<longleftrightarrow> mode = Forced))"
  using broker_safe.reachable_inv [OF assms] by (cases mode) (auto dest!: broker_good_store simp: store_good_def policy_inv_def)

theorem broker_database_sound_witness: "integrity (tabs (b_db demo_broker))"
  using broker_database_sound [OF demo_broker_reachable] by blast

section \<open>Sending\<close>



section \<open>Who may do what\<close>

definition admin_methods :: "methods list" where
  "admin_methods = [ADMIN_SUBSCRIBE, ADMIN_UNSUBSCRIBE, CHANNEL_RENAME, CHANNEL_ARCHIVE, CHANNEL_UNARCHIVE, CHANNEL_DELETE,
     CHANNEL_DELETE_CONFIRM, MESSAGE_STATUS, DAEMON_STATUS, DAEMON_SHUTDOWN]"

definition refuses :: "'a handler \<Rightarrow> broker \<Rightarrow> bool" where
  "refuses m b \<longleftrightarrow> (\<exists>e. m b = (Inl e, b))"

lemma refuses_bind: "refuses m b \<Longrightarrow> refuses (bindE m f) b"
  by (auto simp: refuses_def)

lemma refuses_parse: "(\<And>x. refuses (f x) b) \<Longrightarrow> refuses (bindE (parse d params) f) b"
  by (cases "d params") (auto simp: refuses_def parse_def failE_def)

lemma require_admin_refuses: "\<not> s_admin (the_session sid b) \<Longrightarrow> refuses (require_admin sid) b"
  by (simp add: refuses_def require_admin_def bindE_def getE_def fail_def failE_def)

lemma admin_handlers_refuse:
  assumes "\<not> s_admin (the_session sid b)"
  shows "refuses (admin_subscription_rpc sid p1 sub) b" "refuses (rename sid p2) b" "refuses (archive sid ch arch) b"
    "refuses (delete_request sid ch) b" "refuses (delete_confirm sid p3) b" "refuses (message_status sid mid) b"
    "refuses (daemon_status sid) b" "refuses (daemon_shutdown sid) b"
  unfolding admin_subscription_rpc_def rename_def archive_def delete_request_def delete_confirm_def message_status_def
    daemon_status_def daemon_shutdown_def
  by (intro refuses_bind require_admin_refuses [OF assms])+

text \<open>C8. An administrative verb on a session without admin rights is refused and changes nothing
  at all: no table, no session, no task, no token.\<close>

theorem admin_verbs_refused:
  assumes "\<not> s_admin (the_session sid b)" and "m \<in> set admin_methods"
  shows "\<exists>e. dispatch sid (method_name m) params b = (Inl e, b)"
proof -
  have "refuses (dispatch_method sid (method_name m) params) b"
    using assms(2) admin_handlers_refuse [OF assms(1)]
    by (auto simp: admin_methods_def dispatch_method_def intro!: refuses_parse)
  then show ?thesis
    by (auto simp: refuses_def dispatch_def bindE_def getE_def fail_def failE_def)
qed

theorem admin_verbs_refused_witness: "\<exists>e. dispatch 1 (method_name DAEMON_SHUTDOWN) JNull demo_broker = (Inl e, demo_broker)"
proof -
  have "\<not> s_admin (the_session 1 demo_broker)" by code_simp
  from admin_verbs_refused [OF this, of DAEMON_SHUTDOWN] show ?thesis by (simp add: admin_methods_def)
qed

text \<open>C9. Nothing but a greeting is served before the greeting, and nothing at all once the broker
  shuts down; where an auth token is configured, a greeting without it is refused. A
  refused call changes nothing.\<close>

theorem dispatch_gates:
  assumes "b_shutdown b \<or> (m \<noteq> SESSION_HELLO \<and> s_client_info (the_session sid b) = None) \<or>
    (m = SESSION_HELLO \<and> auth_token (b_cfg b) \<noteq> None \<and>
      (\<forall>p. dec_hello_params params = Some p \<longrightarrow> hp_auth_token p \<noteq> auth_token (b_cfg b)))"
  shows "\<exists>e. dispatch sid (method_name m) params b = (Inl e, b)"
proof (cases "b_shutdown b \<or> (m \<noteq> SESSION_HELLO \<and> s_client_info (the_session sid b) = None)")
  case True
  moreover have "method_name m = method_name SESSION_HELLO \<longleftrightarrow> m = SESSION_HELLO" by (cases m) simp_all
  ultimately show ?thesis by (auto simp: dispatch_def bindE_def getE_def fail_def failE_def simp del: method_name.simps)
next
  case False
  with assms have hello: "m = SESSION_HELLO" "auth_token (b_cfg b) \<noteq> None"
    "\<And>p. dec_hello_params params = Some p \<Longrightarrow> hp_auth_token p \<noteq> auth_token (b_cfg b)" by auto
  have "refuses (hello sid p) b" if "hp_auth_token p \<noteq> auth_token (b_cfg b)" for p
    using that hello(2) by (simp add: refuses_def hello_def bindE_def getE_def fail_def failE_def)
  with hello(3) have "refuses (dispatch_method sid (method_name m) params) b"
    by (cases "dec_hello_params params") (auto simp: hello(1) dispatch_method_def parse_def refuses_def bindE_def failE_def returnE_def)
  with False show ?thesis by (auto simp: hello(1) refuses_def dispatch_def bindE_def getE_def)
qed

theorem dispatch_gates_witness: "\<exists>e. dispatch 1 (method_name MESSAGE_SEND) JNull demo_connected = (Inl e, demo_connected)"
proof -
  have "s_client_info (the_session 1 demo_connected) = None" by code_simp
  then show ?thesis using dispatch_gates [of demo_connected MESSAGE_SEND 1 JNull] by simp
qed

end
