(* ===== verification/Broker_Findings.thy ===== *)
theory Broker_Findings
  imports Broker_Demo
begin

text \<open>
  Concrete runs of the broker that do not do what the code means to do.
\<close>

text \<open>The demo run with a channel \<open>#c\<close> in it, created by \<open>@a\<close>.\<close>

definition demo_channel :: broker where
  "demo_channel = say 1 ''channel/create'' (JObj [(''name'', JStr ''#c'')]) demo_broker"

text \<open>A message addressed to the same channel twice is refused with an internal error, after its
  audience was resolved: the join table's primary key does not admit the second row.\<close>

lemma duplicate_channel_internal_error:
  "map_sum err_code (\<lambda>_. ()) (fst (send_message 1 \<lparr>sp_channels = [''#c'', ''#c''], sp_principals = [], sp_body = ''hi'', sp_thread_id = None\<rparr> demo_channel)) = Inl (-32603)"
  by code_simp

text \<open>Addressed once it is accepted.\<close>

lemma single_channel_accepted:
  "\<not> isl (fst (send_message 1 \<lparr>sp_channels = [''#c''], sp_principals = [], sp_body = ''hi'', sp_thread_id = None\<rparr> demo_channel))"
  by code_simp

text \<open>A session that has greeted but registered no principal reads a channel's history.\<close>

definition demo_observer :: broker where
  "demo_observer = say 3 ''session/hello'' demo_hello (snd (attach demo_channel))"

lemma observer_reads_history:
  "s_principal (the_session 3 demo_observer) = None \<and>
    \<not> isl (fst (dispatch 3 ''history/get'' (JObj [(''scope'', JObj [(''channel'', JStr ''#c'')]), (''limit'', JNum 5)]) demo_observer))"
  by code_simp

text \<open>The request leaves no record in the log.\<close>

lemma history_request_unlogged:
  "t_records (tabs (b_db (snd (dispatch 1 ''history/get'' (JObj [(''scope'', JObj [(''channel'', JStr ''#c'')]), (''limit'', JNum 5)]) demo_channel)))) =
    t_records (tabs (b_db demo_channel))"
  by code_simp

text \<open>A line that is not UTF-8 is not answered: it is read as an empty line, and those are skipped.\<close>

lemma invalid_utf8_ignored:
  assumes "\<not> valid_utf8 bytes"
  shows "line_of bytes = Line [] \<and> handle_line parse_json sid [] b = b"
  using assms by (simp add: line_of_def handle_line_def blank_def trim_def)

text \<open>The administrator's session deregisters and registers again while a delivery to it waits for its
  answer. The record is still held, so the registration delivers it a second time, and both
  deliveries reach the session.\<close>

definition run_first :: "broker \<Rightarrow> broker" where
  "run_first b = (case b_tasks b of [] \<Rightarrow> b
     | t # ts \<Rightarrow> if task_due (b_now b) t
         then run_task None None \<lparr>w_now = 0, w_answers = [], w_trace = []\<rparr> t (b\<lparr>b_tasks := ts\<rparr>) else b)"

lemma run_first_reachable: "broker_reachable b \<Longrightarrow> broker_reachable (run_first b)"
proof (cases "b_tasks b")
  case (Cons t ts)
  assume b: "broker_reachable b"
  show ?thesis
  proof (cases "task_due (b_now b) t")
    case True
    from reach_step [OF b task_runs [of b "[]" t ts None None "\<lparr>w_now = 0, w_answers = [], w_trace = []\<rparr>"]] Cons True
    show ?thesis by (simp add: run_first_def)
  qed (use b Cons in \<open>simp add: run_first_def\<close>)
qed (simp add: run_first_def)

definition demo_rebound :: broker where
  "demo_rebound = run_first (say 2 ''admin/register'' (demo_register ''@m'') (say 2 ''principal/deregister'' (JObj [])
     (run_first (say 1 ''message/send'' (enc_send_params demo_send) demo_broker))))"

definition deliveries_to :: "u64 \<Rightarrow> broker \<Rightarrow> json list" where
  "deliveries_to sid b = concat (map (\<lambda>m. case m of Request r \<Rightarrow>
     if rq_method r = ''message/deliver'' then (case rq_params r of Some j \<Rightarrow> [j] | None \<Rightarrow> []) else [] | _ \<Rightarrow> []) (s_out (the_session sid b)))"

lemma rebinding_delivers_twice:
  "broker_reachable demo_rebound \<and> deliveries_to 2 demo_rebound = (let j = hd (deliveries_to 2 demo_rebound) in [j, j]) \<and>
   map_option (body \<circ> dp_envelope) (dec_deliver_params (hd (deliveries_to 2 demo_rebound))) = Some ''hi''"
proof (intro conjI)
  show "broker_reachable demo_rebound"
    unfolding demo_rebound_def by (intro run_first_reachable say_reachable demo_broker_reachable)
qed code_simp+

end
