(* ===== verification/Codex_Delivery.thy ===== *)
theory Codex_Delivery
  imports Broker_Demo Attach_Safety
begin

text \<open>
  A delivery to a Codex recipient from its start to its end, across the broker and the attach
  client: the rounds of \<open>deliver_via_codex\<close>, each with a connection of its own, while
  anything happens to the broker between two parts of a round. What the rounds send to the
  app-server is collected in one trace.
\<close>

section \<open>A delivery's life\<close>

definition move_trace :: "world \<Rightarrow> task \<Rightarrow> trace_entry list" where
  "move_trace w t = (case t of
      CodexInject ct \<Rightarrow> drop (length (w_trace w)) (w_trace (snd (codex_inject ct w))) | _ \<Rightarrow> [])"

text \<open>The state of the broker, the token file, the dial and the app-server are arbitrary at every
  move; \<open>deliver_task\<close> starts a delivery with a retry pause of one second.\<close>

inductive codex_life :: "codex_task \<Rightarrow> trace_entry list \<Rightarrow> task option \<Rightarrow> bool" for ct where
  starts: "ct_retry ct = 1000 \<Longrightarrow> codex_life ct [] (Some (CodexTask ct))"
| moves: "\<lbrakk>codex_life ct tr (Some t); codex_move te de w t b = (t', b')\<rbrakk>
    \<Longrightarrow> codex_life ct (tr @ move_trace w t) t'"

definition same_delivery :: "codex_task \<Rightarrow> codex_task \<Rightarrow> bool" where
  "same_delivery ct ct' \<longleftrightarrow> (\<exists>r wake. ct' = ct\<lparr>ct_retry := r, ct_wake := wake\<rparr> \<and> 1000 \<le> r \<and> r \<le> CODEX_RETRY_MAX)"

lemma same_delivery_sel:
  assumes "same_delivery ct ct'"
  shows "ct_recipient ct' = ct_recipient ct" "ct_envelope ct' = ct_envelope ct" "ct_coords ct' = ct_coords ct"
    "ct_tracked ct' = ct_tracked ct" "ct_session_id ct' = ct_session_id ct" "codex_text ct' = codex_text ct"
  using assms by (auto simp: same_delivery_def codex_text_def)

lemma same_delivery_bounds: "same_delivery ct ct' \<Longrightarrow> 1000 \<le> ct_retry ct' \<and> ct_retry ct' \<le> CODEX_RETRY_MAX"
  by (auto simp: same_delivery_def)

lemma same_delivery_retry: "\<lbrakk>same_delivery ct ct'; 1000 \<le> r; r \<le> CODEX_RETRY_MAX\<rbrakk>
    \<Longrightarrow> same_delivery ct (ct'\<lparr>ct_wake := wake, ct_retry := r\<rparr>)"
  unfolding same_delivery_def by (elim exE conjE) (intro exI [of _ r] exI [of _ wake], simp)

definition task_of :: "task \<Rightarrow> codex_task option" where
  "task_of t = (case t of CodexTask ct \<Rightarrow> Some ct | CodexDial ct \<Rightarrow> Some ct | CodexInject ct \<Rightarrow> Some ct | _ \<Rightarrow> None)"

section \<open>One move\<close>

text \<open>The ways a delivery ends, by what it leaves in the broker.\<close>

definition codex_ends :: "codex_task \<Rightarrow> nat \<Rightarrow> broker \<Rightarrow> broker \<Rightarrow> bool" where
  "codex_ends ct n b b' \<longleftrightarrow> (let rid = message_id (ct_envelope ct); p = ct_recipient ct in
     (session_of p b = None \<and> b' = fail_disconnected p rid b) \<or>
     (\<exists>sid s. session_of p b = Some (sid, s) \<and> sid \<noteq> ct_session_id ct \<and> b' = b) \<or>
     (\<exists>e. b' = ack_update rid p Failed (Some e) b) \<or>
     (n = 1 \<and> b' = ack_update rid p Processed None (ack_update rid p Relayed None b)))"

text \<open>The next state of a delivery that goes on: a new round sleeps at least a second and at most
  the cap of the back-off.\<close>

definition codex_goes_on :: "codex_task \<Rightarrow> nat \<Rightarrow> task \<Rightarrow> task \<Rightarrow> bool" where
  "codex_goes_on ct now t t' \<longleftrightarrow> (case t' of
      SpawnDeliver _ _ _ \<Rightarrow> False
    | CodexTask ct' \<Rightarrow> same_delivery ct ct' \<and> now + 1000 \<le> ct_wake ct' \<and> ct_wake ct' \<le> now + CODEX_RETRY_MAX
    | CodexDial ct' \<Rightarrow> t = CodexTask ct' \<and> same_delivery ct ct'
    | CodexInject ct' \<Rightarrow> t = CodexDial ct' \<and> same_delivery ct ct')"

lemma inject_trace:
  assumes "same_delivery ct ct'" and "codex_inject ct' w = (d, w')"
  shows "list_all (carries (cx_thread_id (ct_coords ct)) (codex_text ct)) (move_trace w (CodexInject ct')) \<and>
    commits (move_trace w (CodexInject ct')) \<le> 1 \<and>
    (\<forall>e. d = Unreachable e \<longrightarrow> commits (move_trace w (CodexInject ct')) = 0) \<and>
    (d = Delivered \<longrightarrow> commits (move_trace w (CodexInject ct')) = 1)"
  using deliver_spec [OF assms(2) [unfolded codex_inject_def]] assms
  by (auto simp: move_trace_def same_delivery_sel)

lemma outcome_ends:
  assumes "codex_outcome d ct b = (None, b')" "ct_tracked ct" "d = Delivered \<longrightarrow> n = 1"
  shows "codex_ends ct n b b'"
  using assms by (auto simp: codex_outcome_def codex_ends_def Let_def split: delivered.splits if_splits)

lemma outcome_goes_on:
  assumes "codex_outcome d ct' b = (Some t', b')" "same_delivery ct ct'"
  shows "codex_goes_on ct (b_now b) t t' \<and> (\<exists>e. d = Unreachable e)"
  using assms same_delivery_bounds [OF assms(2)]
  by (auto simp: codex_outcome_def codex_goes_on_def Let_def CODEX_RETRY_MAX_def intro!: same_delivery_retry
      split: delivered.splits if_splits)

text \<open>A move of a delivery that has injected nothing so far.\<close>

definition on_way :: "codex_task \<Rightarrow> task \<Rightarrow> bool" where
  "on_way ct t \<longleftrightarrow> (\<exists>ct'. task_of t = Some ct' \<and> same_delivery ct ct')"

lemma goes_on_way: "codex_goes_on ct now t t' \<Longrightarrow> on_way ct t'"
  by (auto simp: codex_goes_on_def on_way_def task_of_def split: task.splits)

definition move_ok :: "codex_task \<Rightarrow> world \<Rightarrow> task \<Rightarrow> broker \<Rightarrow> task option \<times> broker \<Rightarrow> bool" where
  "move_ok ct w t b out \<longleftrightarrow>
     list_all (carries (cx_thread_id (ct_coords ct)) (codex_text ct)) (move_trace w t) \<and>
     commits (move_trace w t) \<le> 1 \<and>
     (case fst out of
        Some t' \<Rightarrow> commits (move_trace w t) = 0 \<and> codex_goes_on ct (b_now b) t t'
      | None \<Rightarrow> ct_tracked ct \<longrightarrow> codex_ends ct (commits (move_trace w t)) b (snd out))"

lemma codex_move_ok:
  assumes "on_way ct t" and "codex_move te de w t b = out"
  shows "move_ok ct w t b out"
proof -
  obtain ct' where t: "task_of t = Some ct'" and same: "same_delivery ct ct'"
    using assms(1) by (auto simp: on_way_def)
  note sel = same_delivery_sel [OF same]
  obtain t' b' where out: "out = (t', b')" by (cases out)
  consider "t = CodexTask ct'" | "t = CodexDial ct'" | "t = CodexInject ct'"
    using t by (auto simp: task_of_def split: task.splits)
  then show ?thesis
  proof cases
    case 1
    with assms(2) same sel show ?thesis
      by (auto simp: move_ok_def move_trace_def codex_move_def codex_check_def codex_goes_on_def codex_ends_def
          split: option.splits if_splits)
  next
    case 2
    obtain client ac where cl: "codex_attach_client (cx_app_server (ct_coords ct'))
        (if codex_token_file (b_cfg b) = None then None else te) de (b_now b) (b_attach b) = (client, ac)" by fastforce
    show ?thesis
    proof (cases client)
      case (Inl e)
      let ?d = "Unreachable (''app-server unreachable: '' @ e)"
      have run: "codex_outcome ?d ct' (b\<lparr>b_attach := ac\<rparr>) = (t', b')"
        using assms(2) by (simp add: 2 codex_move_def codex_dial_def cl Inl out)
      have "t' \<noteq> None" if "ct_tracked ct" using run that sel by (auto simp: codex_outcome_def Let_def)
      moreover have "codex_goes_on ct (b_now b) t u" if "t' = Some u" for u
        using outcome_goes_on [OF run [unfolded that] same, of t] by simp
      ultimately show ?thesis by (auto simp: move_ok_def move_trace_def 2 out split: option.split)
    next
      case (Inr x)
      then have "t' = Some (CodexInject ct')"
        using assms(2) by (simp add: 2 codex_move_def codex_dial_def cl out)
      with same show ?thesis by (simp add: move_ok_def move_trace_def 2 out codex_goes_on_def)
    qed
  next
    case 3
    obtain d w' where i: "codex_inject ct' w = (d, w')" by fastforce
    note tr = inject_trace [OF same i, folded 3]
    have run: "codex_outcome d ct' b = (t', b')" using assms(2) by (simp add: 3 codex_move_def i out)
    show ?thesis
    proof (cases t')
      case None
      have "codex_ends ct (commits (move_trace w t)) b b'" if "ct_tracked ct"
        using outcome_ends [OF run [unfolded None], of "commits (move_trace w t)"] tr that sel
        by (simp add: codex_ends_def)
      with tr show ?thesis by (simp add: move_ok_def out None)
    next
      case (Some u)
      from outcome_goes_on [OF run [unfolded Some] same, of t] tr show ?thesis
        by (auto simp: move_ok_def out Some)
    qed
  qed
qed

section \<open>The whole delivery\<close>

lemma codex_life_on_way:
  "codex_life ct tr t \<Longrightarrow> list_all (carries (cx_thread_id (ct_coords ct)) (codex_text ct)) tr \<and> commits tr \<le> 1 \<and>
     (\<forall>u. t = Some u \<longrightarrow> commits tr = 0 \<and> on_way ct u)"
proof (induction rule: codex_life.induct)
  case starts
  then have "same_delivery ct ct" unfolding same_delivery_def
    by (intro exI [of _ "ct_retry ct"] exI [of _ "ct_wake ct"]) (simp add: CODEX_RETRY_MAX_def)
  then show ?case by (simp add: on_way_def task_of_def)
next
  case (moves tr t te de w b t' b')
  then have "move_ok ct w t b (t', b')" by (intro codex_move_ok) auto
  with moves.IH show ?case by (auto simp: move_ok_def dest: goes_on_way)
qed


text \<open>A delivery to \<open>@a\<close> of the demo broker, whose app-server unloads the thread first, then takes
  the message and completes its turn.\<close>

definition demo_codex :: codex_task where
  "demo_codex = \<lparr>ct_recipient = ''@a'',
     ct_envelope = \<lparr>message_id = 5, thread_id = 5, timestamp = 0, sender = ''@m'',
       recipients_of = \<lparr>to_channels = [], to_principals = [''@a'']\<rparr>, body = ''hi'', truncated = False\<rparr>,
     ct_coords = \<lparr>cx_app_server = ''ws://127.0.0.1:1'', cx_thread_id = ''th''\<rparr>, ct_tracked = True,
     ct_session_id = 1, ct_retry = 1000, ct_wake = 0\<rparr>"

lemma demo_inject: "fst (codex_inject demo_codex demo_world) = Delivered"
  by (simp add: codex_inject_def demo_codex_def deliver_def commit_loop.simps poll_loop.simps demo_world_def thread_state_def
      turn_status_def resume_thread_def call_def classify_read_def classify_poll_def CALL_TIMEOUT_def POLL_INTERVAL_def sleep_def
      thread_gone_def unload_hint_def ascii_lower_def less_eq_char_def turn_id_of_def turn_status_of_def jget_def as_str_def
      as_arr_def)

lemma demo_session: "map_option fst (session_of ''@a'' demo_broker) = Some 1"
  by code_simp

lemma demo_endpoints: "codex_token_file (b_cfg demo_broker) = None" "ac_clients (b_attach demo_broker) = []"
  "ac_dial_backoff (b_attach demo_broker) = []"
  by code_simp+

lemma demo_life: "codex_life demo_codex [] (Some (CodexInject demo_codex))"
proof -
  have "codex_life demo_codex [] (Some (CodexTask demo_codex))" by (rule starts) (simp add: demo_codex_def)
  moreover have "codex_move None None demo_world (CodexTask demo_codex) demo_broker = (Some (CodexDial demo_codex), demo_broker)"
    using demo_session by (auto simp: codex_move_def codex_check_def demo_codex_def)
  ultimately have "codex_life demo_codex [] (Some (CodexDial demo_codex))"
    by (auto dest: moves simp: move_trace_def)
  moreover have "fst (codex_move None None demo_world (CodexDial demo_codex) demo_broker) = Some (CodexInject demo_codex)"
    by (simp add: codex_move_def codex_dial_def codex_attach_client_def backoff_of_def demo_endpoints)
  ultimately show ?thesis
    using moves [of demo_codex "[]" "CodexDial demo_codex" None None demo_world demo_broker "Some (CodexInject demo_codex)"]
    by (cases "codex_move None None demo_world (CodexDial demo_codex) demo_broker") (auto simp: move_trace_def)
qed


end
