(* ===== verification/Lifetime.thy ===== *)
theory Lifetime
  imports Broker_Demo
begin

text \<open>
  A daemon's life over restarts: a database file is opened by one broker after another, each
  of which may be killed at any moment, also in the middle of a handler, that is with any
  part of its storage operations done. Whatever holds of every reachable broker holds of
  all of them.
\<close>

section \<open>Opening a database\<close>

text \<open>The version is written as \<open>to_string\<close> prints it.\<close>

lemma current_version_shown: "current_version = show_nat (nat schema_version)"
  by code_simp

text \<open>Opening either fails or leaves the tables as they were, marked with the current version;
  a database of a newer version is refused.\<close>

lemma migrate_run: "migrate c = (Inr (), c') \<Longrightarrow> tabs c' = versioned (tabs c)"
  by (auto simp: migrate_def bindE_def returnE_def failE_def ensure_schema_def query_def stmt_def Let_def
      split: list.splits option.splits if_splits)

lemma migrate_refuses:
  assumes "t_schema_version (tabs c) = Some v" "parse_i64 v = Some n" "n > schema_version" "faults c = []"
  shows "fst (migrate c) = Inl (NewerSchema n schema_version)"
  using assms by (simp add: migrate_def bindE_def failE_def ensure_schema_def query_def stmt_def Let_def)

lemma pragma_run: "pragma_update c = (Inr (), c') \<Longrightarrow> tabs c' = tabs c"
  by (auto simp: pragma_update_def stmt_def Let_def split: list.splits option.splits)

lemma open_run:
  assumes "open_store d (Inr c) = Inr c' \<or> open_in_memory (Inr c) = Inr c'"
  shows "tabs c' = versioned (tabs c)"
proof -
  have finish: "\<exists>r. m c = (Inr r, c')" if "finish_open m (Inr c) = Inr c'" for m
    using that by (cases "m c"; cases "fst (m c)") (simp_all add: finish_open_def)
  have "(\<exists>r. bindE pragma_update (\<lambda>_. migrate) c = (Inr r, c')) \<or>
      (\<exists>r. bindE pragma_update (\<lambda>_. bindE pragma_update (\<lambda>_. migrate)) c = (Inr r, c'))"
    using assms finish by (cases d) (auto simp: open_store_def open_in_memory_def split: sum.splits)
  then show ?thesis by (fastforce simp: bindE_ok dest!: pragma_run migrate_run)
qed

lemma open_broker_run:
  assumes "open_broker cfg d (Inr c) now = Inr b"
  shows "\<exists>c'. b = new_broker cfg c' now \<and> tabs c' = versioned (tabs c)"
proof -
  obtain c' where "b = new_broker cfg c' now" "open_store d (Inr c) = Inr c' \<or> open_in_memory (Inr c) = Inr c'"
    using assms by (auto simp: open_broker_def map_sum_def split: option.splits sum.splits)
  with open_run show ?thesis by blast
qed

text \<open>No operation touches the version.\<close>

lemma version_push_all [simp]: "t_schema_version (push_all rs t) = t_schema_version t"
  by (induction rs arbitrary: t) simp_all

lemma version_spec: "t_schema_version (op_spec op ts t) = t_schema_version t"
  by (cases op) (auto simp: Let_def purge_def add_message_def spec_rename_def spec_archived_def spec_evict_def spec_ack_def
      with_membership_def with_policy_def)

lemma reachable_versioned: "store_reachable c \<Longrightarrow> versioned (tabs c) = tabs c"
proof (induction rule: reachable.induct)
  case (reach_init c)
  then show ?case by (simp add: store_init_def new_tables_def versioned_def)
next
  case (reach_step c l c')
  have "integrity (tabs c)" using store_int.reachable_inv [OF reach_step.hyps(1)] .
  from step_tables [OF reach_step.hyps(2) this] reach_step.IH version_spec show ?case
    by (auto simp: versioned_def) (metis tables.surjective tables.update_convs(1) tables.select_convs(1))+
qed

text \<open>So a database that a broker has left opens as the state it was left in.\<close>

lemma reopened_reachable:
  assumes "store_reachable c" "tabs c' = versioned (tabs c)"
  shows "store_reachable c'"
proof -
  have "c' = c\<lparr>faults := faults c', clock := clock c'\<rparr>" using assms(2) reachable_versioned [OF assms(1)] by simp
  then show ?thesis using reach_step [OF assms(1) step_env] by metis
qed

section \<open>Lives\<close>

inductive served :: "broker \<Rightarrow> bool" where
  first: "\<lbrakk>tabs c = empty_tables; open_broker cfg d (Inr c) now = Inr b\<rbrakk> \<Longrightarrow> served b"
| runs: "\<lbrakk>served b; broker_step b e b'\<rbrakk> \<Longrightarrow> served b'"
| restarts: "\<lbrakk>served b; db_step\<^sup>*\<^sup>* (b_db b) c; db_path cfg \<noteq> None; open_broker cfg d (Inr c) now = Inr b'\<rbrakk> \<Longrightarrow> served b'"

lemma served_reachable: "served b \<Longrightarrow> broker_reachable b"
proof (induction rule: served.induct)
  case (first c cfg d now b)
  then obtain c' where "b = new_broker cfg c' now" "tabs c' = new_tables"
    using open_broker_run new_tables_def by metis
  moreover from this have "store_reachable c'" by (intro reach_init) (simp add: store_init_def)
  ultimately show ?case by (intro reach_init) (auto simp: broker_init_def)
next
  case (runs b e b')
  then show ?case by (blast intro: reach_step)
next
  case (restarts b c cfg d now b')
  have "store_reachable (b_db b)" using broker_safe.reachable_inv [OF restarts.IH] by (simp add: broker_good_def)
  then have "store_reachable c" using store_path [OF restarts.hyps(2)] by simp
  with open_broker_run [OF restarts.hyps(4)] reopened_reachable obtain c' where
    "b' = new_broker cfg c' now" "store_reachable c'" by blast
  then show ?case by (intro reach_init) (auto simp: broker_init_def)
qed

lemma reopens:
  assumes "t_schema_version (tabs c) = Some current_version"
  shows "\<exists>c'. open_store (Some (Inr ())) (Inr (c\<lparr>faults := []\<rparr>)) = Inr c' \<and> tabs c' = tabs c"
proof -
  have "parse_i64 current_version = Some 2"
    by (simp add: current_version_def parse_i64_def parse_unsigned_def strip_plus_def is_digit_def less_eq_char_def digit_val_def)
  then have "fst (migrate (c\<lparr>faults := []\<rparr>)) = Inr ()"
    using assms by (simp add: migrate_def bindE_def returnE_def ensure_schema_def query_def stmt_def Let_def schema_version_def)
  moreover have "pragma_update (c\<lparr>faults := []\<rparr>) = (Inr (), c\<lparr>faults := []\<rparr>)"
    by (simp add: pragma_update_def stmt_def Let_def)
  moreover obtain r c' where "migrate (c\<lparr>faults := []\<rparr>) = (r, c')" by fastforce
  ultimately have c': "open_store (Some (Inr ())) (Inr (c\<lparr>faults := []\<rparr>)) = Inr c'"
    by (simp add: open_store_def finish_open_def bindE_def)
  have "versioned (tabs c) = tabs c" using assms by (simp add: versioned_def)
  with open_run [OF disjI1, OF c'] c' show ?thesis by simp
qed

text \<open>C10. Over the whole life of a database, from the empty file through any number of brokers, each
  killed at any moment and replaced by another, every broker is in a reachable state of the
  protocol, its database intact and true to the manager's policy; and a broker started on
  it, if storage is healthy, is never refused and finds the tables as they were.\<close>

theorem restarts_keep_database:
  assumes "served b"
  shows "broker_reachable b \<and> integrity (tabs (b_db b)) \<and>
    (policy_of (tabs (b_db b)) p ch = Some mode \<longrightarrow> ((p, ch) \<in> set (t_subscriptions (tabs (b_db b))) \<longleftrightarrow> mode = Forced)) \<and>
    (\<exists>c. open_store (Some (Inr ())) (Inr ((b_db b)\<lparr>faults := []\<rparr>)) = Inr c \<and> tabs c = tabs (b_db b))"
proof -
  note reached = served_reachable [OF assms]
  note good = broker_safe.reachable_inv [OF reached]
  then have "versioned (tabs (b_db b)) = tabs (b_db b)" by (simp add: broker_good_def reachable_versioned)
  then have "t_schema_version (tabs (b_db b)) = Some current_version"
    unfolding versioned_def by (metis tables.select_convs(1) tables.surjective tables.update_convs(1))
  from reopens [OF this] reached broker_good_store [OF good] show ?thesis
    by (cases mode) (auto simp: store_good_def policy_inv_def)
qed

definition demo_file :: conn where
  "demo_file = \<lparr>tabs = empty_tables, faults = [], clock = 1000\<rparr>"

theorem restarts_keep_database_witness:
  "\<exists>b. open_broker demo_config None (Inr demo_file) 0 = Inr b \<and> broker_reachable b \<and> integrity (tabs (b_db b))"
proof -
  have p: "pragma_update demo_file = (Inr (), demo_file)" by (simp add: pragma_update_def stmt_def demo_file_def)
  have "fst (migrate demo_file) = Inr ()"
    by (simp add: migrate_def bindE_def returnE_def ensure_schema_def query_def stmt_def demo_file_def empty_tables_def)
  then obtain c where "migrate demo_file = (Inr (), c)" by (metis prod.collapse)
  with p have "open_in_memory (Inr demo_file) = Inr c" by (simp add: open_in_memory_def finish_open_def bindE_def)
  then obtain b where b: "open_broker demo_config None (Inr demo_file) 0 = Inr b"
    by (simp add: open_broker_def demo_config_def)
  have "served b" by (rule first [OF _ b]) (simp add: demo_file_def)
  from restarts_keep_database [OF this] b show ?thesis by blast
qed

end
