(* ===== verification/Config.thy ===== *)
theory Config
  imports Core
begin

text \<open>
  Configuration and credentials of the daemon and its clients
  (\<open>crates/workplace/src/config.rs\<close>), on a POSIX system. The file system is a state in which
  every call may fail; the TOML deserializer (\<open>toml::from_str\<close>), the home directory and the
  name lookup are parameters.
\<close>

unbundle bit_operations_syntax

section \<open>The operating system\<close>

datatype io_error = NotFound | AlreadyExists | OtherIo string

record file_entry =
  f_mode :: u32
  f_text :: string

text \<open>\<open>os_faults\<close> says for each coming call whether it fails, and how many bytes a failing
  write has written; \<open>os_entropy\<close> is what the random source will yield.\<close>

record os =
  os_files :: "(string \<times> file_entry) list"
  os_umask :: u32
  os_entropy :: "8 word list"
  os_faults :: "(io_error \<times> nat) option list"

definition next_call :: "os \<Rightarrow> (io_error \<times> nat) option \<times> os" where
  "next_call s = (case os_faults s of [] \<Rightarrow> (None, s) | f # fs \<Rightarrow> (f, s\<lparr>os_faults := fs\<rparr>))"

definition syscall :: "(os \<Rightarrow> io_error + 'a \<times> os) \<Rightarrow> (os, io_error, 'a) em" where
  "syscall f s = (case next_call s of
      (Some (e, _), s') \<Rightarrow> (Inl e, s')
    | (None, s') \<Rightarrow> (case f s' of Inl e \<Rightarrow> (Inl e, s') | Inr (x, s'') \<Rightarrow> (Inr x, s'')))"

definition with_file :: "(file_entry \<Rightarrow> io_error + 'a) \<Rightarrow> string \<Rightarrow> (os, io_error, 'a) em" where
  "with_file f path = syscall (\<lambda>s. case map_of (os_files s) path of
      None \<Rightarrow> Inl NotFound | Some entry \<Rightarrow> map_sum id (\<lambda>x. (x, s)) (f entry))"

definition read_to_string :: "string \<Rightarrow> (os, io_error, string) em" where
  "read_to_string = with_file (\<lambda>f. if valid_utf8 (f_text f) then Inr (f_text f)
     else Inl (OtherIo ''stream did not contain valid UTF-8''))"

definition file_mode :: "string \<Rightarrow> (os, io_error, u32) em" where
  "file_mode = with_file (\<lambda>f. Inr (f_mode f))"

text \<open>Directories are not represented: making them succeeds or fails.\<close>

definition create_dir_all :: "(os, io_error, unit) em" where
  "create_dir_all = syscall (\<lambda>s. Inr ((), s))"

definition getrandom_fill :: "nat \<Rightarrow> (os, io_error, 8 word list) em" where
  "getrandom_fill n = syscall (\<lambda>s. if length (os_entropy s) < n then Inl (OtherIo ''entropy'')
     else Inr (take n (os_entropy s), s\<lparr>os_entropy := drop n (os_entropy s)\<rparr>))"

text \<open>\<open>OpenOptions\<close> with \<open>create_new\<close> and a mode, of which the umask takes bits away.\<close>

definition open_new :: "u32 \<Rightarrow> string \<Rightarrow> (os, io_error, unit) em" where
  "open_new mode path = syscall (\<lambda>s. if map_of (os_files s) path \<noteq> None then Inl AlreadyExists
     else Inr ((), s\<lparr>os_files := (path, \<lparr>f_mode = 0x8000 OR (mode AND NOT (os_umask s)), f_text = []\<rparr>) # os_files s\<rparr>))"

definition append_file :: "string \<Rightarrow> string \<Rightarrow> os \<Rightarrow> os" where
  "append_file path bytes s = s\<lparr>os_files := map (\<lambda>p. if fst p = path then (path, (snd p)\<lparr>f_text := f_text (snd p) @ bytes\<rparr>) else p)
     (os_files s)\<rparr>"

definition write_all :: "string \<Rightarrow> string \<Rightarrow> (os, io_error, unit) em" where
  "write_all path bytes s = (case next_call s of
      (Some (e, n), s') \<Rightarrow> (Inl e, append_file path (take n bytes) s')
    | (None, s') \<Rightarrow> (Inr (), append_file path bytes s'))"

section \<open>The configuration file\<close>

datatype config_error =
    CannotRead string io_error
  | BadToml string string
  | TokenEmpty string
  | GroupAccessible string u32
  | NoRandomness
  | CannotCreate string io_error
  | Io io_error
  | BadSize string
  | MultiplyOverflow
  | CannotResolve string

record codex_section =
  cs_app_server :: "string option"
  cs_token_file :: "string option"

record broker_section =
  bs_listen :: "string list"
  bs_message_size_limit :: string
  bs_auth_token :: "string option"
  bs_admin_token_file :: "string option"

record client_section =
  cl_broker :: string
  cl_auth_token :: "string option"
  cl_admin_token_file :: "string option"

record config_file =
  cf_broker :: broker_section
  cf_client :: client_section
  cf_database :: "string option"
  cf_log_level :: string
  cf_codex :: codex_section

definition default_endpoint :: string where
  "default_endpoint = ''127.0.0.1:'' @ show_nat (unat DEFAULT_PORT)"

definition default_listen :: "string list" where
  "default_listen = [default_endpoint]"

definition default_size_limit :: string where
  "default_size_limit = ''8MB''"

definition default_log_level :: string where
  "default_log_level = ''info''"

definition default_broker_section :: broker_section where
  "default_broker_section = \<lparr>bs_listen = default_listen, bs_message_size_limit = default_size_limit, bs_auth_token = None,
     bs_admin_token_file = None\<rparr>"

definition default_client_section :: client_section where
  "default_client_section = \<lparr>cl_broker = default_endpoint, cl_auth_token = None, cl_admin_token_file = None\<rparr>"

definition default_config_file :: config_file where
  "default_config_file = \<lparr>cf_broker = default_broker_section, cf_client = default_client_section, cf_database = None,
     cf_log_level = default_log_level, cf_codex = \<lparr>cs_app_server = None, cs_token_file = None\<rparr>\<rparr>"

section \<open>Paths\<close>

text \<open>\<open>PathBuf::join\<close> with a relative path.\<close>

definition path_join :: "string \<Rightarrow> string \<Rightarrow> string" where
  "path_join base nm = (if base = [] then nm else if last base = CHR ''/'' then base @ nm else base @ ''/'' @ nm)"

text \<open>The environment variables and the home directory, if there is one.\<close>

record environment =
  env_vars :: "(string \<times> string) list"
  env_home :: "string option"

definition xdg_base :: "string \<Rightarrow> string \<Rightarrow> environment \<Rightarrow> string" where
  "xdg_base var fallback env = (case map_of (env_vars env) var of
      Some d \<Rightarrow> d
    | None \<Rightarrow> path_join (case env_home env of Some h \<Rightarrow> h | None \<Rightarrow> ''.'') fallback)"

definition config_dir :: "environment \<Rightarrow> string" where
  "config_dir env = path_join (xdg_base ''XDG_CONFIG_HOME'' ''.config'' env) ''workplace''"

definition data_dir :: "environment \<Rightarrow> string" where
  "data_dir env = path_join (xdg_base ''XDG_DATA_HOME'' ''.local/share'' env) ''workplace''"

definition config_path :: "environment \<Rightarrow> string option \<Rightarrow> string" where
  "config_path env explicit = (case explicit of
      Some p \<Rightarrow> p
    | None \<Rightarrow> (case map_of (env_vars env) ''WORKPLACE_CONFIG'' of
        Some p \<Rightarrow> p | None \<Rightarrow> path_join (config_dir env) ''config.toml''))"

definition load :: "(string \<Rightarrow> string + config_file) \<Rightarrow> environment \<Rightarrow> string option \<Rightarrow> (os, config_error, config_file) em" where
  "load toml env explicit = (let path = config_path env explicit in
     handleE (read_to_string path)
       (\<lambda>e. if e = NotFound then returnE default_config_file else failE (CannotRead path e))
       (\<lambda>contents. case toml contents of Inl e \<Rightarrow> failE (BadToml path e) | Inr c \<Rightarrow> returnE c))"

definition default_admin_token_path :: "environment \<Rightarrow> string" where
  "default_admin_token_path env = path_join (data_dir env) ''admin-token''"

section \<open>The admin credential\<close>

definition map_err :: "('e \<Rightarrow> 'f) \<Rightarrow> ('s, 'e, 'a) em \<Rightarrow> ('s, 'f, 'a) em" where
  "map_err g m = handleE m (\<lambda>e. failE (g e)) returnE"

definition check_token_perms :: "string \<Rightarrow> (os, config_error, unit) em" where
  "check_token_perms path = bindE (map_err Io (file_mode path)) (\<lambda>mode.
     if mode AND 0x3F = 0 then returnE () else failE (GroupAccessible path (mode AND 0x1FF)))"

definition hex_digit :: "nat \<Rightarrow> char" where
  "hex_digit d = (if d < 10 then char_of (48 + d) else char_of (87 + d))"

definition hex_byte :: "8 word \<Rightarrow> string" where
  "hex_byte b = [hex_digit (unat b div 16), hex_digit (unat b mod 16)]"

text \<open>\<open>Path::parent\<close> is present unless there is nothing but separators.\<close>

definition has_parent :: "string \<Rightarrow> bool" where
  "has_parent path \<longleftrightarrow> list_ex (\<lambda>c. c \<noteq> CHR ''/'') path"

definition generate_admin_token :: "string \<Rightarrow> (os, config_error, string) em" where
  "generate_admin_token path =
     bindE (if has_parent path then map_err Io create_dir_all else returnE ()) (\<lambda>_.
     bindE (map_err (\<lambda>_. NoRandomness) (getrandom_fill 32)) (\<lambda>bytes.
     bindE (map_err (CannotCreate path) (open_new 0x180 path)) (\<lambda>_.
     bindE (map_err Io (write_all path (concat (map hex_byte bytes)))) (\<lambda>_.
     bindE (map_err Io (write_all path [CHR 0x0A])) (\<lambda>_.
     returnE (concat (map hex_byte bytes)))))))"

definition accept_token :: "string \<Rightarrow> string \<Rightarrow> (os, config_error, string) em" where
  "accept_token path contents = bindE (check_token_perms path) (\<lambda>_.
     if trim contents = [] then failE (TokenEmpty path) else returnE (trim contents))"

definition ensure_admin_token :: "string \<Rightarrow> (os, config_error, string) em" where
  "ensure_admin_token path = handleE (read_to_string path)
     (\<lambda>e. if e = NotFound then generate_admin_token path else failE (CannotRead path e))
     (accept_token path)"

definition read_admin_token :: "string \<Rightarrow> (os, config_error, string) em" where
  "read_admin_token path = bindE (map_err (CannotRead path) (read_to_string path)) (accept_token path)"

section \<open>Sizes and endpoints\<close>

text \<open>The number and the multiplier of a size, by its suffix.\<close>

definition size_parts :: "string \<Rightarrow> string \<times> nat" where
  "size_parts t = (case strip_suffix ''GB'' t of Some n \<Rightarrow> (n, 1024 * 1024 * 1024) | None \<Rightarrow>
     (case strip_suffix ''MB'' t of Some n \<Rightarrow> (n, 1024 * 1024) | None \<Rightarrow>
     (case strip_suffix ''KB'' t of Some n \<Rightarrow> (n, 1024) | None \<Rightarrow>
     (case strip_suffix ''B'' t of Some n \<Rightarrow> (n, 1) | None \<Rightarrow> (t, 1)))))"

text \<open>\<open>usize\<close> has 64 bits. The product wraps around, or panics where the build checks
  arithmetic overflow (\<open>checked\<close>; the debug profile).\<close>

definition parse_size :: "bool \<Rightarrow> string \<Rightarrow> config_error + u64" where
  "parse_size checked s =
     (case size_parts (map ascii_upper (trim s)) of (num, mult) \<Rightarrow>
      (case parse_unsigned (2 ^ 64) (trim num) of
         None \<Rightarrow> Inl (BadSize s)
       | Some v \<Rightarrow> if checked \<and> v * mult \<ge> 2 ^ 64 then Inl MultiplyOverflow else Inr (of_nat v * of_nat mult)))"

definition parse_endpoint :: "(string \<Rightarrow> string + ip_addr list) \<Rightarrow> string \<Rightarrow> config_error + socket_addr" where
  "parse_endpoint lookup s =
     (let candidate = (if CHR '':'' \<in> set s then s else s @ '':'' @ show_nat (unat DEFAULT_PORT)) in
      case to_socket_addrs lookup candidate of
        Inr (a # _) \<Rightarrow> Inr a
      | _ \<Rightarrow> Inl (CannotResolve s))"

definition endpoint_is_local :: "socket_addr \<Rightarrow> bool" where
  "endpoint_is_local addr \<longleftrightarrow> is_loopback (sa_ip addr) \<or> is_unspecified (sa_ip addr)"

section \<open>Reading a size\<close>

definition size_units :: "(string \<times> nat) list" where
  "size_units = [(''GB'', 1024 * 1024 * 1024), (''MB'', 1024 * 1024), (''KB'', 1024), (''B'', 1), ([], 1)]"

lemma size_parts_unit:
  assumes "(u, m) \<in> set size_units" and "x \<noteq> []" and "last x \<notin> set ''GMKB''"
  shows "size_parts (x @ u) = (x, m)"
proof -
  obtain y c where x: "x = y @ [c]" using assms(2) by (metis rev_exhaust)
  with assms(3) have "c \<notin> set ''GMKB''" by simp
  with assms(1) show ?thesis unfolding x
    by (auto simp: size_units_def size_parts_def strip_suffix_def)
qed

lemma digit_props:
  assumes "is_digit c"
  shows "solid c" and "ascii_upper c = c" and "c \<notin> set ''GMKB''"
proof -
  have b: "48 \<le> byte c" "byte c \<le> 57" using assms by (simp_all add: is_digit_def less_eq_char_def)
  then show "solid c" "ascii_upper c = c" by (simp_all add: solid_def ws_width_def ascii_upper_def)
  show "c \<notin> set ''GMKB''" using b by auto
qed

lemma show_nat_last: "is_digit (last (show_nat n))" and show_nat_hd: "is_digit (hd (show_nat n))"
  using show_nat_digits [of n] show_nat_nonempty [of n] by (auto simp: list_all_iff)

lemma ws_width_show_nat: "ws_width (show_nat n @ s) = 0"
  using show_nat_hd [of n] show_nat_nonempty [of n] by (cases "show_nat n") (auto intro: ws_width_solid digit_props)

lemma upper_show_nat: "map ascii_upper (show_nat n) = show_nat n"
  using show_nat_digits [of n] by (auto simp: list_all_iff digit_props intro: map_idI)

lemma upper_unit:
  assumes "(map ascii_upper v, m) \<in> set size_units" and "v \<noteq> []"
  shows "solid (last v)"
proof -
  have "last (map ascii_upper v) = CHR ''B''" using assms by (auto simp: size_units_def)
  then have upper: "ascii_upper (last v) = CHR ''B''" using assms(2) by (simp add: last_map)
  have "byte (last v) = 66 \<or> byte (last v) = 98"
  proof (cases "97 \<le> byte (last v) \<and> byte (last v) \<le> 122")
    case True
    then have "byte (ascii_upper (last v)) = byte (last v) - 32"
      by (simp add: ascii_upper_def) (rule mod_less, linarith)
    with upper True show ?thesis by simp
  next
    case False
    with upper have "last v = CHR ''B''" by (simp add: ascii_upper_def)
    then show ?thesis by simp
  qed
  then show ?thesis by (auto simp: solid_def ws_width_def)
qed

text \<open>A size with its unit, in any letter case and with spaces around its parts, is read as
  the number times the unit when that fits in 64 bits; otherwise a build that checks
  overflow panics and any other wraps around.\<close>

theorem parse_size_reads:
  assumes "n < 2 ^ 64" and "(map ascii_upper v, m) \<in> set size_units"
  shows "parse_size checked (spaces i @ show_nat n @ spaces j @ v @ spaces k) =
    (if checked \<and> n * m \<ge> 2 ^ 64 then Inl MultiplyOverflow else Inr (of_nat (n * m)))"
proof -
  define x where "x = show_nat n @ spaces (if v = [] then 0 else j)"
  have n: "show_nat n \<noteq> []" "solid (last (show_nat n))" "ws_width (show_nat n) = 0"
    using show_nat_nonempty ws_width_show_nat [of n "[]"] digit_props(1) [OF show_nat_last] by simp_all
  have "trim (spaces i @ show_nat n @ spaces j @ v @ spaces k) = x @ v"
  proof (cases "v = []")
    case True
    with trim_padded [OF n(1,3,2), of "spaces i" "spaces j @ spaces k"] show ?thesis by (simp add: x_def)
  next
    case False
    have "trim (spaces i @ (show_nat n @ spaces j @ v) @ spaces k) = show_nat n @ spaces j @ v"
      using ws_width_show_nat upper_unit [OF assms(2) False] n(1) False by (intro trim_padded) auto
    with False show ?thesis by (simp add: x_def)
  qed
  moreover have "map ascii_upper x = x" by (simp add: x_def upper_show_nat ascii_upper_def)
  moreover have "size_parts (x @ map ascii_upper v) = (x, m)"
    using digit_props(3) [OF show_nat_last [of n]] n(1) by (intro size_parts_unit [OF assms(2)]) (auto simp: x_def last_append)
  moreover have "trim x = show_nat n" unfolding x_def using trim_padded [OF n(1,3,2), of "[]" "spaces (if v = [] then 0 else j)"] by simp
  ultimately show ?thesis using parse_show_nat [OF assms(1)] unfolding parse_size_def by simp
qed

theorem parse_size_reads_witness: "parse_size True '' 8 mb '' = Inr (8 * (1024 * 1024))"
proof -
  have "map ascii_upper ''mb'' = ''MB''" by code_simp
  then have unit: "(map ascii_upper ''mb'', 1024 * 1024) \<in> set size_units" by (simp add: size_units_def)
  have "show_nat 8 = ''8''" by code_simp
  then show ?thesis using parse_size_reads [OF _ unit, of 8 True 1 1 1] by simp
qed

text \<open>The wrap-around on a whole number of units: a limit of 16 exbibytes is read as no bytes at
  all.\<close>

lemma parse_size_wraps: "parse_size False ''17179869184GB'' = Inr 0"
proof -
  have t: "trim ''17179869184GB'' = ''17179869184'' @ ''GB''"
    using trim_solid [of "''17179869184GB''"] by (simp add: ws_width_def solid_def)
  have n: "trim ''17179869184'' = ''17179869184''"
    by (rule trim_solid) (simp_all add: ws_width_def solid_def)
  have "size_parts (''17179869184'' @ ''GB'') = (''17179869184'', 1024 * 1024 * 1024)"
    by (rule size_parts_unit) (simp_all add: size_units_def)
  then show ?thesis using t n
    by (simp add: parse_size_def ascii_upper_def parse_unsigned_def strip_plus_def is_digit_def less_eq_char_def digit_val_def)
qed

section \<open>The admin credential is private and stable\<close>

lemma next_call_sel: "next_call s = (f, s') \<Longrightarrow> os_files s' = os_files s \<and> os_umask s' = os_umask s \<and> os_entropy s' = os_entropy s"
  by (auto simp: next_call_def split: list.splits)

lemma next_call_healthy: "os_faults s = [] \<Longrightarrow> next_call s = (None, s)"
  by (simp add: next_call_def)

lemma syscall_ok: "syscall f s = (Inr x, s'') \<longleftrightarrow> (\<exists>s'. next_call s = (None, s') \<and> f s' = Inr (x, s''))"
  by (auto simp: syscall_def split: prod.splits option.splits sum.splits)

lemma map_err_ok: "map_err g m s = (Inr x, s') \<longleftrightarrow> m s = (Inr x, s')"
  by (auto simp: map_err_def handleE_def returnE_def failE_def split: prod.splits sum.splits)

lemma map_sum_Inr: "map_sum id g x = Inr y \<longleftrightarrow> (\<exists>z. x = Inr z \<and> y = g z)"
  by (cases x) auto

lemma with_file_run:
  assumes "with_file f path s = (r, s')"
  shows "os_files s' = os_files s" and "r = Inr x \<Longrightarrow> \<exists>e. map_of (os_files s) path = Some e \<and> f e = Inr x"
proof -
  have "os_files s' = os_files s \<and> (r = Inr x \<longrightarrow> (\<exists>e. map_of (os_files s) path = Some e \<and> f e = Inr x))"
    using assms unfolding with_file_def syscall_def
    by (cases "next_call s") (auto dest!: next_call_sel simp: map_sum_Inr split: option.splits sum.splits)
  then show "os_files s' = os_files s" "r = Inr x \<Longrightarrow> \<exists>e. map_of (os_files s) path = Some e \<and> f e = Inr x" by blast+
qed

lemma with_file_healthy: "os_faults s = [] \<Longrightarrow> map_of (os_files s) path = Some e \<Longrightarrow> f e = Inr x \<Longrightarrow> with_file f path s = (Inr x, s)"
  by (simp add: with_file_def syscall_def next_call_healthy)

text \<open>A credential file that is read as \<open>token\<close>: private to its owner.\<close>

definition token_file :: "string \<Rightarrow> file_entry \<Rightarrow> bool" where
  "token_file token e \<longleftrightarrow> f_mode e AND 0x3F = 0 \<and> valid_utf8 (f_text e) \<and> trim (f_text e) = token \<and> token \<noteq> []"

lemma accept_token_run:
  assumes "accept_token path contents s = (Inr t, s')"
  shows "os_files s' = os_files s \<and> t = trim contents \<and> t \<noteq> [] \<and> (\<exists>e. map_of (os_files s) path = Some e \<and> f_mode e AND 0x3F = 0)"
proof -
  from assms obtain mode where mode: "file_mode path s = (Inr mode, s')" "mode AND 0x3F = 0" and t: "t = trim contents" "t \<noteq> []"
    by (auto simp: accept_token_def check_token_perms_def bindE_ok map_err_ok returnE_ok failE_ok split: if_splits)
  from with_file_run [OF mode(1) [unfolded file_mode_def]] mode(2) t show ?thesis by blast
qed

lemma accept_token_healthy:
  assumes "os_faults s = []" and "map_of (os_files s) path = Some e" and "token_file t e"
  shows "accept_token path (f_text e) s = (Inr t, s)"
proof -
  have "file_mode path s = (Inr (f_mode e), s)" unfolding file_mode_def by (rule with_file_healthy [OF assms(1,2)]) simp
  then have "map_err Io (file_mode path) s = (Inr (f_mode e), s)" by (simp add: map_err_ok)
  with assms(3) show ?thesis by (simp add: accept_token_def check_token_perms_def token_file_def returnE_def)
qed

lemma reads_token:
  assumes "os_faults s = []" and "map_of (os_files s) path = Some e" and "token_file t e"
  shows "ensure_admin_token path s = (Inr t, s)" and "read_admin_token path s = (Inr t, s)"
proof -
  have "read_to_string path s = (Inr (f_text e), s)" unfolding read_to_string_def
    by (rule with_file_healthy [OF assms(1,2)]) (use assms(3) in \<open>simp add: token_file_def\<close>)
  then show "ensure_admin_token path s = (Inr t, s)" "read_admin_token path s = (Inr t, s)"
    using accept_token_healthy [OF assms] by (simp_all add: ensure_admin_token_def read_admin_token_def map_err_ok)
qed

lemma append_entries:
  "map_of (map (\<lambda>x. if fst x = p then (p, (snd x)\<lparr>f_text := f_text (snd x) @ bytes\<rparr>) else x) fs) q =
    (if q = p then map_option (\<lambda>e. e\<lparr>f_text := f_text e @ bytes\<rparr>) (map_of fs q) else map_of fs q)"
  by (induction fs) auto

lemma append_file_get: "map_of (os_files (append_file p bytes s)) q =
    (if q = p then map_option (\<lambda>e. e\<lparr>f_text := f_text e @ bytes\<rparr>) (map_of (os_files s) q) else map_of (os_files s) q)"
  by (simp add: append_file_def append_entries)

lemma write_all_ok: "write_all path bytes s = (Inr x, s'') \<Longrightarrow> map_of (os_files s'') q =
    (if q = path then map_option (\<lambda>e. e\<lparr>f_text := f_text e @ bytes\<rparr>) (map_of (os_files s) q) else map_of (os_files s) q)"
  by (auto simp: write_all_def append_file_get dest!: next_call_sel split: prod.splits option.splits)

lemma hex_byte_props: "length (hex_byte b) = 2" "list_all (\<lambda>c. solid c \<and> is_hex c) (hex_byte b)"
proof -
  have "solid (hex_digit d) \<and> is_hex (hex_digit d)" if "d < 16" for d
    using that by (auto simp: hex_digit_def solid_def ws_width_def is_hex_def is_digit_def less_eq_char_def)
  moreover have "unat b div 16 < 16" using unsigned_less [of b, where 'a = nat] by simp
  ultimately show "list_all (\<lambda>c. solid c \<and> is_hex c) (hex_byte b)" by (simp add: hex_byte_def)
  show "length (hex_byte b) = 2" by (simp add: hex_byte_def)
qed

lemma hex_token:
  assumes "length bytes = 32"
  defines "tok \<equiv> concat (map hex_byte bytes)"
  shows "length tok = 64" and "list_all is_hex tok" and "valid_utf8 (tok @ [CHR 0x0A])" and "trim (tok @ [CHR 0x0A]) = tok"
proof -
  have solid: "list_all (\<lambda>c. solid c \<and> is_hex c) tok" unfolding tok_def
    by (induction bytes) (auto simp: hex_byte_props)
  have "length tok = 2 * length bytes" unfolding tok_def by (induction bytes) (auto simp: hex_byte_props)
  with assms show len: "length tok = 64" by simp
  show "list_all is_hex tok" using solid by (simp add: list_all_iff)
  show "valid_utf8 (tok @ [CHR 0x0A])" by (rule valid_utf8_ascii) (use solid in \<open>auto simp: list_all_iff solid_def\<close>)
  from len have ne: "tok \<noteq> []" by auto
  with solid have ends: "solid (hd tok)" "solid (last tok)" by (auto simp: list_all_iff)
  have "ws_width tok = 0" using ws_width_solid [OF ends(1)] ne by (metis list.collapse)
  with trim_padded [OF ne _ ends(2), of "[]" "[CHR 0x0A]"] show "trim (tok @ [CHR 0x0A]) = tok" by (simp add: ascii_ws_def)
qed

lemma open_new_ok:
  assumes "open_new mode path s = (Inr x, s')"
  shows "map_of (os_files s) path = None \<and> (\<exists>umask. map_of (os_files s') q = (if q = path
    then Some \<lparr>f_mode = 0x8000 OR (mode AND NOT umask), f_text = []\<rparr> else map_of (os_files s) q))"
  using assms by (auto simp: open_new_def syscall_ok dest!: next_call_sel split: if_splits)

lemma owner_only: "(0x8000 OR (0x180 AND NOT umask)) AND 0x3F = (0 :: u32)"
proof -
  have "(0x8000 OR (0x180 AND NOT umask)) AND 0x3F = ((0x8000 AND 0x3F) OR ((0x180 AND 0x3F) AND NOT umask) :: u32)"
    by (simp only: bit.conj_disj_distrib bit.conj_disj_distrib2 and.assoc and.commute and.left_commute)
  then show ?thesis by simp
qed

lemma generate_run:
  assumes "generate_admin_token path s = (Inr t, s')"
  shows "map_of (os_files s) path = None" and "length t = 64" and "list_all is_hex t"
    and "\<exists>e. map_of (os_files s') path = Some e \<and> token_file t e" and "q \<noteq> path \<Longrightarrow> map_of (os_files s') q = map_of (os_files s) q"
proof -
  from assms obtain s1 s2 s3 s4 bytes where
    dir: "(if has_parent path then map_err Io create_dir_all else returnE ()) s = (Inr (), s1)" and
    rnd: "getrandom_fill 32 s1 = (Inr bytes, s2)" and new: "open_new 0x180 path s2 = (Inr (), s3)" and
    w1: "write_all path (concat (map hex_byte bytes)) s3 = (Inr (), s4)" and w2: "write_all path [CHR 0x0A] s4 = (Inr (), s')" and
    t: "t = concat (map hex_byte bytes)"
    unfolding generate_admin_token_def by (auto simp: bindE_ok map_err_ok returnE_ok)
  have "os_files s1 = os_files s" using dir
    by (auto simp: map_err_ok create_dir_all_def syscall_ok returnE_ok dest!: next_call_sel split: if_splits)
  moreover have "os_files s2 = os_files s1" "length bytes = 32" using rnd
    by (auto simp: getrandom_fill_def syscall_ok dest!: next_call_sel split: if_splits)
  ultimately have files: "os_files s2 = os_files s" and len: "length bytes = 32" by simp_all
  note tok = hex_token [OF len, folded t]
  show "map_of (os_files s) path = None" using open_new_ok [OF new] files by simp
  show "length t = 64" "list_all is_hex t" by (fact tok)+
  obtain um where "map_of (os_files s3) path = Some \<lparr>f_mode = 0x8000 OR (0x180 AND NOT um), f_text = []\<rparr>"
    using open_new_ok [OF new, of path] by auto
  then have "map_of (os_files s') path = Some \<lparr>f_mode = 0x8000 OR (0x180 AND NOT um), f_text = t @ [CHR 0x0A]\<rparr>"
    by (simp add: write_all_ok [OF w1] write_all_ok [OF w2] t)
  moreover have "t \<noteq> []" using tok(1) by auto
  ultimately show "\<exists>e. map_of (os_files s') path = Some e \<and> token_file t e"
    using tok owner_only by (simp add: token_file_def)
  show "map_of (os_files s') q = map_of (os_files s) q" if "q \<noteq> path"
    using that open_new_ok [OF new, of q] files by (auto simp: write_all_ok [OF w1] write_all_ok [OF w2])
qed

lemma ensure_run:
  assumes "ensure_admin_token path s = (Inr t, s')"
  shows "\<exists>e. map_of (os_files s') path = Some e \<and> token_file t e"
    and "map_of (os_files s) path = None \<Longrightarrow> length t = 64 \<and> list_all is_hex t"
    and "map_of (os_files s) path \<noteq> None \<or> q \<noteq> path \<Longrightarrow> map_of (os_files s') q = map_of (os_files s) q"
proof -
  obtain r s1 where read: "read_to_string path s = (r, s1)" by fastforce
  note files = with_file_run [OF read [unfolded read_to_string_def]]
  have "(\<exists>e. map_of (os_files s') path = Some e \<and> token_file t e) \<and>
    (map_of (os_files s) path = None \<longrightarrow> length t = 64 \<and> list_all is_hex t) \<and>
    (map_of (os_files s) path \<noteq> None \<or> q \<noteq> path \<longrightarrow> map_of (os_files s') q = map_of (os_files s) q)"
  proof (cases r)
    case (Inl e)
    then have gen: "generate_admin_token path s1 = (Inr t, s')"
      using assms read by (auto simp: ensure_admin_token_def failE_def split: if_splits)
    show ?thesis using generate_run [OF gen] files(1) by auto
  next
    case (Inr contents)
    then have acc: "accept_token path contents s1 = (Inr t, s')" using assms read by (simp add: ensure_admin_token_def)
    obtain e where "map_of (os_files s) path = Some e" "valid_utf8 (f_text e)" "contents = f_text e"
      using files(2) [OF Inr] by (auto split: if_splits)
    with accept_token_run [OF acc] files(1) show ?thesis by (auto simp: token_file_def)
  qed
  then show "\<exists>e. map_of (os_files s') path = Some e \<and> token_file t e"
    "map_of (os_files s) path = None \<Longrightarrow> length t = 64 \<and> list_all is_hex t"
    "map_of (os_files s) path \<noteq> None \<or> q \<noteq> path \<Longrightarrow> map_of (os_files s') q = map_of (os_files s) q" by blast+
qed



section \<open>Two limits of the code\<close>

text \<open>A first start that fails while it writes the token leaves a part of it behind, and the next
  start takes that part for the credential.\<close>

lemma partial_token_accepted:
  "(let s = \<lparr>os_files = [], os_umask = 18, os_entropy = replicate 32 7, os_faults = [None, None, None, None, Some (OtherIo ''ENOSPC'', 3)]\<rparr>;
        first = ensure_admin_token ''/d/admin-token'' s
    in fst first = Inl (Io (OtherIo ''ENOSPC'')) \<and> fst (ensure_admin_token ''/d/admin-token'' (snd first)) = Inr ''070'')"
  by code_simp

text \<open>An IPv6 address has a colon, so it gets no default port: its last group is taken for the port.\<close>

lemma bare_ipv6_endpoint:
  assumes "lookup '':'' = Inl e"
  shows "parse_endpoint lookup ''::1'' = Inl (CannotResolve ''::1'')"
proof -
  have "parse_socket_addr ''::1'' = None" and "rsplit_once (CHR '':'') ''::1'' = Some ('':'', ''1'')" by code_simp+
  then show ?thesis using assms
    by (simp add: parse_endpoint_def to_socket_addrs_def parse_unsigned_def strip_plus_def is_digit_def less_eq_char_def digit_val_def)
qed

end
