(* ===== verification/Supervisor.thy ===== *)
theory Supervisor
  imports Config
begin

text \<open>
  Supervision of the shared Codex app-server (\<open>crates/workplace/src/codex_supervisor.rs\<close>): the
  endpoint it watches, the health probe, the deep verification and the loop. One pass of the
  loop is a function of the supervisor's variables and of what the outside world does during
  that pass. Times are milliseconds; log messages are left out.
\<close>

section \<open>The endpoint\<close>

record timings =
  tm_poll :: nat
  tm_probe_timeout :: nat
  tm_backoff_initial :: nat
  tm_backoff_max :: nat
  tm_verify_backoff_initial :: nat
  tm_verify_backoff_max :: nat
  tm_stable_uptime :: nat
  tm_absent_debounce :: nat

definition default_timings :: timings where
  "default_timings = \<lparr>tm_poll = 2000, tm_probe_timeout = 2000, tm_backoff_initial = 1000, tm_backoff_max = 30000,
     tm_verify_backoff_initial = 5000, tm_verify_backoff_max = 60000, tm_stable_uptime = 30000, tm_absent_debounce = 2\<rparr>"

record endpoint =
  ep_url :: string
  ep_authority :: string
  ep_connect_addr :: string

datatype endpoint_error = NotWs | NoAuthority | BadIpv6 | NoPort | BadPort | NoHost

text \<open>The host and the port of an authority.\<close>

definition host_port :: "string \<Rightarrow> endpoint_error + string \<times> nat" where
  "host_port authority = (case strip_prefix ''['' authority of
      Some v6 \<Rightarrow> (case split_once (CHR '']'') v6 of
          None \<Rightarrow> Inl BadIpv6
        | Some (host, suffix) \<Rightarrow> (case strip_prefix '':'' suffix of
            None \<Rightarrow> Inl NoPort
          | Some port \<Rightarrow> (case parse_unsigned (2 ^ 16) port of None \<Rightarrow> Inl BadPort | Some p \<Rightarrow> Inr (host, p))))
    | None \<Rightarrow> (case rsplit_once (CHR '':'') authority of
          None \<Rightarrow> Inl NoPort
        | Some (host, port) \<Rightarrow> (case parse_unsigned (2 ^ 16) port of None \<Rightarrow> Inl BadPort | Some p \<Rightarrow> Inr (host, p))))"

definition connect_addr_of :: "string \<Rightarrow> nat \<Rightarrow> string" where
  "connect_addr_of host port =
     (if CHR '':'' \<in> set host then ''['' @ host @ '']:'' @ show_nat port else host @ '':'' @ show_nat port)"

definition parse_endpoint_url :: "string \<Rightarrow> endpoint_error + endpoint" where
  "parse_endpoint_url url = (case strip_prefix ''ws://'' url of
      None \<Rightarrow> Inl NotWs
    | Some rest \<Rightarrow>
        (let authority = takeWhile (\<lambda>c. c \<noteq> CHR ''/'') rest in
         if authority = [] then Inl NoAuthority
         else case host_port authority of
           Inl e \<Rightarrow> Inl e
         | Inr (host, port) \<Rightarrow> if host = [] then Inl NoHost
             else Inr \<lparr>ep_url = url, ep_authority = authority, ep_connect_addr = connect_addr_of host port\<rparr>))"

section \<open>The probe\<close>

datatype probe_state = Ready | Absent | Occupied

text \<open>What a probe meets: no connection, or the chunks the peer sends, ended by its closing the
  connection, by an error or by the timeout.\<close>

datatype probe_io = ConnectFailed | ConnectTimedOut | Responds "string list" | ReadFailed | ReadTimedOut

definition crlf :: string where
  "crlf = [CHR 0x0D, CHR 0x0A]"

definition ready_request :: "endpoint \<Rightarrow> string" where
  "ready_request ep = ''GET /readyz HTTP/1.1'' @ crlf @ ''Host: '' @ ep_authority ep @ crlf @ ''Connection: close'' @ crlf @ crlf"

definition crlf2 :: string where
  "crlf2 = crlf @ crlf"

fun read_response :: "string \<Rightarrow> string list \<Rightarrow> string" where
  "read_response acc [] = acc"
| "read_response acc (chunk # chunks) =
     (if length acc < 4096 \<and> \<not> contains crlf2 acc then
        (if chunk = [] then acc else read_response (acc @ chunk) chunks)
      else acc)"

definition first_line :: "string \<Rightarrow> string" where
  "first_line response = takeWhile (\<lambda>c. c \<noteq> CHR 0x0A) response"

definition ready_probe :: "probe_io \<Rightarrow> probe_state" where
  "ready_probe io = (case io of
      ConnectFailed \<Rightarrow> Absent
    | ConnectTimedOut \<Rightarrow> Absent
    | ReadFailed \<Rightarrow> Occupied
    | ReadTimedOut \<Rightarrow> Occupied
    | Responds chunks \<Rightarrow> if contains '' 200 '' (first_line (read_response [] chunks)) then Ready else Occupied)"

section \<open>Deep verification\<close>

text \<open>\<open>token_file\<close> is what reading the configured token file gives, if one is configured;
  \<open>connect t\<close> says whether the app-server accepts a client that presents \<open>t\<close>.\<close>

definition deep_verify :: "(io_error + string) option \<Rightarrow> (string option \<Rightarrow> bool) \<Rightarrow> bool" where
  "deep_verify file connect = (case file of
      None \<Rightarrow> connect None
    | Some (Inl e) \<Rightarrow> False
    | Some (Inr contents) \<Rightarrow>
        (let token = trim contents in
         if token = [] then False else connect (Some token) \<and> \<not> connect None))"

text \<open>The command line of the app-server.\<close>

definition spawn_args :: "string \<Rightarrow> string option \<Rightarrow> string list" where
  "spawn_args listen file = [''app-server'', ''--listen'', listen] @
     (case file of None \<Rightarrow> [] | Some f \<Rightarrow> [''--ws-auth'', ''capability-token'', ''--ws-token-file'', f])"

section \<open>The loop\<close>

record supervisor =
  sv_child :: bool
  sv_verified :: bool
  sv_absent_reads :: nat
  sv_healthy_since :: "nat option"
  sv_backoff :: nat
  sv_verify_backoff :: nat
  sv_next_verify :: "nat option"
  sv_last_observation :: string
  sv_now :: nat

definition supervisor_start :: "timings \<Rightarrow> nat \<Rightarrow> supervisor" where
  "supervisor_start tm now = \<lparr>sv_child = False, sv_verified = False, sv_absent_reads = 0, sv_healthy_since = None,
     sv_backoff = tm_backoff_initial tm, sv_verify_backoff = tm_verify_backoff_initial tm, sv_next_verify = None,
     sv_last_observation = [], sv_now = now\<rparr>"

text \<open>The outside world during one pass: the probe's outcome and duration, the token file,
  which clients the app-server accepts and how long verifying that takes, whether the process starts, and when the child exits if
  it does so while the loop waits.\<close>

record pass_io =
  io_probe :: probe_io
  io_probe_time :: nat
  io_token :: "(io_error + string) option"
  io_accepts :: "string option \<Rightarrow> bool"
  io_verify_time :: nat
  io_spawns :: bool
  io_child_exit :: "nat option"

datatype sup_action = Adopt | SpawnOk | SpawnError | Nothing

definition usize_max :: nat where
  "usize_max = 2 ^ 64 - 1"

definition next_backoff :: "timings \<Rightarrow> supervisor \<Rightarrow> nat" where
  "next_backoff tm s = min (sv_backoff s * 2) (tm_backoff_max tm)"

definition on_ready :: "timings \<Rightarrow> pass_io \<Rightarrow> supervisor \<Rightarrow> sup_action \<times> supervisor" where
  "on_ready tm io s0 =
     (let s = s0\<lparr>sv_absent_reads := 0\<rparr>;
          verify_due = (case sv_next_verify s of None \<Rightarrow> True | Some deadline \<Rightarrow> sv_now s \<ge> deadline);
          then_now = sv_now s + io_verify_time io
      in if \<not> sv_verified s \<and> verify_due then
           (if deep_verify (io_token io) (io_accepts io) then
              (Adopt, s\<lparr>sv_verified := True, sv_healthy_since := Some then_now, sv_verify_backoff := tm_verify_backoff_initial tm,
                 sv_next_verify := None, sv_last_observation := ''healthy'', sv_now := then_now\<rparr>)
            else
              (Nothing, s\<lparr>sv_last_observation := ''occupied'', sv_healthy_since := None,
                 sv_next_verify := Some (then_now + sv_verify_backoff s),
                 sv_verify_backoff := min (sv_verify_backoff s * 2) (tm_verify_backoff_max tm), sv_now := then_now\<rparr>))
         else if (case sv_healthy_since s of None \<Rightarrow> False | Some since \<Rightarrow> sv_now s - since \<ge> tm_stable_uptime tm)
         then (Nothing, s\<lparr>sv_backoff := tm_backoff_initial tm\<rparr>)
         else (Nothing, s))"

definition unhealthy :: "timings \<Rightarrow> string \<Rightarrow> supervisor \<Rightarrow> supervisor" where
  "unhealthy tm observation s = s\<lparr>sv_last_observation := observation, sv_verified := False, sv_healthy_since := None,
     sv_verify_backoff := tm_verify_backoff_initial tm, sv_next_verify := None\<rparr>"

definition on_occupied :: "timings \<Rightarrow> supervisor \<Rightarrow> supervisor" where
  "on_occupied tm s = (unhealthy tm ''occupied'' s)\<lparr>sv_absent_reads := 0\<rparr>"

definition on_absent :: "timings \<Rightarrow> pass_io \<Rightarrow> supervisor \<Rightarrow> sup_action \<times> supervisor" where
  "on_absent tm io s0 =
     (let s = (unhealthy tm ''absent'' s0)\<lparr>sv_absent_reads := min (sv_absent_reads s0 + 1) usize_max\<rparr>
      in if sv_absent_reads s \<ge> tm_absent_debounce tm \<and> \<not> sv_child s then
           (if io_spawns io then (SpawnOk, s\<lparr>sv_child := True, sv_absent_reads := 0\<rparr>)
            else (SpawnError, s\<lparr>sv_now := sv_now s + sv_backoff s, sv_backoff := next_backoff tm s, sv_absent_reads := 0\<rparr>))
         else (Nothing, s))"

text \<open>The wait at the end of a pass: for the poll interval, or for the child's exit and then
  for the backoff.\<close>

definition wait_poll :: "timings \<Rightarrow> pass_io \<Rightarrow> supervisor \<Rightarrow> supervisor" where
  "wait_poll tm io s = (case (sv_child s, io_child_exit io) of
      (True, Some d) \<Rightarrow> if d \<le> tm_poll tm
        then s\<lparr>sv_child := False, sv_verified := False, sv_healthy_since := None, sv_now := sv_now s + d + sv_backoff s,
               sv_backoff := next_backoff tm s\<rparr>
        else s\<lparr>sv_now := sv_now s + tm_poll tm\<rparr>
    | _ \<Rightarrow> s\<lparr>sv_now := sv_now s + tm_poll tm\<rparr>)"

definition supervise_pass :: "timings \<Rightarrow> pass_io \<Rightarrow> supervisor \<Rightarrow> sup_action \<times> supervisor" where
  "supervise_pass tm io s0 =
     (let s = s0\<lparr>sv_now := sv_now s0 + io_probe_time io\<rparr> in
      case ready_probe (io_probe io) of
        Ready \<Rightarrow> (case on_ready tm io s of (a, s') \<Rightarrow> (a, wait_poll tm io s'))
      | Occupied \<Rightarrow> (Nothing, wait_poll tm io (on_occupied tm s))
      | Absent \<Rightarrow> (case on_absent tm io s of
            (SpawnError, s') \<Rightarrow> (SpawnError, s')
          | (a, s') \<Rightarrow> (a, wait_poll tm io s')))"

fun supervise :: "timings \<Rightarrow> pass_io list \<Rightarrow> supervisor \<Rightarrow> sup_action list \<times> supervisor" where
  "supervise tm [] s = ([], s)"
| "supervise tm (io # ios) s = (case supervise_pass tm io s of (a, s') \<Rightarrow>
     (case supervise tm ios s' of (acts, s'') \<Rightarrow> (a # acts, s'')))"

text \<open>From the configured URL; one that is no endpoint is not supervised.\<close>

definition supervise_listen :: "string \<Rightarrow> pass_io list \<Rightarrow> (sup_action list \<times> supervisor) option" where
  "supervise_listen listen ios = (case parse_endpoint_url listen of
      Inl _ \<Rightarrow> None
    | Inr _ \<Rightarrow> Some (supervise default_timings ios (supervisor_start default_timings 0)))"

section \<open>Starting the app-server\<close>

abbreviation spawn_attempt :: "sup_action \<Rightarrow> bool" where
  "spawn_attempt a \<equiv> a = SpawnOk \<or> a = SpawnError"

abbreviation probe_of :: "pass_io \<Rightarrow> probe_state" where
  "probe_of io \<equiv> ready_probe (io_probe io)"

lemma wait_poll_sel: "sv_absent_reads (wait_poll tm io s) = sv_absent_reads s"
  by (auto simp: wait_poll_def split: option.splits bool.splits)

lemma pass_spawn:
  assumes "supervise_pass tm io s = (a, s')" and "spawn_attempt a"
  shows "probe_of io = Absent" and "tm_absent_debounce tm \<le> sv_absent_reads s + 1" and "\<not> sv_child s"
  using assms by (auto simp: supervise_pass_def on_ready_def on_absent_def unhealthy_def Let_def
    split: probe_state.splits prod.splits if_splits sup_action.splits option.splits)

lemma pass_absent_reads:
  assumes "supervise_pass tm io s = (a, s')"
  shows "sv_absent_reads s' \<le> (if probe_of io = Absent \<and> \<not> spawn_attempt a then sv_absent_reads s + 1 else 0)"
  using assms by (auto simp: supervise_pass_def on_ready_def on_occupied_def on_absent_def unhealthy_def wait_poll_sel Let_def
    split: probe_state.splits prod.splits if_splits sup_action.splits option.splits)

lemma supervise_Cons:
  assumes "supervise_pass tm io s = (a, s1)"
  shows "fst (supervise tm (io # ios) s) = a # fst (supervise tm ios s1)" and "snd (supervise tm (io # ios) s) = snd (supervise tm ios s1)"
  using assms by (auto split: prod.splits)

lemma spawn_window:
  assumes "k < length ios" and "spawn_attempt (fst (supervise tm ios s) ! k)"
  shows "tm_absent_debounce tm \<le> k + 1 + sv_absent_reads s \<and>
    (\<forall>j \<le> k. k + 1 \<le> j + tm_absent_debounce tm \<longrightarrow> probe_of (ios ! j) = Absent) \<and> \<not> sv_child (snd (supervise tm (take k ios) s))"
  using assms
proof (induction ios arbitrary: s k)
  case (Cons io ios)
  obtain a s1 where pass: "supervise_pass tm io s = (a, s1)" by fastforce
  note run = supervise_Cons [OF pass]
  show ?case
  proof (cases k)
    case 0
    with Cons.prems(2) run(1) have "spawn_attempt a" by simp
    from pass_spawn [OF pass this] 0 show ?thesis by simp
  next
    case (Suc k')
    with Cons.prems run(1) have att: "k' < length ios" "spawn_attempt (fst (supervise tm ios s1) ! k')" by simp_all
    note IH = Cons.IH [OF att]
    note reads = pass_absent_reads [OF pass]
    have "probe_of ((io # ios) ! j) = Absent" if "j \<le> k" "k + 1 \<le> j + tm_absent_debounce tm" for j
    proof (cases j)
      case 0
      with that Suc IH have "0 < sv_absent_reads s1" by simp
      with reads 0 show ?thesis by (auto split: if_splits)
    next
      case (Suc j')
      with that \<open>k = Suc k'\<close> IH show ?thesis by simp
    qed
    moreover have "tm_absent_debounce tm \<le> k + 1 + sv_absent_reads s" using IH reads Suc by (auto split: if_splits)
    moreover have "\<not> sv_child (snd (supervise tm (take k (io # ios)) s))"
      using IH Suc supervise_Cons(2) [OF pass, of "take k' ios"] by simp
    ultimately show ?thesis by blast
  qed
qed simp

text \<open>C37. The supervisor never starts a second app-server and never races one that is there: an
  attempt to start one is made only while no child of its own is running and after the last
  probes, as many as the debounce asks for, all found nothing listening.\<close>

theorem spawns_only_when_absent:
  assumes "k < length ios" and "spawn_attempt (fst (supervise tm ios (supervisor_start tm now)) ! k)"
  shows "tm_absent_debounce tm \<le> k + 1 \<and>
    (\<forall>j \<le> k. k + 1 \<le> j + tm_absent_debounce tm \<longrightarrow> probe_of (ios ! j) = Absent) \<and>
    \<not> sv_child (snd (supervise tm (take k ios) (supervisor_start tm now)))"
  using spawn_window [OF assms] by (simp add: supervisor_start_def)

definition quiet_pass :: pass_io where
  "quiet_pass = \<lparr>io_probe = ConnectFailed, io_probe_time = 1, io_token = None, io_accepts = (\<lambda>_. False), io_verify_time = 0, io_spawns = True,
     io_child_exit = None\<rparr>"

theorem spawns_only_when_absent_witness:
  "fst (supervise default_timings [quiet_pass, quiet_pass] (supervisor_start default_timings 0)) ! 1 = SpawnOk \<and>
   tm_absent_debounce default_timings \<le> 2"
proof -
  let ?run = "fst (supervise default_timings [quiet_pass, quiet_pass] (supervisor_start default_timings 0))"
  have "?run ! 1 = SpawnOk"
    by (simp add: supervise_pass_def quiet_pass_def ready_probe_def on_absent_def unhealthy_def wait_poll_def usize_max_def
      supervisor_start_def default_timings_def Let_def)
  with spawns_only_when_absent [of 1 "[quiet_pass, quiet_pass]" default_timings 0] show ?thesis by simp
qed



section \<open>Adopting the app-server\<close>

definition sane_timings :: "timings \<Rightarrow> bool" where
  "sane_timings tm \<longleftrightarrow> tm_backoff_initial tm \<le> tm_backoff_max tm \<and> tm_verify_backoff_initial tm \<le> tm_verify_backoff_max tm"

definition backoffs_ok :: "timings \<Rightarrow> supervisor \<Rightarrow> bool" where
  "backoffs_ok tm s \<longleftrightarrow> tm_backoff_initial tm \<le> sv_backoff s \<and> sv_backoff s \<le> tm_backoff_max tm \<and>
     tm_verify_backoff_initial tm \<le> sv_verify_backoff s \<and> sv_verify_backoff s \<le> tm_verify_backoff_max tm"

lemma wait_poll_backoffs: "sane_timings tm \<Longrightarrow> backoffs_ok tm s \<Longrightarrow> backoffs_ok tm (wait_poll tm io s)"
  by (auto simp: wait_poll_def backoffs_ok_def sane_timings_def next_backoff_def split: option.splits bool.splits)

lemma pass_backoffs:
  assumes "sane_timings tm" and "backoffs_ok tm s" and "supervise_pass tm io s = (a, s')"
  shows "backoffs_ok tm s'"
proof -
  let ?s = "s\<lparr>sv_now := sv_now s + io_probe_time io\<rparr>"
  have "backoffs_ok tm ?s" using assms(2) by (simp add: backoffs_ok_def)
  then have "backoffs_ok tm (snd (on_ready tm io ?s))" "backoffs_ok tm (on_occupied tm ?s)" "backoffs_ok tm (snd (on_absent tm io ?s))"
    using assms(1) by (auto simp: on_ready_def on_occupied_def on_absent_def unhealthy_def backoffs_ok_def sane_timings_def
      next_backoff_def Let_def)
  with assms(3) wait_poll_backoffs [OF assms(1)] show ?thesis
    by (auto simp: supervise_pass_def Let_def split: probe_state.splits prod.splits sup_action.splits)
qed

lemma pass_verified:
  assumes "supervise_pass tm io s = (a, s')" and "sv_verified s'"
  shows "probe_of io = Ready" and "sv_verified s \<or> (a = Adopt \<and> deep_verify (io_token io) (io_accepts io))"
proof -
  have keep: "sv_verified (wait_poll tm io x) \<Longrightarrow> sv_verified x" for x
    by (auto simp: wait_poll_def split: option.splits bool.splits if_splits)
  show "probe_of io = Ready" "sv_verified s \<or> (a = Adopt \<and> deep_verify (io_token io) (io_accepts io))"
    using assms by (auto simp: supervise_pass_def on_ready_def on_occupied_def on_absent_def unhealthy_def Let_def dest!: keep
      split: probe_state.splits prod.splits if_splits sup_action.splits option.splits)
qed

lemma verified_history:
  assumes "sv_verified (snd (supervise tm ios s))"
  shows "(sv_verified s \<and> (\<forall>io \<in> set ios. probe_of io = Ready)) \<or>
    (\<exists>k < length ios. fst (supervise tm ios s) ! k = Adopt \<and> deep_verify (io_token (ios ! k)) (io_accepts (ios ! k)) \<and>
      (\<forall>j < length ios. k \<le> j \<longrightarrow> probe_of (ios ! j) = Ready))"
  using assms
proof (induction ios arbitrary: s)
  case (Cons io ios)
  obtain a s1 where pass: "supervise_pass tm io s = (a, s1)" by fastforce
  note run = supervise_Cons [OF pass]
  have "sv_verified (snd (supervise tm ios s1))" using Cons.prems run(2) by simp
  from Cons.IH [OF this] show ?case
  proof (elim disjE conjE exE)
    assume v: "sv_verified s1" "\<forall>io \<in> set ios. probe_of io = Ready"
    note first = pass_verified [OF pass v(1)]
    show ?thesis
    proof (cases "sv_verified s")
      case True
      with first v show ?thesis by simp
    next
      case False
      with first v run(1) show ?thesis by (intro disjI2 exI [of _ 0]) (auto simp: nth_Cons split: nat.splits)
    qed
  next
    fix k assume "k < length ios" "fst (supervise tm ios s1) ! k = Adopt"
      "deep_verify (io_token (ios ! k)) (io_accepts (ios ! k))" "\<forall>j < length ios. k \<le> j \<longrightarrow> probe_of (ios ! j) = Ready"
    with run(1) show ?thesis by (intro disjI2 exI [of _ "Suc k"]) (auto simp: nth_Cons split: nat.splits)
  qed
qed simp

lemma supervise_backoffs:
  "sane_timings tm \<Longrightarrow> backoffs_ok tm s \<Longrightarrow> backoffs_ok tm (snd (supervise tm ios s))"
proof (induction ios arbitrary: s)
  case (Cons io ios)
  obtain a s1 where pass: "supervise_pass tm io s = (a, s1)" by fastforce
  with Cons pass_backoffs [OF Cons.prems pass] show ?case by (simp only: supervise_Cons(2) [OF pass])
qed simp

text \<open>The app-server of a pass is ours: it takes the configured token, if there is one, and
  then refuses clients without it.\<close>

definition vouched :: "pass_io \<Rightarrow> bool" where
  "vouched io \<longleftrightarrow> (case io_token io of
      None \<Rightarrow> io_accepts io None
    | Some file \<Rightarrow> (\<exists>contents. file = Inr contents \<and> trim contents \<noteq> [] \<and> io_accepts io (Some (trim contents)) \<and> \<not> io_accepts io None))"

lemma deep_verify_vouched: "deep_verify (io_token io) (io_accepts io) \<longleftrightarrow> vouched io"
  by (auto simp: deep_verify_def vouched_def Let_def split: option.splits sum.splits if_splits)

text \<open>C36. What the supervisor regards as its app-server has been verified since it was last seen
  unhealthy: some pass connected to it, with the configured token if there is one, and made
  sure that it refuses clients without it, and every probe since was answered. Both backoffs
  stay between their initial value and their cap.\<close>

theorem adopted_server_verified:
  assumes "sane_timings tm" and "supervise tm ios (supervisor_start tm now) = (acts, s)"
  shows "backoffs_ok tm s \<and> (sv_verified s \<longrightarrow>
    (\<exists>k < length ios. vouched (ios ! k) \<and> (\<forall>j < length ios. k \<le> j \<longrightarrow> probe_of (ios ! j) = Ready)))"
proof -
  let ?start = "supervisor_start tm now"
  have s: "s = snd (supervise tm ios ?start)" using assms(2) by simp
  have "backoffs_ok tm ?start" using assms(1) by (simp add: supervisor_start_def backoffs_ok_def sane_timings_def)
  then have "backoffs_ok tm s" unfolding s by (rule supervise_backoffs [OF assms(1)])
  moreover have "\<not> sv_verified ?start" by (simp add: supervisor_start_def)
  ultimately show ?thesis using verified_history [of tm ios ?start] unfolding deep_verify_vouched s by blast
qed

definition guarded_pass :: pass_io where
  "guarded_pass = \<lparr>io_probe = Responds [''HTTP/1.1 200 OK'' @ crlf2], io_probe_time = 1, io_token = Some (Inr ''t''),
     io_accepts = (\<lambda>t. t = Some ''t''), io_verify_time = 0, io_spawns = False, io_child_exit = None\<rparr>"

definition brisk_timings :: timings where
  "brisk_timings = \<lparr>tm_poll = 2, tm_probe_timeout = 2, tm_backoff_initial = 1, tm_backoff_max = 3,
     tm_verify_backoff_initial = 1, tm_verify_backoff_max = 3, tm_stable_uptime = 3, tm_absent_debounce = 2\<rparr>"

theorem adopted_server_verified_witness:
  "\<exists>acts s. supervise brisk_timings [quiet_pass, guarded_pass] (supervisor_start brisk_timings 0) = (acts, s) \<and> sv_verified s \<and>
     backoffs_ok brisk_timings s \<and> (\<exists>k < 2. vouched ([quiet_pass, guarded_pass] ! k))"
proof -
  have sane: "sane_timings brisk_timings" by (simp add: sane_timings_def brisk_timings_def)
  obtain acts s where run: "supervise brisk_timings [quiet_pass, guarded_pass] (supervisor_start brisk_timings 0) = (acts, s)" by fastforce
  have ready: "probe_of guarded_pass = Ready"
    by (simp add: guarded_pass_def ready_probe_def first_line_def crlf2_def crlf_def)
  have verify: "deep_verify (io_token guarded_pass) (io_accepts guarded_pass)"
    using trim_solid [of "''t''"] by (simp add: guarded_pass_def deep_verify_def solid_def ws_width_def)
  have "sv_verified s" using run ready verify
    by (auto simp: supervise_pass_def quiet_pass_def on_ready_def on_absent_def unhealthy_def wait_poll_def
      supervisor_start_def brisk_timings_def ready_probe_def Let_def split: prod.splits)
  moreover have "backoffs_ok brisk_timings s \<and> (\<exists>k < 2. vouched ([quiet_pass, guarded_pass] ! k))"
    using adopted_server_verified [OF sane run] \<open>sv_verified s\<close> by (auto simp: numeral_2_eq_2)
  ultimately show ?thesis using run by blast
qed

end
