(* ===== verification/Shim.thy ===== *)
theory Shim
  imports Core
begin

text \<open>
  The Claude Code channel shim (\<open>crates/shim-claude/src/lib.rs\<close>): the MCP server toward the
  harness and the broker link behind it. The state of its tasks is one record; what happens
  next is an event. A tool call that awaits the broker is a waiter: in the channel of calls,
  in the map of pending calls of the connection, or, once its oneshot channel has a result
  or lost its sender, ready to be resumed. The printer of JSON text (\<open>serde_json\<close>) is a
  parameter.
\<close>

definition RECONNECT_MIN :: nat where
  "RECONNECT_MIN = 1000"

definition RECONNECT_MAX :: nat where
  "RECONNECT_MAX = 30000"

definition quote_char :: char where
  "quote_char = CHR 0x22"

definition em_dash :: string where
  "em_dash = [CHR 0xE2, CHR 0x80, CHR 0x94]"

definition INSTRUCTIONS :: string where
  "INSTRUCTIONS = ''This session is connected to AgentWorkplace, a message bus shared '' @
     ''with other coding agents and a human manager. Register once with the `register` tool when asked '' @
     ''to join, then `subscribe` to the channels you are told to work with (prefer existing channels '' @ em_dash @ '' '' @
     ''check `who` first). Bus messages arrive as <channel source='' @ [quote_char] @ ''workplace'' @ [quote_char] @
     ''> events carrying the '' @
     ''bus channel, sender, and thread_id in their attributes; reply with the `send` tool, passing that '' @
     ''thread_id and addressing the originating channel and sender. Keep bus messages compact and '' @
     ''self-contained; a delivered message does not oblige a reply unless one is requested.''"

record shim_config =
  sc_version :: string
  sc_codex_app_server :: "string option"
  sc_auth_token :: "string option"
  sc_pid :: u32
  sc_cwd :: string

section \<open>State\<close>

text \<open>What a tool call does once the broker's answer is there.\<close>

datatype after = AfterRegister "string option" | AfterDeregister | AfterPlain

record waiter =
  w_id :: json
  w_after :: after

record shim_call =
  cl_method :: string
  cl_params :: json
  cl_resp :: "waiter option"

datatype effect = EffRegister json | EffDeregister

record pending_call =
  pc_resp :: "waiter option"
  pc_effect :: "effect option"

record link =
  lk_next_id :: u64
  lk_pending :: "(u64 \<times> pending_call) list"
  lk_sent :: "message list"

record shim =
  sh_mcp :: "json list"
  sh_open :: bool
  sh_calls :: "shim_call list"
  sh_ready :: "((rpc_error + json) \<times> waiter) list"
  sh_block :: "string option"
  sh_binding :: "json option"
  sh_backoff :: nat
  sh_link :: "link option"

definition shim_start :: shim where
  "shim_start = \<lparr>sh_mcp = [], sh_open = True, sh_calls = [], sh_ready = [], sh_block = None, sh_binding = None,
     sh_backoff = RECONNECT_MIN, sh_link = None\<rparr>"

section \<open>Answers to the harness\<close>

definition mcp_send :: "json \<Rightarrow> shim \<Rightarrow> shim" where
  "mcp_send v sh = (if sh_open sh then sh\<lparr>sh_mcp := sh_mcp sh @ [v]\<rparr> else sh)"

definition mcp_respond :: "json \<Rightarrow> json \<Rightarrow> shim \<Rightarrow> shim" where
  "mcp_respond i result = mcp_send (JObj [(''jsonrpc'', JStr ''2.0''), (''id'', i), (''result'', result)])"

definition text_content :: "string \<Rightarrow> (string \<times> json) list" where
  "text_content t = [(''content'', JArr [JObj [(''type'', JStr ''text''), (''text'', JStr t)]])]"

definition tool_error :: "string \<Rightarrow> json" where
  "tool_error msg = JObj (text_content (''Error: '' @ msg) @ [(''isError'', JBool True)])"

definition tool_text :: "string \<Rightarrow> json" where
  "tool_text t = JObj (text_content t)"

definition unreachable_err :: rpc_error where
  "unreachable_err = \<lparr>err_code = -32000,
     err_message = ''AgentWorkplace broker is unreachable; the message was not sent'', err_data = None\<rparr>"

section \<open>Tools\<close>

text \<open>A tool: its name, its description and the schema of its input.\<close>

definition tool_of :: "string \<Rightarrow> string \<Rightarrow> (string \<times> json) list \<Rightarrow> string list \<Rightarrow> json" where
  "tool_of nm description props required = JObj [(''name'', JStr nm), (''description'', JStr description),
     (''inputSchema'', JObj ([(''type'', JStr ''object''), (''properties'', JObj props)]
        @ (if required = [] then [] else [(''required'', JArr (map JStr required))])))]"

definition tool_definitions :: json where
  "tool_definitions = JArr [
     tool_of ''register''
       (''Register this session on the AgentWorkplace bus as a named principal (e.g. @sec-reviewer). '' @
        ''Required before any other bus action. If you are running in Codex, first run `echo '' @
        ''$CODEX_THREAD_ID` in your shell and pass the value as thread_id so the bus can deliver '' @
        ''messages into this session.'')
       [(''name'', JObj [(''type'', JStr ''string''), (''description'', JStr (''Principal name: '' @ [CHR 0x27] @ ''@'' @ [CHR 0x27] @ '' + lowercase alphanumeric/dashes''))]),
        (''thread_id'', JObj [(''type'', JStr ''string''), (''description'', JStr (''Codex only: the value of $CODEX_THREAD_ID from your shell environment''))])]
       [''name''],
     tool_of ''deregister''
       (''Release this session'' @ [CHR 0x27] @ ''s principal name on the bus.'')
       []
       [],
     tool_of ''send''
       (''Send a message on the bus. Address one or more channels, one or more principals, or both (both '' @
        ''= delivered to the listed principals subscribed to the listed channels). Pass thread_id to '' @
        ''reply in an existing thread.'')
       [(''channels'', JObj [(''type'', JStr ''array''), (''items'', JObj [(''type'', JStr ''string'')]), (''description'', JStr (''Channel names, '' @ [CHR 0x27] @ ''#'' @ [CHR 0x27] @ ''-prefixed''))]),
        (''principals'', JObj [(''type'', JStr ''array''), (''items'', JObj [(''type'', JStr ''string'')]), (''description'', JStr (''Principal names, '' @ [CHR 0x27] @ ''@'' @ [CHR 0x27] @ ''-prefixed''))]),
        (''body'', JObj [(''type'', JStr ''string''), (''description'', JStr (''Message body (markdown). Keep it compact and self-contained.''))]),
        (''thread_id'', JObj [(''type'', JStr ''integer''), (''description'', JStr (''Existing thread to reply into; omit to start a new thread''))])]
       [''body''],
     tool_of ''subscribe''
       (''Subscribe this principal to a channel. Messages published after subscribing will be delivered '' @
        ''into this session.'')
       [(''channel'', JObj [(''type'', JStr ''string'')])]
       [''channel''],
     tool_of ''unsubscribe''
       (''Unsubscribe this principal from a channel.'')
       [(''channel'', JObj [(''type'', JStr ''string'')])]
       [''channel''],
     tool_of ''create_channel''
       (''Create a new bus channel. Prefer an existing channel '' @ em_dash @ '' check who first.'')
       [(''name'', JObj [(''type'', JStr ''string''), (''description'', JStr (''Channel name: '' @ [CHR 0x27] @ ''#'' @ [CHR 0x27] @ '' + lowercase alphanumeric/dashes''))])]
       [''name''],
     tool_of ''history''
       (''Read past messages of a channel or a DM thread (pull-only; nothing is delivered '' @
        ''retroactively).'')
       [(''channel'', JObj [(''type'', JStr ''string''), (''description'', JStr (''Channel to read''))]),
        (''dm_with'', JObj [(''type'', JStr ''string''), (''description'', JStr (''Principal whose DM thread with you to read''))]),
        (''before_message_id'', JObj [(''type'', JStr ''integer''), (''description'', JStr (''Cursor: return records before this id''))]),
        (''limit'', JObj [(''type'', JStr ''integer''), (''description'', JStr (''Max records (default 50)''))])]
       [],
     tool_of ''who''
       (''Directory: all channels with their subscribers, and all principals with their active state.'')
       []
       []]"

definition no_app_server :: string where
  "no_app_server = ''thread_id was IGNORED: this shim was launched without --codex-app-server, '' @
     ''so the bus has no push path into this session and deliveries to this '' @
     ''principal will FAIL. Fix the [mcp_servers.workplace] entry to add '' @
     ''--codex-app-server <ws endpoint>, restart the session, and re-register.''"

definition no_thread_id :: string where
  "no_thread_id = ''no thread_id was provided: this shim serves Codex sessions '' @
     ''(--codex-app-server is configured), so the bus has no push path into this '' @
     ''session and deliveries to this principal will FAIL. Run `echo '' @
     ''$CODEX_THREAD_ID`, then deregister and re-register passing it as thread_id.''"

definition or_null :: "json option \<Rightarrow> json" where
  "or_null j = (case j of None \<Rightarrow> JNull | Some v \<Rightarrow> v)"

text \<open>The register parameters, and why deliveries would have no way into the session.\<close>

definition register_call :: "string option \<Rightarrow> json \<Rightarrow> json \<times> string option" where
  "register_call app_server args =
     (let thread = Option.bind (jget ''thread_id'' args) as_str;
          base = [(''name'', or_null (jget ''name'' args))]
      in case (thread, app_server) of
           (Some t, Some a) \<Rightarrow> (JObj (base @ [(''codex'', JObj [(''app_server'', JStr a), (''thread_id'', JStr t)])]), None)
         | (Some t, None) \<Rightarrow> (JObj base, Some no_app_server)
         | (None, Some a) \<Rightarrow> (JObj base, Some no_thread_id)
         | (None, None) \<Rightarrow> (JObj base, None))"

text \<open>What a tool call asks of the broker, or its answer if it asks nothing.\<close>

definition tool_request :: "string option \<Rightarrow> json \<Rightarrow> json + string \<times> json \<times> after" where
  "tool_request app_server params =
     (let nm = (case Option.bind (jget ''name'' params) as_str of None \<Rightarrow> [] | Some n \<Rightarrow> n);
          args = (case jget ''arguments'' params of None \<Rightarrow> JObj [] | Some a \<Rightarrow> a)
      in if nm = ''register'' then
           (case register_call app_server args of (p, no_push) \<Rightarrow> Inr (method_name PRINCIPAL_REGISTER, p, AfterRegister no_push))
         else if nm = ''deregister'' then Inr (method_name PRINCIPAL_DEREGISTER, JObj [], AfterDeregister)
         else if nm = ''send'' then Inr (method_name MESSAGE_SEND, args, AfterPlain)
         else if nm = ''subscribe'' then Inr (method_name CHANNEL_SUBSCRIBE, args, AfterPlain)
         else if nm = ''unsubscribe'' then Inr (method_name CHANNEL_UNSUBSCRIBE, args, AfterPlain)
         else if nm = ''create_channel'' then Inr (method_name CHANNEL_CREATE, args, AfterPlain)
         else if nm = ''history'' then
           (case (jget ''channel'' args, jget ''dm_with'' args) of
              (None, None) \<Rightarrow> Inl (tool_error ''history needs channel or dm_with'')
            | (chan, dm) \<Rightarrow> Inr (method_name HISTORY_GET, JObj [
                (''scope'', case chan of Some c \<Rightarrow> JObj [(''channel'', c)] | None \<Rightarrow> JObj [(''dm_with'', or_null dm)]),
                (''before_message_id'', or_null (jget ''before_message_id'' args)),
                (''limit'', enc_u64 (case Option.bind (jget ''limit'' args) as_u64 of None \<Rightarrow> 50 | Some n \<Rightarrow> n))], AfterPlain))
         else if nm = ''who'' then Inr (method_name DIRECTORY_WHO, JObj [], AfterPlain)
         else Inl (tool_error (''unknown tool: '' @ nm)))"

definition tool_result :: "(json \<Rightarrow> string) \<Rightarrow> after \<Rightarrow> rpc_error + json \<Rightarrow> json" where
  "tool_result show_json aft result = (case result of
      Inl e \<Rightarrow> tool_error (err_message e)
    | Inr v \<Rightarrow> (case aft of
        AfterRegister (Some w) \<Rightarrow> tool_text (show_json v @ newline @ ''WARNING: '' @ w)
      | _ \<Rightarrow> tool_text (show_json v)))"

definition block_after :: "after \<Rightarrow> rpc_error + json \<Rightarrow> string option \<Rightarrow> string option" where
  "block_after aft result block = (case (result, aft) of
      (Inr _, AfterRegister no_push) \<Rightarrow> no_push
    | (Inr _, AfterDeregister) \<Rightarrow> None
    | _ \<Rightarrow> block)"

text \<open>A resumed tool call.\<close>

definition resume_tool :: "(json \<Rightarrow> string) \<Rightarrow> waiter \<Rightarrow> rpc_error + json \<Rightarrow> shim \<Rightarrow> shim" where
  "resume_tool show_json w result sh =
     mcp_respond (w_id w) (tool_result show_json (w_after w) result) (sh\<lparr>sh_block := block_after (w_after w) result (sh_block sh)\<rparr>)"

section \<open>Requests from the harness\<close>

definition initialize_result :: "shim_config \<Rightarrow> json \<Rightarrow> json" where
  "initialize_result cfg params = JObj [
     (''protocolVersion'', JStr (case Option.bind (jget ''protocolVersion'' params) as_str of None \<Rightarrow> ''2025-06-18'' | Some p \<Rightarrow> p)),
     (''capabilities'', JObj [(''experimental'', JObj [(''claude/channel'', JObj [])]), (''tools'', JObj [])]),
     (''serverInfo'', JObj [(''name'', JStr ''workplace''), (''version'', JStr (sc_version cfg))]),
     (''instructions'', JStr INSTRUCTIONS)]"

definition mcp_input :: "shim_config \<Rightarrow> json \<Rightarrow> shim \<Rightarrow> shim" where
  "mcp_input cfg v sh =
     (let method = (case Option.bind (jget ''method'' v) as_str of None \<Rightarrow> [] | Some m \<Rightarrow> m);
          params = or_null (jget ''params'' v)
      in case jget ''id'' v of
           None \<Rightarrow> sh
         | Some i \<Rightarrow>
             if is_null i then sh
             else if method = ''initialize'' then mcp_respond i (initialize_result cfg params) sh
             else if method = ''tools/list'' then mcp_respond i (JObj [(''tools'', tool_definitions)]) sh
             else if method = ''tools/call'' then
               (case tool_request (sc_codex_app_server cfg) params of
                  Inl answer \<Rightarrow> mcp_respond i answer sh
                | Inr (m, p, aft) \<Rightarrow> sh\<lparr>sh_calls := sh_calls sh @ [\<lparr>cl_method = m, cl_params = p, cl_resp = Some \<lparr>w_id = i, w_after = aft\<rparr>\<rparr>]\<rparr>)
             else if method = ''ping'' then mcp_respond i (JObj []) sh
             else mcp_send (JObj [(''jsonrpc'', JStr ''2.0''), (''id'', i),
               (''error'', JObj [(''code'', JNum (-32601)), (''message'', JStr (''method not found: '' @ method))])]) sh)"

section \<open>The broker link\<close>

definition wake :: "rpc_error + json \<Rightarrow> waiter option \<Rightarrow> shim \<Rightarrow> shim" where
  "wake result w sh = (case w of None \<Rightarrow> sh | Some x \<Rightarrow> sh\<lparr>sh_ready := sh_ready sh @ [(result, x)]\<rparr>)"

text \<open>\<open>HashMap::insert\<close>; the entry it replaces is dropped, and with it the sender.\<close>

definition pending_insert :: "u64 \<Rightarrow> pending_call \<Rightarrow> link \<Rightarrow> shim \<Rightarrow> shim" where
  "pending_insert i pc lk sh =
     (let sh' = sh\<lparr>sh_link := Some (lk\<lparr>lk_pending := (i, pc) # filter (\<lambda>p. fst p \<noteq> i) (lk_pending lk)\<rparr>)\<rparr>
      in case map_of (lk_pending lk) i of None \<Rightarrow> sh' | Some old \<Rightarrow> wake (Inl unreachable_err) (pc_resp old) sh')"

text \<open>Write a request under the next id, then note it as pending.\<close>

definition send_request :: "string \<Rightarrow> json \<Rightarrow> pending_call \<Rightarrow> shim \<Rightarrow> shim" where
  "send_request method params pc sh = (case sh_link sh of
      None \<Rightarrow> sh
    | Some lk \<Rightarrow> pending_insert (lk_next_id lk) pc
        (lk\<lparr>lk_next_id := lk_next_id lk + 1, lk_sent := lk_sent lk @ [Request (mk_request (lk_next_id lk) method params)]\<rparr>) sh)"

definition hello_of :: "shim_config \<Rightarrow> hello_params" where
  "hello_of cfg = \<lparr>hp_client_info = \<lparr>ci_harness = Some ''claude-code'', ci_version = sc_version cfg, ci_pid = sc_pid cfg,
     ci_cwd = sc_cwd cfg\<rparr>, hp_auth_token = sc_auth_token cfg\<rparr>"

text \<open>A connection is up: greet, then re-assert the binding.\<close>

definition connected :: "shim_config \<Rightarrow> shim \<Rightarrow> shim" where
  "connected cfg sh =
     (let sh1 = send_request (method_name SESSION_HELLO) (enc_hello_params (hello_of cfg)) \<lparr>pc_resp = None, pc_effect = None\<rparr>
            (sh\<lparr>sh_link := Some \<lparr>lk_next_id = 1, lk_pending = [], lk_sent = []\<rparr>\<rparr>)
      in case sh_binding sh of
           None \<Rightarrow> sh1
         | Some p \<Rightarrow> send_request (method_name PRINCIPAL_REGISTER) p \<lparr>pc_resp = None, pc_effect = Some (EffRegister p)\<rparr> sh1)"

definition effect_of :: "shim_call \<Rightarrow> effect option" where
  "effect_of c = (if cl_method c = method_name PRINCIPAL_REGISTER then Some (EffRegister (cl_params c))
     else if cl_method c = method_name PRINCIPAL_DEREGISTER then Some EffDeregister else None)"

text \<open>The next call from the channel: sent on the connection, or refused while there is none.\<close>

definition take_call :: "shim \<Rightarrow> shim" where
  "take_call sh = (case sh_calls sh of
      [] \<Rightarrow> sh
    | c # cs \<Rightarrow> (case sh_link sh of
        None \<Rightarrow> wake (Inl unreachable_err) (cl_resp c) (sh\<lparr>sh_calls := cs\<rparr>)
      | Some _ \<Rightarrow> send_request (cl_method c) (cl_params c) \<lparr>pc_resp = cl_resp c, pc_effect = effect_of c\<rparr> (sh\<lparr>sh_calls := cs\<rparr>)))"

definition response_to_result :: "response \<Rightarrow> rpc_error + json" where
  "response_to_result resp = (case rs_error resp of Some e \<Rightarrow> Inl e | None \<Rightarrow> Inr (or_null (rs_result resp)))"

definition apply_effect :: "effect option \<Rightarrow> rpc_error + json \<Rightarrow> json option \<Rightarrow> json option" where
  "apply_effect eff result binding = (case (result, eff) of
      (Inr _, Some (EffRegister p)) \<Rightarrow> Some p
    | (Inr _, Some EffDeregister) \<Rightarrow> None
    | _ \<Rightarrow> binding)"

definition on_broker_response :: "response \<Rightarrow> link \<Rightarrow> shim \<Rightarrow> shim" where
  "on_broker_response resp lk sh = (case rs_id resp of
      IdNum i \<Rightarrow> (case map_of (lk_pending lk) i of
          None \<Rightarrow> sh
        | Some pc \<Rightarrow> wake (response_to_result resp) (pc_resp pc)
            (sh\<lparr>sh_binding := apply_effect (pc_effect pc) (response_to_result resp) (sh_binding sh),
                sh_link := Some (lk\<lparr>lk_pending := filter (\<lambda>p. fst p \<noteq> i) (lk_pending lk)\<rparr>)\<rparr>))
    | _ \<Rightarrow> sh)"

definition channel_meta :: "envelope \<Rightarrow> json" where
  "channel_meta e = JObj ([(''sender'', JStr (sender e)), (''thread_id'', JStr (show_u64 (thread_id e))),
     (''message_id'', JStr (show_u64 (message_id e)))] @
     (case to_channels (recipients_of e) of [] \<Rightarrow> [] | c # _ \<Rightarrow> [(''channel'', JStr c)]))"

definition channel_push :: "envelope \<Rightarrow> json" where
  "channel_push e = JObj [(''jsonrpc'', JStr ''2.0''), (''method'', JStr ''notifications/claude/channel''),
     (''params'', JObj [(''content'', JStr (render_delivery e)), (''meta'', channel_meta e)])]"

definition handle_deliver :: "json \<Rightarrow> (shim, rpc_error, json) em" where
  "handle_deliver params sh = (case sh_block sh of
      Some reason \<Rightarrow> (Inl \<lparr>err_code = -32012, err_message = reason, err_data = None\<rparr>, sh)
    | None \<Rightarrow> (case dec_deliver_params params of
        None \<Rightarrow> (Inl \<lparr>err_code = -32602, err_message = ''bad deliver params: '', err_data = None\<rparr>, sh)
      | Some p \<Rightarrow>
          if sh_open sh then (Inr (enc_deliver_result ''relayed''), mcp_send (channel_push (dp_envelope p)) sh)
          else (Inl \<lparr>err_code = -32000, err_message = ''session stdio closed'', err_data = None\<rparr>, sh)))"

definition write_response :: "response \<Rightarrow> shim \<Rightarrow> shim" where
  "write_response resp sh = (case sh_link sh of
      None \<Rightarrow> sh | Some lk \<Rightarrow> sh\<lparr>sh_link := Some (lk\<lparr>lk_sent := lk_sent lk @ [Response resp]\<rparr>)\<rparr>)"

definition on_broker_request :: "request \<Rightarrow> shim \<Rightarrow> shim" where
  "on_broker_request rq sh =
     (if rq_method rq = method_name MESSAGE_DELIVER then
        (case handle_deliver (or_null (rq_params rq)) sh of
           (Inr v, sh') \<Rightarrow> write_response (ok_response (rq_id rq) v) sh'
         | (Inl e, sh') \<Rightarrow> write_response (err_response (rq_id rq) e) sh')
      else write_response (err_response (rq_id rq)
        \<lparr>err_code = -32601, err_message = ''shim does not serve '' @ rq_method rq, err_data = None\<rparr>) sh)"

definition from_broker :: "json \<Rightarrow> shim \<Rightarrow> shim" where
  "from_broker v sh = (case (sh_link sh, from_value v) of
      (Some lk, Some (Request rq)) \<Rightarrow> on_broker_request rq sh
    | (Some lk, Some (Response resp)) \<Rightarrow> on_broker_response resp lk sh
    | _ \<Rightarrow> sh)"

definition grow_backoff :: "shim \<Rightarrow> shim" where
  "grow_backoff sh = sh\<lparr>sh_backoff := min (sh_backoff sh * 2) RECONNECT_MAX\<rparr>"

text \<open>The connection is gone, and with it the senders of the calls pending on it; the backoff
  starts anew if the connection was stable.\<close>

definition connection_lost :: "bool \<Rightarrow> shim \<Rightarrow> shim" where
  "connection_lost was_stable sh = (case sh_link sh of
      None \<Rightarrow> sh
    | Some lk \<Rightarrow>
        (let sh' = fold (\<lambda>p. wake (Inl unreachable_err) (pc_resp (snd p))) (lk_pending lk) (sh\<lparr>sh_link := None\<rparr>)
         in if was_stable then sh'\<lparr>sh_backoff := RECONNECT_MIN\<rparr> else grow_backoff sh'))"

section \<open>Time limits\<close>

text \<open>\<open>CALL_TIMEOUT\<close> of a waiting call: it gives up, and its entry stays where it is with no one to
  tell.\<close>

definition forget_call :: "waiter \<Rightarrow> shim_call \<Rightarrow> shim_call" where
  "forget_call w c = (if cl_resp c = Some w then c\<lparr>cl_resp := None\<rparr> else c)"

definition forget_pending :: "waiter \<Rightarrow> u64 \<times> pending_call \<Rightarrow> u64 \<times> pending_call" where
  "forget_pending w p = (if pc_resp (snd p) = Some w then (fst p, (snd p)\<lparr>pc_resp := None\<rparr>) else p)"

text \<open>The first entry that waits for \<open>w\<close> is forgotten.\<close>

fun forget_first :: "('a \<Rightarrow> bool) \<Rightarrow> ('a \<Rightarrow> 'a) \<Rightarrow> 'a list \<Rightarrow> 'a list" where
  "forget_first P f [] = []"
| "forget_first P f (x # xs) = (if P x then f x # xs else x # forget_first P f xs)"

definition call_times_out :: "waiter \<Rightarrow> shim \<Rightarrow> shim" where
  "call_times_out w sh =
     (if \<exists>c \<in> set (sh_calls sh). cl_resp c = Some w then
        wake (Inl unreachable_err) (Some w)
          (sh\<lparr>sh_calls := forget_first (\<lambda>c. cl_resp c = Some w) (forget_call w) (sh_calls sh)\<rparr>)
      else case sh_link sh of
        None \<Rightarrow> sh
      | Some lk \<Rightarrow> if \<exists>p \<in> set (lk_pending lk). pc_resp (snd p) = Some w then
          wake (Inl unreachable_err) (Some w)
            (sh\<lparr>sh_link := Some (lk\<lparr>lk_pending := forget_first (\<lambda>p. pc_resp (snd p) = Some w) (forget_pending w) (lk_pending lk)\<rparr>)\<rparr>)
          else sh)"

section \<open>Lines\<close>

text \<open>The input loop: a blank or unparseable line is skipped, a line that is not UTF-8 ends it, as
  the end of the input does, and the shim with it.\<close>

definition mcp_line :: "(string \<Rightarrow> json option) \<Rightarrow> shim_config \<Rightarrow> string \<Rightarrow> shim \<Rightarrow> shim" where
  "mcp_line parse_json cfg line sh = (if trim line = [] then sh
     else case parse_json line of None \<Rightarrow> sh | Some v \<Rightarrow> mcp_input cfg v sh)"

fun input_loop :: "(string \<Rightarrow> json option) \<Rightarrow> shim_config \<Rightarrow> string list \<Rightarrow> shim \<Rightarrow> shim" where
  "input_loop parse_json cfg [] sh = sh"
| "input_loop parse_json cfg (line # lines) sh =
     (if \<not> valid_utf8 line then sh else input_loop parse_json cfg lines (mcp_line parse_json cfg line sh))"

text \<open>A line from the broker.\<close>

definition broker_line :: "(string \<Rightarrow> json option) \<Rightarrow> string \<Rightarrow> shim \<Rightarrow> shim" where
  "broker_line parse_json line sh = (if trim line = [] then sh
     else case parse_json line of None \<Rightarrow> sh | Some v \<Rightarrow> from_broker v sh)"

section \<open>Events\<close>

datatype shim_event =
    McpIn json
  | StdoutClosed
  | ConnectFails
  | Connects
  | TakeCall
  | FromBroker json
  | Lost bool
  | TimesOut waiter
  | Resume nat

definition shim_step :: "(json \<Rightarrow> string) \<Rightarrow> shim_config \<Rightarrow> shim_event \<Rightarrow> shim \<Rightarrow> shim" where
  "shim_step show_json cfg ev sh = (case ev of
      McpIn v \<Rightarrow> mcp_input cfg v sh
    | StdoutClosed \<Rightarrow> sh\<lparr>sh_open := False\<rparr>
    | ConnectFails \<Rightarrow> if sh_link sh = None then grow_backoff sh else sh
    | Connects \<Rightarrow> if sh_link sh = None then connected cfg sh else sh
    | TakeCall \<Rightarrow> take_call sh
    | FromBroker v \<Rightarrow> from_broker v sh
    | Lost lasted \<Rightarrow> connection_lost lasted sh
    | TimesOut w \<Rightarrow> call_times_out w sh
    | Resume n \<Rightarrow> if n < length (sh_ready sh) then
        (case sh_ready sh ! n of (result, w) \<Rightarrow>
          resume_tool show_json w result (sh\<lparr>sh_ready := take n (sh_ready sh) @ drop (Suc n) (sh_ready sh)\<rparr>)) else sh)"

definition shim_run :: "(json \<Rightarrow> string) \<Rightarrow> shim_config \<Rightarrow> shim_event list \<Rightarrow> shim \<Rightarrow> shim" where
  "shim_run show_json cfg evs sh = fold (shim_step show_json cfg) evs sh"

text \<open>What the two readers do is a run of events, so that what holds of every run holds of them.\<close>

definition line_values :: "(string \<Rightarrow> json option) \<Rightarrow> string list \<Rightarrow> json list" where
  "line_values parse_json lines =
     List.map_filter (\<lambda>l. if trim l = [] then None else parse_json l) (takeWhile valid_utf8 lines)"

lemma shim_run_simps [simp]: "shim_run show_json cfg [] sh = sh"
  "shim_run show_json cfg (ev # evs) sh = shim_run show_json cfg evs (shim_step show_json cfg ev sh)"
  by (simp_all add: shim_run_def)

lemma input_loop_run:
  "input_loop parse_json cfg lines sh = shim_run show_json cfg (map McpIn (line_values parse_json lines)) sh"
  by (induction lines arbitrary: sh)
    (auto simp: line_values_def mcp_line_def shim_step_def List.map_filter_simps split: option.split)

lemma broker_line_run: "broker_line parse_json line sh = shim_run show_json cfg
    (map FromBroker (List.map_filter (\<lambda>l. if trim l = [] then None else parse_json l) [line])) sh"
  by (simp add: broker_line_def shim_step_def List.map_filter_simps split: option.split)

end
