(* ===== verification/Shim_Properties.thy ===== *)
theory Shim_Properties
  imports
    Shim
    Broker_Demo
    Protocol_Codecs
    "HOL-Library.Multiset"
begin

text \<open>
  What the shim promises: the harness gets exactly one answer per tool call, a delivery is
  acknowledged as relayed exactly when it was put on the session's stdio, and the binding
  the shim re-asserts is one the broker has accepted.
\<close>

section \<open>Accounting for tool calls\<close>

definition opt_ids :: "waiter option \<Rightarrow> json multiset" where
  "opt_ids w = (case w of None \<Rightarrow> {#} | Some x \<Rightarrow> {#w_id x#})"

lemma opt_ids_simps [simp]: "opt_ids None = {#}" "opt_ids (Some x) = {#w_id x#}"
  by (simp_all add: opt_ids_def)

definition calls_ids :: "shim_call list \<Rightarrow> json multiset" where
  "calls_ids cs = (\<Sum>c\<leftarrow>cs. opt_ids (cl_resp c))"

definition pending_ids :: "(u64 \<times> pending_call) list \<Rightarrow> json multiset" where
  "pending_ids ps = (\<Sum>p\<leftarrow>ps. opt_ids (pc_resp (snd p)))"

definition link_ids :: "link option \<Rightarrow> json multiset" where
  "link_ids l = (case l of None \<Rightarrow> {#} | Some lk \<Rightarrow> pending_ids (lk_pending lk))"

definition ready_ids :: "((rpc_error + json) \<times> waiter) list \<Rightarrow> json multiset" where
  "ready_ids rs = (\<Sum>r\<leftarrow>rs. {#w_id (snd r)#})"

text \<open>The ids of the tool calls not answered yet.\<close>

definition outstanding :: "shim \<Rightarrow> json multiset" where
  "outstanding sh = calls_ids (sh_calls sh) + link_ids (sh_link sh) + ready_ids (sh_ready sh)"

text \<open>Tool results are the answers with content.\<close>

definition tool_answer :: "json \<Rightarrow> bool" where
  "tool_answer v \<longleftrightarrow> (case jget ''result'' v of None \<Rightarrow> False | Some r \<Rightarrow> jget ''content'' r \<noteq> None)"

definition answered :: "shim \<Rightarrow> json multiset" where
  "answered sh = (\<Sum>v\<leftarrow>filter tool_answer (sh_mcp sh). {#or_null (jget ''id'' v)#})"

definition asked_in :: "shim_event \<Rightarrow> json multiset" where
  "asked_in ev = (case ev of
      McpIn v \<Rightarrow> (case jget ''id'' v of
          Some i \<Rightarrow> if \<not> is_null i \<and> Option.bind (jget ''method'' v) as_str = Some ''tools/call'' then {#i#} else {#}
        | None \<Rightarrow> {#})
    | _ \<Rightarrow> {#})"

definition asked :: "shim_event list \<Rightarrow> json multiset" where
  "asked evs = (\<Sum>ev\<leftarrow>evs. asked_in ev)"

definition account :: "shim \<Rightarrow> json multiset" where
  "account sh = answered sh + outstanding sh"

definition link_ok :: "shim \<Rightarrow> bool" where
  "link_ok sh \<longleftrightarrow> (\<forall>lk. sh_link sh = Some lk \<longrightarrow> distinct (map fst (lk_pending lk)))"

lemmas account_defs = account_def answered_def outstanding_def calls_ids_def pending_ids_def link_ids_def ready_ids_def

lemma pending_ids_remove:
  assumes "distinct (map fst ps)"
  shows "pending_ids ps = (case map_of ps i of None \<Rightarrow> {#} | Some pc \<Rightarrow> opt_ids (pc_resp pc)) + pending_ids (filter (\<lambda>p. fst p \<noteq> i) ps)"
  using assms
proof (induction ps)
  case (Cons p ps)
  show ?case
  proof (cases "fst p = i")
    case True
    with Cons.prems have "i \<notin> fst ` set ps" by simp
    then have "filter (\<lambda>q. fst q \<noteq> i) ps = ps" by (intro filter_True) force
    with True show ?thesis by (cases p) (simp add: pending_ids_def)
  next
    case False
    with Cons show ?thesis by (cases p) (simp add: pending_ids_def ac_simps)
  qed
qed (simp add: pending_ids_def)

lemma distinct_filter_keys: "distinct (map fst ps) \<Longrightarrow> distinct (map fst (filter P ps))"
  by (simp add: distinct_map_filter)

lemma account_wake: "account (wake r w sh) = account sh + opt_ids w"
  by (cases w) (simp_all add: wake_def account_defs)

lemma wake_sel [simp]: "sh_link (wake r w sh) = sh_link sh" "sh_open (wake r w sh) = sh_open sh"
  "sh_binding (wake r w sh) = sh_binding sh" "sh_mcp (wake r w sh) = sh_mcp sh" "sh_block (wake r w sh) = sh_block sh"
  "sh_backoff (wake r w sh) = sh_backoff sh"
  by (auto simp: wake_def split: option.splits)

lemma account_mcp_send: "sh_open sh \<Longrightarrow> account (mcp_send v sh) = account sh + (if tool_answer v then {#or_null (jget ''id'' v)#} else {#})"
  by (simp add: mcp_send_def account_defs)

lemma mcp_send_sel [simp]: "sh_link (mcp_send v sh) = sh_link sh" "sh_open (mcp_send v sh) = sh_open sh"
  by (simp_all add: mcp_send_def)

lemma account_respond:
  "sh_open sh \<Longrightarrow> account (mcp_respond i r sh) = account sh + (if jget ''content'' r \<noteq> None then {#i#} else {#})"
  by (auto simp: mcp_respond_def account_mcp_send tool_answer_def jget_def or_null_def)

lemma tool_texts: "jget ''content'' (tool_error m) \<noteq> None" "jget ''content'' (tool_text t) \<noteq> None"
  by (simp_all add: tool_error_def tool_text_def text_content_def jget_def)

lemma tool_result_content: "jget ''content'' (tool_result show_json aft r) \<noteq> None"
  by (simp add: tool_result_def tool_error_def tool_text_def text_content_def jget_def split: sum.split after.split option.split)

lemma account_resume:
  "sh_open sh \<Longrightarrow> account (resume_tool show_json w r sh) = account sh + {#w_id w#}"
  by (simp add: resume_tool_def account_respond tool_result_content) (simp add: account_defs)

lemma account_pending_insert:
  assumes "sh_link sh = Some lk0" and "lk_pending lk = lk_pending lk0" and "distinct (map fst (lk_pending lk0))"
  shows "account (pending_insert i pc lk sh) = account sh + opt_ids (pc_resp pc)" and "link_ok (pending_insert i pc lk sh)"
    and "sh_open (pending_insert i pc lk sh) = sh_open sh"
proof -
  let ?lk = "lk\<lparr>lk_pending := (i, pc) # filter (\<lambda>p. fst p \<noteq> i) (lk_pending lk)\<rparr>"
  have "account (sh\<lparr>sh_link := Some ?lk\<rparr>) + (case map_of (lk_pending lk) i of None \<Rightarrow> {#} | Some old \<Rightarrow> opt_ids (pc_resp old)) =
      account sh + opt_ids (pc_resp pc)"
    using pending_ids_remove [OF assms(3), of i] assms(1,2)
    by (simp add: account_def answered_def outstanding_def link_ids_def) (simp add: pending_ids_def ac_simps)
  then show "account (pending_insert i pc lk sh) = account sh + opt_ids (pc_resp pc)"
    by (auto simp: pending_insert_def Let_def account_wake split: option.splits)
  show "sh_open (pending_insert i pc lk sh) = sh_open sh" by (simp add: pending_insert_def Let_def split: option.split)
  show "link_ok (pending_insert i pc lk sh)" using assms(2,3)
    by (auto simp: pending_insert_def Let_def link_ok_def distinct_filter_keys split: option.splits)
qed

lemma account_send_request:
  assumes "link_ok sh" and "sh_link sh \<noteq> None"
  shows "account (send_request m p pc sh) = account sh + opt_ids (pc_resp pc)" and "link_ok (send_request m p pc sh)"
    and "sh_open (send_request m p pc sh) = sh_open sh" and "sh_link (send_request m p pc sh) \<noteq> None"
proof -
  obtain lk where lk: "sh_link sh = Some lk" using assms(2) by blast
  have "distinct (map fst (lk_pending lk))" using assms(1) lk by (simp add: link_ok_def)
  note ins = account_pending_insert [OF lk _ this]
  show "account (send_request m p pc sh) = account sh + opt_ids (pc_resp pc)" "link_ok (send_request m p pc sh)"
    "sh_open (send_request m p pc sh) = sh_open sh" using ins by (simp_all add: send_request_def lk)
  show "sh_link (send_request m p pc sh) \<noteq> None" by (simp add: send_request_def lk pending_insert_def Let_def split: option.split)
qed

lemma tool_request_refused: "tool_request app params = Inl a \<Longrightarrow> jget ''content'' a \<noteq> None"
  by (auto simp: tool_request_def Let_def tool_error_def text_content_def jget_def split: if_splits option.splits prod.splits)

lemma account_mcp_input:
  assumes "sh_open sh"
  shows "account (mcp_input cfg v sh) = account sh + asked_in (McpIn v)"
proof -
  have call: "account (sh\<lparr>sh_calls := sh_calls sh @ [\<lparr>cl_method = m, cl_params = p, cl_resp = Some w\<rparr>]\<rparr>) = account sh + {#w_id w#}" for m p w
    by (simp add: account_defs)
  have other: "jget ''content'' (initialize_result cfg p) = None" "jget ''content'' (JObj [(''tools'', x)]) = None"
    "jget ''content'' (JObj []) = None" for p x
    by (simp_all add: initialize_result_def jget_def)
  have err: "tool_answer (JObj [(''jsonrpc'', a), (''id'', i), (''error'', e)]) = False" for a i e
    by (simp add: tool_answer_def jget_def)
  show ?thesis
  proof (cases "jget ''id'' v")
    case None
    then show ?thesis by (simp add: mcp_input_def asked_in_def Let_def)
  next
    case (Some i)
    show ?thesis
    proof (cases "\<not> is_null i \<and> Option.bind (jget ''method'' v) as_str = Some ''tools/call''")
      case True
      with Some show ?thesis
        by (auto simp: mcp_input_def asked_in_def Let_def account_respond assms call dest: tool_request_refused
          split: sum.splits prod.splits)
    next
      case False
      then have "asked_in (McpIn v) = {#}" using Some by (auto simp: asked_in_def)
      moreover have "account (mcp_input cfg v sh) = account sh" using Some False
        by (auto simp: mcp_input_def Let_def account_respond account_mcp_send assms other err split: option.splits)
      ultimately show ?thesis by simp
    qed
  qed
qed

lemma mcp_input_sel: "sh_link (mcp_input cfg v sh) = sh_link sh" "sh_open (mcp_input cfg v sh) = sh_open sh"
  by (auto simp: mcp_input_def mcp_respond_def Let_def split: option.splits sum.splits)

lemma account_take_call:
  assumes "link_ok sh"
  shows "account (take_call sh) = account sh" and "link_ok (take_call sh)" and "sh_open (take_call sh) = sh_open sh"
proof -
  have "account (take_call sh) = account sh \<and> link_ok (take_call sh) \<and> sh_open (take_call sh) = sh_open sh"
  proof (cases "sh_calls sh")
    case Nil
    with assms show ?thesis by (simp add: take_call_def)
  next
    case (Cons c cs)
    let ?sh = "sh\<lparr>sh_calls := cs\<rparr>"
    have less: "account ?sh + opt_ids (cl_resp c) = account sh" using Cons by (simp add: account_defs ac_simps)
    have ok: "link_ok ?sh" using assms by (simp add: link_ok_def)
    show ?thesis
    proof (cases "sh_link sh")
      case None
      with Cons less ok show ?thesis by (simp add: take_call_def account_wake) (simp add: link_ok_def)
    next
      case (Some lk)
      then have "sh_link ?sh \<noteq> None" by simp
      from account_send_request [OF ok this] less Some Cons show ?thesis by (simp add: take_call_def)
    qed
  qed
  then show "account (take_call sh) = account sh" "link_ok (take_call sh)" "sh_open (take_call sh) = sh_open sh" by blast+
qed

lemma account_connected:
  assumes "sh_link sh = None"
  shows "account (connected cfg sh) = account sh" and "link_ok (connected cfg sh)" and "sh_open (connected cfg sh) = sh_open sh"
proof -
  let ?sh = "sh\<lparr>sh_link := Some \<lparr>lk_next_id = 1, lk_pending = [], lk_sent = []\<rparr>\<rparr>"
  let ?sh1 = "send_request (method_name SESSION_HELLO) (enc_hello_params (hello_of cfg)) \<lparr>pc_resp = None, pc_effect = None\<rparr> ?sh"
  have "account ?sh = account sh" "link_ok ?sh" "sh_link ?sh \<noteq> None" "sh_open ?sh = sh_open sh"
    using assms by (simp_all add: account_defs link_ok_def)
  note first = account_send_request [OF this(2,3), of "method_name SESSION_HELLO" "enc_hello_params (hello_of cfg)"
    "\<lparr>pc_resp = None, pc_effect = None\<rparr>", unfolded this(1) this(4)]
  note second = account_send_request [OF first(2,4)]
  show "account (connected cfg sh) = account sh" "link_ok (connected cfg sh)" "sh_open (connected cfg sh) = sh_open sh"
    using first second by (simp_all add: connected_def Let_def split: option.split)
qed

lemma account_from_broker:
  assumes "link_ok sh" and "sh_open sh"
  shows "account (from_broker v sh) = account sh" and "link_ok (from_broker v sh)" and "sh_open (from_broker v sh)"
proof -
  have wr: "account (write_response r x) = account x" "link_ok x \<Longrightarrow> link_ok (write_response r x)" "sh_open (write_response r x) = sh_open x" for r x
    by (auto simp: write_response_def account_defs link_ok_def split: option.splits)
  have deliver: "account (snd (handle_deliver p sh)) = account sh \<and> link_ok (snd (handle_deliver p sh)) \<and> sh_open (snd (handle_deliver p sh))" for p
    using assms by (auto simp: handle_deliver_def account_mcp_send tool_answer_def channel_push_def jget_def link_ok_def split: option.splits)
  have "account (on_broker_request rq sh) = account sh \<and> link_ok (on_broker_request rq sh) \<and> sh_open (on_broker_request rq sh)" for rq
    using deliver [of "or_null (rq_params rq)"] assms wr
    by (auto simp: on_broker_request_def split: prod.splits sum.splits)
  moreover have "account (on_broker_response resp lk sh) = account sh \<and> link_ok (on_broker_response resp lk sh) \<and> sh_open (on_broker_response resp lk sh)"
    if lk: "sh_link sh = Some lk" for resp lk
  proof (cases "\<exists>i pc. rs_id resp = IdNum i \<and> map_of (lk_pending lk) i = Some pc")
    case True
    then obtain i pc where i: "rs_id resp = IdNum i" "map_of (lk_pending lk) i = Some pc" by blast
    have dist: "distinct (map fst (lk_pending lk))" using assms(1) lk by (simp add: link_ok_def)
    let ?sh = "sh\<lparr>sh_binding := apply_effect (pc_effect pc) (response_to_result resp) (sh_binding sh),
                sh_link := Some (lk\<lparr>lk_pending := filter (\<lambda>p. fst p \<noteq> i) (lk_pending lk)\<rparr>)\<rparr>"
    have "account ?sh + opt_ids (pc_resp pc) = account sh" using pending_ids_remove [OF dist, of i] i lk
      by (simp add: account_def answered_def outstanding_def link_ids_def ac_simps)
    moreover have "link_ok ?sh" using dist by (simp add: link_ok_def distinct_filter_keys)
    then have "link_ok (wake r w ?sh)" for r w unfolding link_ok_def by simp
    ultimately show ?thesis using i assms(2) by (simp add: on_broker_response_def account_wake)
  next
    case False
    with assms show ?thesis by (auto simp: on_broker_response_def split: id.splits option.splits)
  qed
  ultimately show "account (from_broker v sh) = account sh" "link_ok (from_broker v sh)" "sh_open (from_broker v sh)"
    using assms by (auto simp: from_broker_def split: option.splits message.splits)
qed

lemma account_wake_all: "account (fold (\<lambda>p. wake r (pc_resp (snd p))) ps sh) = account sh + pending_ids ps"
proof (induction ps arbitrary: sh)
  case (Cons p ps)
  then show ?case by (simp add: account_wake) (simp add: pending_ids_def ac_simps)
qed (simp add: pending_ids_def)

lemma wake_all_sel: "sh_link (fold (\<lambda>p. wake r (pc_resp (snd p))) ps sh) = sh_link sh"
  "sh_open (fold (\<lambda>p. wake r (pc_resp (snd p))) ps sh) = sh_open sh"
  "sh_binding (fold (\<lambda>p. wake r (pc_resp (snd p))) ps sh) = sh_binding sh"
  "sh_backoff (fold (\<lambda>p. wake r (pc_resp (snd p))) ps sh) = sh_backoff sh"
  by (induction ps arbitrary: sh) simp_all

lemma account_connection_lost:
  assumes "link_ok sh"
  shows "account (connection_lost d sh) = account sh" and "link_ok (connection_lost d sh)" and "sh_open (connection_lost d sh) = sh_open sh"
proof -
  have "account (x\<lparr>sh_backoff := n\<rparr>) = account x" "link_ok (x\<lparr>sh_backoff := n\<rparr>) = link_ok x" for x n
    by (simp_all add: account_defs link_ok_def)
  moreover have "account (sh\<lparr>sh_link := None\<rparr>) + pending_ids (lk_pending lk) = account sh" if "sh_link sh = Some lk" for lk
    using that by (simp add: account_def answered_def outstanding_def link_ids_def ac_simps)
  ultimately show "account (connection_lost d sh) = account sh" "link_ok (connection_lost d sh)" "sh_open (connection_lost d sh) = sh_open sh"
    using assms by (auto simp: connection_lost_def grow_backoff_def Let_def account_wake_all wake_all_sel link_ok_def split: option.splits)
qed

lemma forget_calls:
  "\<exists>c \<in> set cs. cl_resp c = Some w \<Longrightarrow> calls_ids (forget_first (\<lambda>c. cl_resp c = Some w) (forget_call w) cs) + {#w_id w#} = calls_ids cs"
  by (induction cs) (auto simp: calls_ids_def forget_call_def)

lemma forget_pendings:
  "\<exists>p \<in> set ps. pc_resp (snd p) = Some w \<Longrightarrow>
    pending_ids (forget_first (\<lambda>p. pc_resp (snd p) = Some w) (forget_pending w) ps) + {#w_id w#} = pending_ids ps"
  by (induction ps) (auto simp: pending_ids_def forget_pending_def)

lemma forget_keys: "map fst (forget_first (\<lambda>p. pc_resp (snd p) = Some w) (forget_pending w) ps) = map fst ps"
  by (induction ps) (auto simp: forget_pending_def)

lemma account_times_out:
  assumes "link_ok sh"
  shows "account (call_times_out w sh) = account sh" and "link_ok (call_times_out w sh)" and "sh_open (call_times_out w sh) = sh_open sh"
proof -
  have "account (call_times_out w sh) = account sh \<and> link_ok (call_times_out w sh) \<and> sh_open (call_times_out w sh) = sh_open sh"
  proof (cases "\<exists>c \<in> set (sh_calls sh). cl_resp c = Some w")
    case True
    let ?sh = "sh\<lparr>sh_calls := forget_first (\<lambda>c. cl_resp c = Some w) (forget_call w) (sh_calls sh)\<rparr>"
    have "account ?sh + {#w_id w#} = account sh" using forget_calls [OF True]
      by (simp add: account_def answered_def outstanding_def ac_simps)
    with True assms show ?thesis by (simp add: call_times_out_def account_wake) (simp add: link_ok_def)
  next
    case False
    show ?thesis
    proof (cases "\<exists>lk. sh_link sh = Some lk \<and> (\<exists>p \<in> set (lk_pending lk). pc_resp (snd p) = Some w)")
      case True
      then obtain lk where lk: "sh_link sh = Some lk" and p: "\<exists>p \<in> set (lk_pending lk). pc_resp (snd p) = Some w" by blast
      let ?sh = "sh\<lparr>sh_link := Some (lk\<lparr>lk_pending := forget_first (\<lambda>p. pc_resp (snd p) = Some w) (forget_pending w) (lk_pending lk)\<rparr>)\<rparr>"
      have "account ?sh + {#w_id w#} = account sh" using forget_pendings [OF p] lk
        by (simp add: account_def answered_def outstanding_def link_ids_def ac_simps)
      moreover have "link_ok ?sh" using assms lk by (simp add: link_ok_def forget_keys)
      then have "link_ok (wake r x ?sh)" for r x unfolding link_ok_def by simp
      ultimately show ?thesis using False lk p by (simp add: call_times_out_def account_wake)
    next
      case no: False
      with False assms have "call_times_out w sh = sh" by (cases "sh_link sh") (auto simp: call_times_out_def)
      with assms show ?thesis by simp
    qed
  qed
  then show "account (call_times_out w sh) = account sh" "link_ok (call_times_out w sh)" "sh_open (call_times_out w sh) = sh_open sh" by blast+
qed

lemma ready_ids_take:
  assumes "n < length rs"
  shows "ready_ids (take n rs @ drop (Suc n) rs) + {#w_id (snd (rs ! n))#} = ready_ids rs"
proof -
  have "ready_ids (take n rs @ rs ! n # drop (Suc n) rs) = ready_ids rs" using assms by (simp add: id_take_nth_drop [symmetric])
  then show ?thesis by (simp add: ready_ids_def ac_simps)
qed

lemma account_step:
  assumes "link_ok sh" and "sh_open (shim_step show_json cfg ev sh)"
  shows "account (shim_step show_json cfg ev sh) = account sh + asked_in ev" and "link_ok (shim_step show_json cfg ev sh)" and "sh_open sh"
proof -
  let ?sh = "shim_step show_json cfg ev sh"
  have "account ?sh = account sh + asked_in ev \<and> link_ok ?sh \<and> sh_open sh"
  proof (cases ev)
    case (McpIn v)
    with assms account_mcp_input [of sh cfg v] show ?thesis by (simp add: shim_step_def mcp_input_sel link_ok_def)
  next
    case ConnectFails
    with assms show ?thesis by (auto simp: shim_step_def grow_backoff_def account_defs link_ok_def asked_in_def split: if_splits)
  next
    case Connects
    with assms account_connected [of sh cfg] show ?thesis by (auto simp: shim_step_def asked_in_def split: if_splits)
  next
    case TakeCall
    with assms account_take_call [of sh] show ?thesis by (simp add: shim_step_def asked_in_def)
  next
    case (FromBroker v)
    show ?thesis
    proof (cases "sh_open sh")
      case True
      with FromBroker account_from_broker [OF assms(1), of v] show ?thesis by (simp add: shim_step_def asked_in_def)
    next
      case False
      then have "\<not> sh_open (from_broker v sh)"
        by (auto simp: from_broker_def on_broker_request_def handle_deliver_def write_response_def on_broker_response_def
          split: option.splits message.splits id.splits prod.splits sum.splits if_splits)
      with FromBroker assms(2) show ?thesis by (simp add: shim_step_def)
    qed
  next
    case (Lost d)
    with assms account_connection_lost [of sh d] show ?thesis by (simp add: shim_step_def asked_in_def)
  next
    case (TimesOut w)
    with assms account_times_out [of sh w] show ?thesis by (simp add: shim_step_def asked_in_def)
  next
    case (Resume n)
    show ?thesis
    proof (cases "n < length (sh_ready sh)")
      case True
      obtain r w where rw: "sh_ready sh ! n = (r, w)" by fastforce
      let ?rest = "sh\<lparr>sh_ready := take n (sh_ready sh) @ drop (Suc n) (sh_ready sh)\<rparr>"
      have less: "account ?rest + {#w_id w#} = account sh" using ready_ids_take [OF True] rw
        by (simp add: account_def answered_def outstanding_def ac_simps)
      have step: "?sh = resume_tool show_json w r ?rest" using Resume True rw by (simp add: shim_step_def)
      have "sh_open sh" using assms(2) unfolding step by (simp add: resume_tool_def mcp_respond_def)
      moreover have "account ?sh = account sh" unfolding step using account_resume [of ?rest show_json w r] less calculation by simp
      moreover have "link_ok ?sh" unfolding step using assms(1) by (simp add: resume_tool_def mcp_respond_def link_ok_def)
      ultimately show ?thesis using Resume by (simp add: asked_in_def)
    next
      case False
      with Resume assms show ?thesis by (simp add: shim_step_def asked_in_def)
    qed
  qed (use assms in \<open>simp add: shim_step_def\<close>)
  then show "account ?sh = account sh + asked_in ev" "link_ok ?sh" "sh_open sh" by blast+
qed

text \<open>A closed stdout stays closed.\<close>

lemma send_request_open: "sh_open (send_request m p pc sh) = sh_open sh"
  by (simp add: send_request_def pending_insert_def Let_def split: option.split)

lemma step_open: "sh_open (shim_step show_json cfg ev sh) \<Longrightarrow> sh_open sh"
proof (cases ev)
  case (FromBroker v)
  then show "sh_open (shim_step show_json cfg ev sh) \<Longrightarrow> sh_open sh"
    by (auto simp: shim_step_def from_broker_def on_broker_request_def handle_deliver_def write_response_def on_broker_response_def
      split: option.splits message.splits id.splits prod.splits sum.splits if_splits)
qed (auto simp: shim_step_def mcp_input_sel grow_backoff_def connected_def Let_def send_request_open take_call_def connection_lost_def
    wake_all_sel call_times_out_def resume_tool_def mcp_respond_def split: if_splits option.splits list.splits prod.splits)

lemma run_open: "sh_open (shim_run show_json cfg evs sh) \<Longrightarrow> sh_open sh"
  by (induction evs arbitrary: sh) (auto simp: shim_run_def dest: step_open)

lemma account_run:
  assumes "link_ok sh" and "sh_open (shim_run show_json cfg evs sh)"
  shows "account (shim_run show_json cfg evs sh) = account sh + asked evs"
  using assms
proof (induction evs arbitrary: sh)
  case (Cons ev evs)
  let ?sh = "shim_step show_json cfg ev sh"
  have run: "shim_run show_json cfg (ev # evs) sh = shim_run show_json cfg evs ?sh" by (simp add: shim_run_def)
  have "sh_open ?sh" using run_open Cons.prems(2) unfolding run .
  note step = account_step [OF Cons.prems(1) this]
  from Cons.IH [OF step(2)] Cons.prems(2) step(1) run show ?case by (simp add: asked_def ac_simps)
qed (simp add: shim_run_def asked_def)

text \<open>C28. Every tool call of the harness is answered once: whatever lines arrive from the harness
  and the broker and however connections, time-outs and resumptions interleave, the calls
  asked are those answered and those still waiting, each counted as often as it was asked,
  as long as the session's stdout is open. A call without an answer is never lost and none
  is answered twice.\<close>

theorem tool_calls_answered_once:
  assumes "sh_open (shim_run show_json cfg evs shim_start)"
  shows "asked evs = answered (shim_run show_json cfg evs shim_start) + outstanding (shim_run show_json cfg evs shim_start)"
proof -
  have "link_ok shim_start" "account shim_start = {#}" by (simp_all add: shim_start_def link_ok_def account_defs)
  with account_run [OF _ assms] show ?thesis by (simp add: account_def)
qed

definition demo_shim :: shim_config where
  "demo_shim = \<lparr>sc_version = ''1'', sc_codex_app_server = Some ''ws://127.0.0.1:1'', sc_auth_token = None, sc_pid = 7, sc_cwd = ''c''\<rparr>"

definition tool_call :: "nat \<Rightarrow> string \<Rightarrow> (string \<times> json) list \<Rightarrow> shim_event" where
  "tool_call i nm args = McpIn (JObj [(''id'', JNum (int i)), (''method'', JStr ''tools/call''),
     (''params'', JObj [(''name'', JStr nm), (''arguments'', JObj args)])])"

theorem tool_calls_answered_once_witness:
  "asked [tool_call 1 ''who'' [], tool_call 2 ''nope'' [], TakeCall, Resume 0] =
     answered (shim_run (\<lambda>_. []) demo_shim [tool_call 1 ''who'' [], tool_call 2 ''nope'' [], TakeCall, Resume 0] shim_start) \<and>
   asked [tool_call 1 ''who'' [], tool_call 2 ''nope'' [], TakeCall, Resume 0] = {#JNum 1, JNum 2#}"
proof -
  let ?evs = "[tool_call 1 ''who'' [], tool_call 2 ''nope'' [], TakeCall, Resume 0]"
  let ?run = "shim_run (\<lambda>_. []) demo_shim ?evs shim_start"
  have "sh_open ?run \<and> sh_calls ?run = [] \<and> sh_link ?run = None \<and> sh_ready ?run = []" by code_simp
  then have "sh_open ?run" "outstanding ?run = {#}" by (simp_all add: outstanding_def calls_ids_def link_ids_def ready_ids_def)
  moreover have "asked ?evs = {#JNum 1, JNum 2#}"
    by (simp add: asked_def asked_in_def tool_call_def jget_def is_null_def as_str_def)
  ultimately show ?thesis using tool_calls_answered_once [of "\<lambda>_. []" demo_shim ?evs] by simp
qed

section \<open>The binding and the backoff\<close>

fun effect_sent :: "u64 \<Rightarrow> effect option \<Rightarrow> message list \<Rightarrow> bool" where
  "effect_sent i None sent = True"
| "effect_sent i (Some (EffRegister p)) sent = (Request (mk_request i (method_name PRINCIPAL_REGISTER) p) \<in> set sent)"
| "effect_sent i (Some EffDeregister) sent = (\<exists>p. Request (mk_request i (method_name PRINCIPAL_DEREGISTER) p) \<in> set sent)"

definition sent_ok :: "shim \<Rightarrow> bool" where
  "sent_ok sh \<longleftrightarrow> RECONNECT_MIN \<le> sh_backoff sh \<and> sh_backoff sh \<le> RECONNECT_MAX \<and>
     (\<forall>lk. sh_link sh = Some lk \<longrightarrow> (\<forall>x \<in> set (lk_pending lk). effect_sent (fst x) (pc_effect (snd x)) (lk_sent lk)))"

lemma effect_sent_append: "effect_sent i eff sent \<Longrightarrow> effect_sent i eff (sent @ further)"
  by (cases "(i, eff, sent)" rule: effect_sent.cases) auto

lemma sent_ok_cong: "sh_backoff sh' = sh_backoff sh \<Longrightarrow> sh_link sh' = sh_link sh \<Longrightarrow> sent_ok sh' = sent_ok sh"
  by (simp add: sent_ok_def)

lemma sent_ok_wake [simp]: "sent_ok (wake r w sh) = sent_ok sh"
  by (rule sent_ok_cong) simp_all

lemma sent_ok_respond [simp]: "sent_ok (mcp_respond i r sh) = sent_ok sh" "sent_ok (mcp_send v sh) = sent_ok sh"
  by (auto intro!: sent_ok_cong simp: mcp_respond_def mcp_send_def)

lemma sent_ok_send_request:
  assumes "sent_ok sh" and "\<And>i sent. effect_sent i (pc_effect pc) (sent @ [Request (mk_request i m p)])"
  shows "sent_ok (send_request m p pc sh)"
proof (cases "sh_link sh")
  case None
  with assms show ?thesis by (simp add: send_request_def)
next
  case (Some lk)
  define i lk' where "i = lk_next_id lk" and
    "lk' = lk\<lparr>lk_next_id := i + 1, lk_sent := lk_sent lk @ [Request (mk_request i m p)], lk_pending := (i, pc) # filter (\<lambda>x. fst x \<noteq> i) (lk_pending lk)\<rparr>"
  have "\<forall>x \<in> set (lk_pending lk). effect_sent (fst x) (pc_effect (snd x)) (lk_sent lk @ [Request (mk_request i m p)])"
    using assms(1) Some by (auto simp: sent_ok_def intro: effect_sent_append)
  with assms have "sent_ok (sh\<lparr>sh_link := Some lk'\<rparr>)" by (simp add: sent_ok_def lk'_def)
  then have "sent_ok (pending_insert i pc (lk\<lparr>lk_next_id := i + 1, lk_sent := lk_sent lk @ [Request (mk_request i m p)]\<rparr>) sh)"
    by (simp add: pending_insert_def Let_def lk'_def split: option.split)
  with Some show ?thesis by (simp add: send_request_def i_def)
qed

lemma effect_of_sent: "effect_sent i (effect_of c) (sent @ [Request (mk_request i (cl_method c) (cl_params c))])"
  by (auto simp: effect_of_def)

lemma sent_ok_step:
  assumes "sent_ok sh"
  shows "sent_ok (shim_step show_json cfg ev sh)"
proof (cases ev)
  case (McpIn v)
  have "sent_ok (mcp_input cfg v sh)" using assms
    by (auto simp: mcp_input_def Let_def sent_ok_def [of "sh\<lparr>sh_calls := _\<rparr>"] split: option.splits sum.splits) (auto simp: sent_ok_def)
  with McpIn show ?thesis by (simp add: shim_step_def)
next
  case ConnectFails
  with assms show ?thesis by (auto simp: shim_step_def grow_backoff_def sent_ok_def RECONNECT_MIN_def RECONNECT_MAX_def)
next
  case Connects
  show ?thesis
  proof (cases "sh_link sh = None")
    case True
    have "sent_ok (sh\<lparr>sh_link := Some \<lparr>lk_next_id = 1, lk_pending = [], lk_sent = []\<rparr>\<rparr>)" using assms by (simp add: sent_ok_def)
    then have "sent_ok (connected cfg sh)" unfolding connected_def Let_def
      by (auto split: option.splits intro!: sent_ok_send_request)
    with Connects True show ?thesis by (simp add: shim_step_def)
  qed (use assms Connects in \<open>auto simp: shim_step_def\<close>)
next
  case TakeCall
  have "sent_ok (sh\<lparr>sh_calls := cs\<rparr>)" for cs using assms by (simp add: sent_ok_def)
  then have "sent_ok (take_call sh)" using assms effect_of_sent
    by (auto simp: take_call_def split: list.splits option.splits intro!: sent_ok_send_request)
  with TakeCall show ?thesis by (simp add: shim_step_def)
next
  case (FromBroker v)
  have w: "sent_ok (write_response r x)" if "sent_ok x" for r x
    using that by (auto simp: write_response_def sent_ok_def split: option.splits intro: effect_sent_append)
  have "sent_ok (on_broker_request rq sh)" for rq using assms
    by (auto simp: on_broker_request_def handle_deliver_def intro!: w split: option.splits prod.splits sum.splits if_splits)
  moreover have "sent_ok (on_broker_response resp lk sh)" if "sh_link sh = Some lk" for resp lk
    using assms that by (auto simp: on_broker_response_def split: id.splits option.splits) (auto simp: sent_ok_def)
  ultimately have "sent_ok (from_broker v sh)" using assms
    by (auto simp: from_broker_def split: option.splits message.splits)
  with FromBroker show ?thesis by (simp add: shim_step_def)
next
  case (Lost d)
  have "sent_ok (connection_lost d sh)" using assms
    by (auto simp: connection_lost_def Let_def grow_backoff_def sent_ok_def RECONNECT_MIN_def RECONNECT_MAX_def wake_all_sel
      split: option.splits)
  with Lost show ?thesis by (simp add: shim_step_def)
next
  case (TimesOut w)
  have "\<forall>x \<in> set (forget_first (\<lambda>p. pc_resp (snd p) = Some w) (forget_pending w) ps). effect_sent (fst x) (pc_effect (snd x)) sent"
    if "\<forall>x \<in> set ps. effect_sent (fst x) (pc_effect (snd x)) sent" for ps sent
    using that by (induction ps) (auto simp: forget_pending_def)
  with TimesOut assms show ?thesis
    by (auto simp: shim_step_def call_times_out_def sent_ok_def split: option.splits)
next
  case (Resume n)
  with assms show ?thesis by (auto simp: shim_step_def resume_tool_def split: prod.splits) (auto simp: sent_ok_def)
qed (use assms in \<open>simp add: shim_step_def sent_ok_def\<close>)

lemma sent_ok_run: "sent_ok sh \<Longrightarrow> sent_ok (shim_run show_json cfg evs sh)"
  by (induction evs arbitrary: sh) (auto simp: shim_run_def intro: sent_ok_step)

lemma mcp_send_binding [simp]: "sh_binding (mcp_send v sh) = sh_binding sh" "sh_binding (mcp_respond i r sh) = sh_binding sh"
  by (simp_all add: mcp_send_def mcp_respond_def)

lemma send_request_binding [simp]: "sh_binding (send_request m p pc sh) = sh_binding sh"
  by (simp add: send_request_def pending_insert_def Let_def split: option.split)

lemma request_binding: "sh_binding (on_broker_request rq sh) = sh_binding sh"
  by (auto simp: on_broker_request_def handle_deliver_def write_response_def split: option.splits prod.splits sum.splits if_splits)

lemma response_changes_binding:
  assumes "sh_binding (on_broker_response resp lk sh) \<noteq> sh_binding sh"
  shows "\<exists>i pc. rs_id resp = IdNum i \<and> (i, pc) \<in> set (lk_pending lk) \<and> rs_error resp = None \<and>
    (case sh_binding (on_broker_response resp lk sh) of Some p \<Rightarrow> pc_effect pc = Some (EffRegister p) | None \<Rightarrow> pc_effect pc = Some EffDeregister)"
proof -
  from assms obtain i pc where i: "rs_id resp = IdNum i" "map_of (lk_pending lk) i = Some pc"
    by (auto simp: on_broker_response_def split: id.splits option.splits)
  then have "(i, pc) \<in> set (lk_pending lk)" by (simp add: map_of_SomeD)
  moreover have new: "sh_binding (on_broker_response resp lk sh) = apply_effect (pc_effect pc) (response_to_result resp) (sh_binding sh)"
    using i by (simp add: on_broker_response_def)
  ultimately show ?thesis using assms i
    by (auto simp: apply_effect_def response_to_result_def split: option.splits sum.splits effect.splits)
qed


text \<open>The harness asks to register as \<open>@a\<close>; the shim connects and sends the request as its second.\<close>

definition demo_events :: "shim_event list" where
  "demo_events = [tool_call 1 ''register'' [(''name'', JStr ''@a'')], Connects, TakeCall]"

definition demo_accept :: shim_event where
  "demo_accept = FromBroker (to_line (Response (ok_response (IdNum 2) (JBool True))))"


section \<open>Delivery, end to end\<close>

lemma dec_enc_deliver_params: "dec_deliver_params (enc_deliver_params p) = Some p"
  by (simp add: dec_deliver_params_def enc_deliver_params_def codec_simps dec_enc_envelope)

text \<open>Why the shim refuses a delivery.\<close>

definition no_way_in :: "shim \<Rightarrow> string option" where
  "no_way_in sh = (case sh_block sh of Some reason \<Rightarrow> Some reason
     | None \<Rightarrow> if sh_open sh then None else Some ''session stdio closed'')"

lemma deliver_run:
  assumes "sh_link sh = Some lk"
    and line_def: "line = to_line (Request (mk_request i (method_name MESSAGE_DELIVER) (enc_deliver_params \<lparr>dp_recipient = r, dp_envelope = e\<rparr>)))"
  shows "\<exists>resp. map_option lk_sent (sh_link (from_broker line sh)) = Some (lk_sent lk @ [Response resp]) \<and>
    sh_mcp (from_broker line sh) = sh_mcp sh @ (if no_way_in sh = None then [channel_push e] else []) \<and>
    from_value (to_line (Response resp)) = Some (Response resp) \<and> rs_id resp = IdNum i \<and> rs_jsonrpc resp = ''2.0'' \<and>
    (case no_way_in sh of None \<Rightarrow> rs_error resp = None | Some reason \<Rightarrow> \<exists>err. rs_error resp = Some err \<and> err_message err = reason)"
proof -
  have line: "from_value line = Some (Request (mk_request i (method_name MESSAGE_DELIVER) (enc_deliver_params \<lparr>dp_recipient = r, dp_envelope = e\<rparr>)))"
    unfolding line_def by (rule from_value_request) (simp_all add: mk_request_def enc_deliver_params_def)
  have refuse: ?thesis if "handle_deliver (enc_deliver_params \<lparr>dp_recipient = r, dp_envelope = e\<rparr>) sh = (Inl err, sh)"
    "no_way_in sh = Some (err_message err)" "dec_i64 (JNum (err_code err)) = Some (err_code err)" "err_data err = None" for err
  proof (intro exI [of _ "err_response (IdNum i) err"])
    have "from_broker line sh = write_response (err_response (IdNum i) err) sh"
      using that(1) line assms(1) by (simp add: from_broker_def on_broker_request_def mk_request_def or_null_def)
    moreover have "from_value (to_line (Response (err_response (IdNum i) err))) = Some (Response (err_response (IdNum i) err))"
      by (rule from_value_err_response) (use that in simp_all)
    ultimately show "map_option lk_sent (sh_link (from_broker line sh)) = Some (lk_sent lk @ [Response (err_response (IdNum i) err)]) \<and>
      sh_mcp (from_broker line sh) = sh_mcp sh @ (if no_way_in sh = None then [channel_push e] else []) \<and>
      from_value (to_line (Response (err_response (IdNum i) err))) = Some (Response (err_response (IdNum i) err)) \<and>
      rs_id (err_response (IdNum i) err) = IdNum i \<and> rs_jsonrpc (err_response (IdNum i) err) = ''2.0'' \<and>
      (case no_way_in sh of None \<Rightarrow> rs_error (err_response (IdNum i) err) = None
        | Some reason \<Rightarrow> \<exists>x. rs_error (err_response (IdNum i) err) = Some x \<and> err_message x = reason)"
      using that assms(1) by (simp add: write_response_def err_response_def del: to_line.simps)
  qed
  show ?thesis
  proof (cases "sh_block sh")
    case (Some reason)
    show ?thesis by (rule refuse [of "\<lparr>err_code = -32012, err_message = reason, err_data = None\<rparr>"])
      (simp_all add: handle_deliver_def no_way_in_def Some dec_i64_def)
  next
    case block: None
    show ?thesis
    proof (cases "sh_open sh")
      case False
      show ?thesis by (rule refuse [of "\<lparr>err_code = -32000, err_message = ''session stdio closed'', err_data = None\<rparr>"])
        (simp_all add: handle_deliver_def no_way_in_def block False dec_enc_deliver_params dec_i64_def)
    next
      case True
      let ?resp = "ok_response (IdNum i) (enc_deliver_result ''relayed'')"
      have "from_broker line sh = write_response ?resp (mcp_send (channel_push e) sh)"
        using line assms(1) block True
        by (simp add: from_broker_def on_broker_request_def mk_request_def or_null_def handle_deliver_def dec_enc_deliver_params)
      moreover have "from_value (to_line (Response ?resp)) = Some (Response ?resp)"
        unfolding from_value_ok_response by (simp add: ok_response_def enc_deliver_result_def)
      ultimately show ?thesis using assms(1) block True
        by (intro exI [of _ ?resp]) (simp add: write_response_def mcp_send_def no_way_in_def ok_response_def del: to_line.simps)
    qed
  qed
qed

text \<open>C30. A delivery from the broker into a Claude session, end to end. The shim answers the
  broker's delivery request with one response. If the message was put on the session's
  stdio, exactly once and as a channel event that shows it, the broker records it as
  relayed; if the shim has no way into the session, nothing is put there and the broker
  records the delivery as failed, with the shim's reason. Nothing is lost silently.\<close>

theorem delivery_end_to_end:
  assumes "sh_link sh = Some lk"
    and "map_of (s_pending (the_session sid b)) i = Some \<lparr>d_recipient = r, d_envelope = e, d_tracked = True\<rparr>"
    and "line = to_line (Request (mk_request i (method_name MESSAGE_DELIVER) (enc_deliver_params \<lparr>dp_recipient = r, dp_envelope = e\<rparr>)))"
  shows "\<exists>resp. map_option lk_sent (sh_link (from_broker line sh)) = Some (lk_sent lk @ [Response resp]) \<and>
    sh_mcp (from_broker line sh) = sh_mcp sh @ (if no_way_in sh = None then [channel_push e] else []) \<and>
    (\<forall>parse_json answer_text. \<not> blank answer_text \<longrightarrow> parse_json answer_text = Some (to_line (Response resp)) \<longrightarrow>
      handle_line parse_json sid answer_text b =
        ack_update (message_id e) r (if no_way_in sh = None then Relayed else Failed) (no_way_in sh)
          (upd_session sid (\<lambda>s. snd (resolve_response resp s)) b))"
proof -
  let ?line = "to_line (Request (mk_request i (method_name MESSAGE_DELIVER) (enc_deliver_params \<lparr>dp_recipient = r, dp_envelope = e\<rparr>)))"
  from deliver_run [OF assms(1) refl, of i r e] obtain resp where
    sent: "map_option lk_sent (sh_link (from_broker ?line sh)) = Some (lk_sent lk @ [Response resp])"
      "sh_mcp (from_broker ?line sh) = sh_mcp sh @ (if no_way_in sh = None then [channel_push e] else [])" and
    resp: "from_value (to_line (Response resp)) = Some (Response resp)" "rs_id resp = IdNum i" "rs_jsonrpc resp = ''2.0''"
      "case no_way_in sh of None \<Rightarrow> rs_error resp = None | Some reason \<Rightarrow> \<exists>err. rs_error resp = Some err \<and> err_message err = reason"
    by (auto simp del: to_line.simps)
  have "handle_line parse_json sid answer_text b =
        ack_update (message_id e) r (if no_way_in sh = None then Relayed else Failed) (no_way_in sh)
          (upd_session sid (\<lambda>s. snd (resolve_response resp s)) b)"
    if "\<not> blank answer_text" "parse_json answer_text = Some (to_line (Response resp))" for parse_json answer_text
    using that resp assms(2)
    by (cases "no_way_in sh") (auto simp: handle_line_def handle_message_def on_response_def resolve_response_def [of resp "the_session sid b"]
      deliver_result_def simp del: to_line.simps)
  with sent show ?thesis unfolding assms(3) by blast
qed

definition demo_envelope :: envelope where
  "demo_envelope = \<lparr>message_id = 5, thread_id = 5, timestamp = 1, sender = ''@b'',
     recipients_of = \<lparr>to_channels = [], to_principals = [''@a'']\<rparr>, body = ''hi'', truncated = False\<rparr>"

definition demo_delivery :: deliver_params where
  "demo_delivery = \<lparr>dp_recipient = ''@a'', dp_envelope = demo_envelope\<rparr>"

text \<open>The broker after it has issued the delivery on session 1.\<close>

definition demo_delivering :: broker where
  "demo_delivering = upd_session 1 (call_start (method_name MESSAGE_DELIVER) (enc_deliver_params demo_delivery)
     \<lparr>d_recipient = ''@a'', d_envelope = demo_envelope, d_tracked = True\<rparr>) demo_connected"

theorem delivery_end_to_end_witness:
  "sh_mcp (from_broker (to_line (Request (mk_request 1 (method_name MESSAGE_DELIVER) (enc_deliver_params demo_delivery))))
     (connected demo_shim shim_start)) = [channel_push demo_envelope]"
proof -
  let ?sh = "connected demo_shim shim_start"
  have "map_option d_recipient (map_of (s_pending (the_session 1 demo_delivering)) 1) = Some ''@a'' \<and>
      map_option d_tracked (map_of (s_pending (the_session 1 demo_delivering)) 1) = Some True \<and>
      map_option d_envelope (map_of (s_pending (the_session 1 demo_delivering)) 1) = Some demo_envelope"
    by code_simp
  then have p: "map_of (s_pending (the_session 1 demo_delivering)) 1 = Some \<lparr>d_recipient = ''@a'', d_envelope = demo_envelope, d_tracked = True\<rparr>"
    by (cases "map_of (s_pending (the_session 1 demo_delivering)) 1") (auto intro: delivery.equality)
  have "sh_link ?sh \<noteq> None \<and> sh_mcp ?sh = [] \<and> no_way_in ?sh = None" by code_simp
  then obtain lk where "sh_link ?sh = Some lk" "sh_mcp ?sh = []" "no_way_in ?sh = None" by auto
  from delivery_end_to_end [OF this(1) p refl] this(2,3) show ?thesis by (auto simp: demo_delivery_def simp del: to_line.simps)
qed

section \<open>Two windows\<close>

text \<open>Until the tool call that registered the session is resumed, the shim does not know yet that
  deliveries have no way in: the first one after the broker's answer is acknowledged as
  relayed.\<close>

definition first_delivery :: shim_event where
  "first_delivery = FromBroker (to_line (Request (mk_request 1 (method_name MESSAGE_DELIVER) (enc_deliver_params demo_delivery))))"

lemma delivery_races_registration:
  "(let sh = shim_run (\<lambda>_. []) demo_shim (demo_events @ [demo_accept, first_delivery, Resume 0]) shim_start
    in sh_block sh = Some no_thread_id \<and> take 1 (sh_mcp sh) = [channel_push demo_envelope])"
  by code_simp

text \<open>A call that times out is reported as not sent, though its request is on the wire.\<close>

lemma timeout_after_sending:
  "(let sh = shim_run (\<lambda>_. []) demo_shim [tool_call 1 ''send'' [(''body'', JStr ''x'')], Connects, TakeCall,
        TimesOut \<lparr>w_id = JNum 1, w_after = AfterPlain\<rparr>, Resume 0] shim_start
    in sh_mcp sh = [JObj [(''jsonrpc'', JStr ''2.0''), (''id'', JNum 1),
         (''result'', tool_error ''AgentWorkplace broker is unreachable; the message was not sent'')]] \<and>
       map_option lk_sent (sh_link sh) = Some
         [Request (mk_request 1 (method_name SESSION_HELLO) (enc_hello_params (hello_of demo_shim))),
          Request (mk_request 2 (method_name MESSAGE_SEND) (JObj [(''body'', JStr ''x'')]))])"
  by code_simp

end
