(* ===== verification/Tui.thy ===== *)
theory Tui
  imports Core
begin

text \<open>
  The terminal client (\<open>crates/workplace/src/tui.rs\<close>): command parsing, what a command does to
  the application and asks of the broker, the reader's handling of broker messages, the
  lines shown, the viewport arithmetic, the input thread and the terminal's guard. A spawned broker call is a value: its method,
  its parameters and what is done with the answer. Local time (\<open>chrono\<close>), the printer of
  JSON text and the row count of wrapped text (\<open>ratatui\<close>) are parameters; drawing itself is
  not modelled.
\<close>

section \<open>Special characters\<close>

definition mid_dot :: string where "mid_dot = [CHR 0xC2, CHR 0xB7]"
definition arrow :: string where "arrow = [CHR 0xE2, CHR 0x86, CHR 0x92]"
definition gear :: string where "gear = [CHR 0xE2, CHR 0x9A, CHR 0x99]"
definition dash :: string where "dash = [CHR 0xE2, CHR 0x80, CHR 0x94]"
definition dots :: string where "dots = [CHR 0xE2, CHR 0x80, CHR 0xA6]"

section \<open>Commands\<close>

datatype ui_command =
    Post string
  | Help
  | Quit
  | Focus string
  | Send "string list" "string list" string
  | Reply u64 "string list" "string list" string
  | ThreadFocus "u64 option"
  | Create string
  | AdminSubscription bool string string
  | Rename string string
  | Archive string bool
  | Delete string
  | Confirm string
  | Status u64
  | History string u32
  | Who
  | Daemon
  | Shutdown
  | Usage string
  | Unknown string

definition target_char :: "char \<Rightarrow> bool" where
  "target_char c \<longleftrightarrow> c = CHR ''#'' \<or> c = CHR ''@''"

definition is_target :: "string \<Rightarrow> bool" where
  "is_target t \<longleftrightarrow> (case t of [] \<Rightarrow> False | c # _ \<Rightarrow> target_char c)"

text \<open>Leading targets, and the rest from the first token that is none.\<close>

function split_targets :: "string \<Rightarrow> string list \<times> string" where
  "split_targets rest =
     (let trimmed = trim_start rest;
          token = take (find_ws trimmed) trimmed
      in if is_target token
         then (case split_targets (drop (find_ws trimmed) trimmed) of (ts, contents) \<Rightarrow> (token # ts, contents))
         else ([], trimmed))"
  by pat_completeness auto

termination split_targets
proof (relation "measure length")
  fix rest t tok :: string
  assume t: "t = trim_start rest" "tok = take (find_ws t) t" "is_target tok"
  have "tok \<noteq> []" using t(3) by (cases tok) (simp_all add: is_target_def)
  then have "0 < find_ws t" "t \<noteq> []" unfolding t(2) by auto
  then have "length (drop (find_ws t) t) < length t" by simp
  with t(1) trim_start_length [of rest] show "(drop (find_ws t) t, rest) \<in> measure length" by simp
qed simp

declare split_targets.simps [simp del]

definition channels_in :: "string list \<Rightarrow> string list" where
  "channels_in ts = filter (starts_with ''#'') ts"

definition principals_in :: "string list \<Rightarrow> string list" where
  "principals_in ts = filter (starts_with ''@'') ts"

definition parse_u64 :: "string \<Rightarrow> u64 option" where
  "parse_u64 s = map_option of_nat (parse_unsigned (2 ^ 64) s)"

definition parse_u32 :: "string \<Rightarrow> u32 option" where
  "parse_u32 s = map_option of_nat (parse_unsigned (2 ^ 32) s)"

definition reply_usage :: ui_command where
  "reply_usage = Usage ''usage: /reply <thread_id> <#chan|@principal ...> <body>''"

definition parse_send :: "string \<Rightarrow> ui_command" where
  "parse_send rest = (case split_targets rest of (targets, contents) \<Rightarrow>
     if contents = [] \<or> targets = [] then Usage ''usage: /send <#chan|@principal ...> <body>''
     else Send (channels_in targets) (principals_in targets) contents)"

definition parse_reply :: "string \<Rightarrow> ui_command" where
  "parse_reply rest = (case splitn2 (CHR '' '') rest of (t, tail) \<Rightarrow>
     (case parse_u64 t of
        None \<Rightarrow> reply_usage
      | Some thread \<Rightarrow>
          (case split_targets (trim (case tail of None \<Rightarrow> [] | Some m \<Rightarrow> m)) of (targets, contents) \<Rightarrow>
             if contents = [] \<or> targets = [] then reply_usage
             else Reply thread (channels_in targets) (principals_in targets) contents)))"

text \<open>The first two words, if there are two.\<close>

definition two_words :: "string \<Rightarrow> (string \<times> string) option" where
  "two_words s = (case split_whitespace s of a # b # _ \<Rightarrow> Some (a, b) | _ \<Rightarrow> None)"

definition parse_history :: "string \<Rightarrow> ui_command" where
  "parse_history rest = (case split_whitespace rest of
      [] \<Rightarrow> Usage ''usage: /history <#channel|@principal> [limit]''
    | target # args \<Rightarrow> History target
        (case args of [] \<Rightarrow> 20 | l # _ \<Rightarrow> (case parse_u32 l of None \<Rightarrow> 20 | Some n \<Rightarrow> n)))"

definition parse_slash :: "string \<Rightarrow> string \<Rightarrow> ui_command" where
  "parse_slash cmd rest =
     (if cmd = ''/help'' then Help
      else if cmd = ''/quit'' then Quit
      else if cmd = ''/focus'' then (if starts_with ''#'' rest then Focus rest else Usage ''usage: /focus #channel'')
      else if cmd = ''/send'' then parse_send rest
      else if cmd = ''/reply'' then parse_reply rest
      else if cmd = ''/thread'' then
        (if rest = [] then ThreadFocus None
         else case parse_u64 rest of Some t \<Rightarrow> ThreadFocus (Some t)
           | None \<Rightarrow> Usage ''usage: /thread <thread_id>  (or /thread to clear)'')
      else if cmd = ''/create'' then Create rest
      else if cmd = ''/sub'' \<or> cmd = ''/unsub'' then
        (case two_words rest of
           Some (p, c) \<Rightarrow> AdminSubscription (cmd = ''/sub'') p c
         | None \<Rightarrow> Usage (if cmd = ''/sub'' then ''usage: /sub @principal #channel'' else ''usage: /unsub @principal #channel''))
      else if cmd = ''/rename'' then
        (case two_words rest of Some (a, b) \<Rightarrow> Rename a b | None \<Rightarrow> Usage ''usage: /rename #old #new'')
      else if cmd = ''/archive'' then Archive rest True
      else if cmd = ''/unarchive'' then Archive rest False
      else if cmd = ''/delete'' then Delete rest
      else if cmd = ''/confirm'' then Confirm rest
      else if cmd = ''/status'' then
        (case parse_u64 rest of Some i \<Rightarrow> Status i | None \<Rightarrow> Usage ''usage: /status <message-id>'')
      else if cmd = ''/history'' then parse_history rest
      else if cmd = ''/who'' then Who
      else if cmd = ''/daemon'' then Daemon
      else if cmd = ''/shutdown'' then Shutdown
      else Unknown cmd)"

definition parse_command :: "string \<Rightarrow> ui_command" where
  "parse_command line =
     (if \<not> starts_with ''/'' line then Post line
      else case splitn2 (CHR '' '') line of (cmd, rest) \<Rightarrow>
        parse_slash cmd (trim (case rest of None \<Rightarrow> [] | Some r \<Rightarrow> r)))"

section \<open>The application\<close>

record app =
  ap_addr :: string
  ap_principal :: string
  ap_lines :: "string list"
  ap_input :: string
  ap_scroll :: nat
  ap_focus :: "string option"
  ap_thread :: "u64 option"
  ap_pending_delete :: "(string \<times> string) option"
  ap_quit :: bool

definition new_app :: "string \<Rightarrow> string \<Rightarrow> app" where
  "new_app addr me = \<lparr>ap_addr = addr, ap_principal = me, ap_lines = [], ap_input = [], ap_scroll = 0,
     ap_focus = None, ap_thread = None, ap_pending_delete = None, ap_quit = False\<rparr>"

definition max_lines :: nat where
  "max_lines = 5000"

definition push :: "string \<Rightarrow> app \<Rightarrow> app" where
  "push line ap = (let ls = ap_lines ap @ split_char (CHR 0x0A) line
     in ap\<lparr>ap_lines := (if length ls > max_lines then drop (length ls - max_lines) ls else ls)\<rparr>)"

text \<open>What is done with the answer of a call.\<close>

datatype ui_then = ThenSent | ThenOk | ThenPendingDelete string | ThenStatus u64 | ThenHistory string | ThenWho | ThenShow

record ui_call =
  uc_method :: methods
  uc_params :: json
  uc_then :: ui_then

definition send_call :: "string list \<Rightarrow> string list \<Rightarrow> string \<Rightarrow> u64 option \<Rightarrow> ui_call" where
  "send_call chans princs contents thread = \<lparr>uc_method = MESSAGE_SEND,
     uc_params = JObj ([(''channels'', enc_list JStr chans), (''principals'', enc_list JStr princs), (''body'', JStr contents)] @
       opt_field ''thread_id'' enc_u64 thread),
     uc_then = ThenSent\<rparr>"

definition simple_call :: "methods \<Rightarrow> (string \<times> json) list \<Rightarrow> ui_call" where
  "simple_call m params = \<lparr>uc_method = m, uc_params = JObj params, uc_then = ThenOk\<rparr>"

definition HELP :: "string list" where
  "HELP = [''commands:'',
     ''  /focus #chan               plain text posts to the focused channel'',
     ''  /thread <id>               plain text replies into that thread (empty clears)'',
     ''  /send <targets> <body>     targets: #channels and/or @principals'',
     ''  /reply <tid> <targets> '' @ dots @ ''   post <body> into thread <tid>'',
     ''  /create #chan              /rename #old #new'',
     ''  /sub @p #chan              /unsub @p #chan        (admin overrides)'',
     ''  /archive #chan             /unarchive #chan'',
     ''  /delete #chan              then /confirm #chan    (PERMANENT)'',
     ''  /history <#c|@p> [n]       /status <msg-id>'',
     ''  /who                       /daemon'',
     ''  /shutdown                  /quit'']"

definition run_ui_command :: "ui_command \<Rightarrow> app \<Rightarrow> app \<times> ui_call option" where
  "run_ui_command cmd ap = (case cmd of
      Post contents \<Rightarrow> (case ap_focus ap of
          None \<Rightarrow> (push ''no focus channel: /focus #chan first, or /send <targets> <body>'' ap, None)
        | Some chan \<Rightarrow> (ap, Some (send_call [chan] [] contents (ap_thread ap))))
    | Help \<Rightarrow> (push (join [CHR 0x0A] HELP) ap, None)
    | Quit \<Rightarrow> (ap\<lparr>ap_quit := True\<rparr>, None)
    | Focus chan \<Rightarrow> ((push (''focus: '' @ chan @ '' (plain text now posts there)'') ap)\<lparr>ap_focus := Some chan\<rparr>, None)
    | Send cs ps contents \<Rightarrow> (ap, Some (send_call cs ps contents None))
    | Reply t cs ps contents \<Rightarrow> (ap, Some (send_call cs ps contents (Some t)))
    | ThreadFocus t \<Rightarrow> (push (case t of
          Some i \<Rightarrow> ''thread focus: '' @ show_u64 i @ '' (plain text now replies into it)''
        | None \<Rightarrow> ''thread focus cleared (plain text starts new threads)'') (ap\<lparr>ap_thread := t\<rparr>), None)
    | Create nm \<Rightarrow> (ap, Some (simple_call CHANNEL_CREATE [(''name'', JStr nm)]))
    | AdminSubscription sub p c \<Rightarrow>
        (ap, Some (simple_call (if sub then ADMIN_SUBSCRIBE else ADMIN_UNSUBSCRIBE) [(''principal'', JStr p), (''channel'', JStr c)]))
    | Rename a b \<Rightarrow> (ap, Some (simple_call CHANNEL_RENAME [(''channel'', JStr a), (''new_name'', JStr b)]))
    | Archive c arch \<Rightarrow> (ap, Some (simple_call (if arch then CHANNEL_ARCHIVE else CHANNEL_UNARCHIVE) [(''channel'', JStr c)]))
    | Delete c \<Rightarrow> (ap, Some \<lparr>uc_method = CHANNEL_DELETE, uc_params = JObj [(''channel'', JStr c)], uc_then = ThenPendingDelete c\<rparr>)
    | Confirm typed \<Rightarrow> (case ap_pending_delete ap of
          None \<Rightarrow> (push ''nothing pending confirmation'' ap, None)
        | Some (chan, token) \<Rightarrow>
            (let ap' = ap\<lparr>ap_pending_delete := None\<rparr> in
             if typed \<noteq> chan then (push (''confirmation aborted: typed name does not match '' @ chan) ap', None)
             else (ap', Some (simple_call CHANNEL_DELETE_CONFIRM [(''channel'', JStr chan), (''confirmation_token'', JStr token)]))))
    | Status i \<Rightarrow> (ap, Some \<lparr>uc_method = MESSAGE_STATUS, uc_params = JObj [(''message_id'', enc_u64 i)], uc_then = ThenStatus i\<rparr>)
    | History target n \<Rightarrow>
        (let call = (\<lambda>scope. (ap, Some \<lparr>uc_method = HISTORY_GET, uc_params = JObj [(''scope'', scope), (''limit'', enc_u32 n)],
               uc_then = ThenHistory target\<rparr>))
         in if starts_with ''#'' target then call (JObj [(''channel'', JStr target)])
            else if ap_principal ap \<noteq> target then call (JObj [(''dm_with'', JStr target)])
            else (push (''that'' @ [CHR 0x27] @ ''s you'') ap, None))
    | Who \<Rightarrow> (ap, Some \<lparr>uc_method = DIRECTORY_WHO, uc_params = JObj [], uc_then = ThenWho\<rparr>)
    | Daemon \<Rightarrow> (ap, Some \<lparr>uc_method = DAEMON_STATUS, uc_params = JObj [], uc_then = ThenShow\<rparr>)
    | Shutdown \<Rightarrow> (ap, Some (simple_call DAEMON_SHUTDOWN []))
    | Usage t \<Rightarrow> (push t ap, None)
    | Unknown other \<Rightarrow> (push (''unknown command '' @ other @ ''; /help'') ap, None))"

definition run_command :: "string \<Rightarrow> app \<Rightarrow> app \<times> ui_call option" where
  "run_command line ap = run_ui_command (parse_command line) ap"

section \<open>Keys and events\<close>

definition COMMANDS :: "string list" where
  "COMMANDS = [''/archive'', ''/confirm'', ''/create'', ''/daemon'', ''/delete'', ''/focus'', ''/help'', ''/history'', ''/quit'',
     ''/rename'', ''/reply'', ''/send'', ''/shutdown'', ''/status'', ''/sub'', ''/thread'', ''/unarchive'', ''/unsub'', ''/who'']"

definition complete_command :: "app \<Rightarrow> app" where
  "complete_command ap =
     (if \<not> starts_with ''/'' (ap_input ap) \<or> CHR '' '' \<in> set (ap_input ap) then ap
      else case filter (starts_with (ap_input ap)) COMMANDS of
        [] \<Rightarrow> ap
      | [c] \<Rightarrow> ap\<lparr>ap_input := c @ '' ''\<rparr>
      | cs \<Rightarrow> push (join ''  '' cs) ap)"

datatype key = CharKey string bool | Backspace | Tab | Up | Down | PageUp | PageDown | EndKey | Enter | OtherKey

definition u16_max :: nat where
  "u16_max = 65535"

definition scroll_up :: "nat \<Rightarrow> app \<Rightarrow> app" where
  "scroll_up n ap = ap\<lparr>ap_scroll := min (ap_scroll ap + n) u16_max\<rparr>"

definition scroll_down :: "nat \<Rightarrow> app \<Rightarrow> app" where
  "scroll_down n ap = ap\<lparr>ap_scroll := ap_scroll ap - n\<rparr>"

text \<open>\<open>String::pop\<close>: the last character goes, with its continuation bytes.\<close>

definition pop_char :: "string \<Rightarrow> string" where
  "pop_char s = rev (tl (dropWhile cont (rev s)))"

definition handle_key :: "key \<Rightarrow> app \<Rightarrow> app \<times> ui_call option" where
  "handle_key k ap = (case k of
      CharKey c ctrl \<Rightarrow> if c = ''c'' \<and> ctrl then (ap\<lparr>ap_quit := True\<rparr>, None) else (ap\<lparr>ap_input := ap_input ap @ c\<rparr>, None)
    | Backspace \<Rightarrow> (ap\<lparr>ap_input := pop_char (ap_input ap)\<rparr>, None)
    | Tab \<Rightarrow> (complete_command ap, None)
    | Up \<Rightarrow> (scroll_up 1 ap, None)
    | Down \<Rightarrow> (scroll_down 1 ap, None)
    | PageUp \<Rightarrow> (scroll_up 10 ap, None)
    | PageDown \<Rightarrow> (scroll_down 10 ap, None)
    | EndKey \<Rightarrow> (ap\<lparr>ap_scroll := 0\<rparr>, None)
    | Enter \<Rightarrow> (let line = trim (ap_input ap); ap' = ap\<lparr>ap_input := []\<rparr>
        in if line = [] then (ap', None) else run_command line (ap'\<lparr>ap_scroll := 0\<rparr>))
    | OtherKey \<Rightarrow> (ap, None))"

datatype ui = Net string | Input key | PendingDelete string string | UiDisconnected | Redraw

definition on_ui :: "ui \<Rightarrow> app \<Rightarrow> app \<times> ui_call option" where
  "on_ui ev ap = (case ev of
      Net line \<Rightarrow> (push line ap, None)
    | PendingDelete chan token \<Rightarrow>
        ((push (''PERMANENT deletion of '' @ chan @ '' requested. Type `/confirm '' @ chan @ ''` within 30s to proceed.'') ap)
           \<lparr>ap_pending_delete := Some (chan, token)\<rparr>, None)
    | UiDisconnected \<Rightarrow> (push (''!! broker connection lost '' @ dash @ '' /quit and relaunch'') ap, None)
    | Redraw \<Rightarrow> (ap, None)
    | Input k \<Rightarrow> handle_key k ap)"

section \<open>What is shown\<close>

fun ack_debug :: "ack_state \<Rightarrow> string" where
  "ack_debug Held = ''Held''"
| "ack_debug Relayed = ''Relayed''"
| "ack_debug Processed = ''Processed''"
| "ack_debug Failed = ''Failed''"

fun empty_debug :: "empty_audience \<Rightarrow> string" where
  "empty_debug NoSubscribers = ''NoSubscribers''"
| "empty_debug EmptyIntersection = ''EmptyIntersection''"

definition in_parens :: "string option \<Rightarrow> string" where
  "in_parens r = (case r of None \<Rightarrow> [] | Some x \<Rightarrow> '' ('' @ x @ '')'')"

fun format_system :: "system_event \<Rightarrow> string" where
  "format_system (Registered p admin) = p @ '' registered'' @ (if admin then '' (admin)'' else [])"
| "format_system (RegistrationDenied nm reason) = ''registration of '' @ nm @ '' denied: '' @ reason"
| "format_system (Deregistered p) = p @ '' deregistered''"
| "format_system (Disconnected p) = p @ '' disconnected''"
| "format_system (Subscribed p c by_admin) = p @ '' subscribed to '' @ c @ (if by_admin then '' (by admin)'' else [])"
| "format_system (Unsubscribed p c by_admin) = p @ '' unsubscribed from '' @ c @ (if by_admin then '' (by admin)'' else [])"
| "format_system (ChannelCreated c by) = by @ '' created '' @ c"
| "format_system (ChannelRenamed a b by) = by @ '' renamed '' @ a @ '' '' @ arrow @ '' '' @ b"
| "format_system (ChannelArchived c by) = by @ '' archived '' @ c"
| "format_system (ChannelUnarchived c by) = by @ '' unarchived '' @ c"
| "format_system (ChannelDeleted i nm n by) = by @ '' PERMANENTLY DELETED '' @ nm @ '' ('' @ show_u64 n @ '' records) '' @ dash @ '' tombstone''"

fun format_record :: "(u64 \<Rightarrow> string) \<Rightarrow> log_record \<Rightarrow> string" where
  "format_record hhmmss (MessageRec e) =
     (let cs = to_channels (recipients_of e); ps = to_principals (recipients_of e);
          target = (if cs = [] then ''dm:'' @ join '','' ps else join '','' cs);
          at = (if cs = [] \<or> ps = [] then [] else '' @ '' @ join '','' ps)
      in hhmmss (timestamp e) @ '' ['' @ target @ ''] '' @ sender e @ at @ '': '' @ body e @
           '' (msg '' @ show_u64 (message_id e) @ '', thread '' @ show_u64 (thread_id e) @ '')'')"
| "format_record hhmmss (SystemRec i ts ev) = hhmmss ts @ '' '' @ gear @ '' '' @ format_system ev"

fun format_event :: "(u64 \<Rightarrow> string) \<Rightarrow> watch_event \<Rightarrow> string" where
  "format_event hhmmss (WatchRecord r) = format_record hhmmss r"
| "format_event hhmmss (WatchAck a) = hhmmss (at_timestamp a) @ '' '' @ mid_dot @ '' ack: msg '' @ show_u64 (at_message_id a) @
     '' '' @ arrow @ '' '' @ ack_debug (at_state a) @ '' for '' @ at_recipient a @ in_parens (at_reason a)"

section \<open>Answers\<close>

definition dec_failed_delivery :: "json \<Rightarrow> failed_delivery option" where
  "dec_failed_delivery = dec2 [''principal'', ''reason''] (\<lambda>fs.
     case (req fs ''principal'' dec_str, req fs ''reason'' dec_str) of
       (Some p, Some r) \<Rightarrow> Some \<lparr>fd_principal = p, fd_reason = r\<rparr> | _ \<Rightarrow> None)"

definition dec_empty_audience :: "json \<Rightarrow> empty_audience option" where
  "dec_empty_audience j = (if j = JStr ''no_subscribers'' then Some NoSubscribers
     else if j = JStr ''empty_intersection'' then Some EmptyIntersection else None)"

definition dec_delivery_report :: "json \<Rightarrow> delivery_report option" where
  "dec_delivery_report = dec2 [''delivered'', ''failed'', ''empty_audience''] (\<lambda>fs.
     case (req fs ''delivered'' (dec_list dec_str), req fs ''failed'' (dec_list dec_failed_delivery), opt fs ''empty_audience'' dec_empty_audience) of
       (Some d, Some f, Some e) \<Rightarrow> Some \<lparr>dr_delivered = d, dr_failed = f, dr_empty_audience = e\<rparr> | _ \<Rightarrow> None)"

definition dec_send_result :: "json \<Rightarrow> (u64 \<times> u64 \<times> delivery_report) option" where
  "dec_send_result = dec2 [''message_id'', ''thread_id'', ''delivery''] (\<lambda>fs.
     case (req fs ''message_id'' dec_u64, req fs ''thread_id'' dec_u64, req fs ''delivery'' dec_delivery_report) of
       (Some m, Some t, Some d) \<Rightarrow> Some (m, t, d) | _ \<Rightarrow> None)"

definition dec_channel_entry :: "json \<Rightarrow> (string \<times> string list) option" where
  "dec_channel_entry = dec2 [''channel'', ''subscribers''] (\<lambda>fs.
     case (req fs ''channel'' dec_str, req fs ''subscribers'' (dec_list dec_str)) of (Some c, Some s) \<Rightarrow> Some (c, s) | _ \<Rightarrow> None)"

definition dec_principal_entry :: "json \<Rightarrow> (string \<times> bool) option" where
  "dec_principal_entry = dec2 [''principal'', ''active''] (\<lambda>fs.
     case (req fs ''principal'' dec_str, req fs ''active'' dec_bool) of (Some p, Some a) \<Rightarrow> Some (p, a) | _ \<Rightarrow> None)"

definition dec_who_result :: "json \<Rightarrow> ((string \<times> string list) list \<times> (string \<times> bool) list) option" where
  "dec_who_result = dec2 [''channels'', ''principals''] (\<lambda>fs.
     case (req fs ''channels'' (dec_list dec_channel_entry), req fs ''principals'' (dec_list dec_principal_entry)) of
       (Some c, Some p) \<Rightarrow> Some (c, p) | _ \<Rightarrow> None)"

definition sent_note :: "u64 \<Rightarrow> u64 \<Rightarrow> delivery_report \<Rightarrow> string" where
  "sent_note m t d = ''sent #'' @ show_u64 m @ '' (thread '' @ show_u64 t @ '')'' @
     (if dr_failed d = [] then [] else '' '' @ dash @ '' failed: '' @
        join '', '' (map (\<lambda>f. fd_principal f @ '' ('' @ fd_reason f @ '')'') (dr_failed d))) @
     (case dr_empty_audience d of None \<Rightarrow> [] | Some ea \<Rightarrow> '' '' @ dash @ '' nobody heard it ('' @ empty_debug ea @ '')'')"

definition ack_line :: "ack_status \<Rightarrow> string" where
  "ack_line a = ''  '' @ as_recipient a @ '' '' @ arrow @ '' '' @ ack_debug (as_state a) @ in_parens (as_reason a)"

definition who_lines :: "(string \<times> string list) list \<Rightarrow> (string \<times> bool) list \<Rightarrow> string list" where
  "who_lines cs ps = map (\<lambda>(c, subs). c @ '': '' @ join '' '' subs) cs @
     [''principals: '' @ join '' '' (map (\<lambda>(p, active). p @ (if active then ''*'' else [])) ps) @ '' (* = active)'']"

definition call_output :: "(u64 \<Rightarrow> string) \<Rightarrow> (json \<Rightarrow> string) \<Rightarrow> ui_then \<Rightarrow> rpc_error + json \<Rightarrow> ui list" where
  "call_output hhmmss show_json aft result = (case result of
      Inl e \<Rightarrow> [Net (''error: '' @ err_message e)]
    | Inr v \<Rightarrow> (case aft of
        ThenOk \<Rightarrow> [Net ''ok'']
      | ThenShow \<Rightarrow> [Net (show_json v)]
      | ThenPendingDelete chan \<Rightarrow> [PendingDelete chan
          (case Option.bind (jget ''confirmation_token'' v) as_str of None \<Rightarrow> [] | Some t \<Rightarrow> t)]
      | ThenSent \<Rightarrow> (case dec_send_result v of None \<Rightarrow> [] | Some (m, t, d) \<Rightarrow> [Net (sent_note m t d)])
      | ThenStatus i \<Rightarrow> (case dec_message_status_result v of None \<Rightarrow> []
          | Some acks \<Rightarrow> Net (''acks for message '' @ show_u64 i @ '':'') # map (Net \<circ> ack_line) acks)
      | ThenHistory target \<Rightarrow> (case dec_history_result v of None \<Rightarrow> []
          | Some r \<Rightarrow> Net (''history '' @ target @ '' ('' @ show_nat (length (hr_records r)) @ '' records):'') #
              map (\<lambda>rec. Net (''  '' @ format_record hhmmss rec)) (hr_records r))
      | ThenWho \<Rightarrow> (case dec_who_result v of None \<Rightarrow> [] | Some (cs, ps) \<Rightarrow> map Net (who_lines cs ps))))"

section \<open>The connection\<close>

record client =
  cn_next_id :: u64
  cn_pending :: "(u64 \<times> ui_then) list"
  cn_out :: "message list"

definition client_call :: "ui_call \<Rightarrow> client \<Rightarrow> client" where
  "client_call c cn = cn\<lparr>cn_next_id := cn_next_id cn + 1,
     cn_pending := (cn_next_id cn, uc_then c) # filter (\<lambda>p. fst p \<noteq> cn_next_id cn) (cn_pending cn),
     cn_out := cn_out cn @ [Request (mk_request (cn_next_id cn) (method_name (uc_method c)) (uc_params c))]\<rparr>"

text \<open>Before any call.\<close>

definition tui_client :: client where
  "tui_client = \<lparr>cn_next_id = 1, cn_pending = [], cn_out = []\<rparr>"

definition client_error :: "string \<Rightarrow> rpc_error" where
  "client_error reason = \<lparr>err_code = -32000, err_message = reason, err_data = None\<rparr>"

text \<open>The 30 seconds of a call are over.\<close>

definition client_timeout :: "(u64 \<Rightarrow> string) \<Rightarrow> (json \<Rightarrow> string) \<Rightarrow> u64 \<Rightarrow> client \<Rightarrow> ui list \<times> client" where
  "client_timeout hhmmss show_json i cn = (case map_of (cn_pending cn) i of
      None \<Rightarrow> ([], cn)
    | Some aft \<Rightarrow> (call_output hhmmss show_json aft (Inl (client_error ''broker timeout'')),
        cn\<lparr>cn_pending := filter (\<lambda>p. fst p \<noteq> i) (cn_pending cn)\<rparr>))"

text \<open>One line from the broker; none when it does not parse.\<close>

definition reader_line :: "(u64 \<Rightarrow> string) \<Rightarrow> (json \<Rightarrow> string) \<Rightarrow> json \<Rightarrow> client \<Rightarrow> ui list \<times> client" where
  "reader_line hhmmss show_json v cn = (case from_value v of
      Some (Notification n) \<Rightarrow>
        (if nt_method n = method_name WATCH_EVENT then
           (case dec_watch_event (case nt_params n of None \<Rightarrow> JNull | Some p \<Rightarrow> p) of
              None \<Rightarrow> ([], cn) | Some ev \<Rightarrow> ([Net (format_event hhmmss ev)], cn))
         else ([], cn))
    | Some (Request rq) \<Rightarrow>
        (if rq_method rq = method_name MESSAGE_DELIVER
         then ([], cn\<lparr>cn_out := cn_out cn @ [Response (ok_response (rq_id rq) (enc_deliver_result ''relayed''))]\<rparr>)
         else ([], cn))
    | Some (Response resp) \<Rightarrow> (case rs_id resp of
          IdNum i \<Rightarrow> (case map_of (cn_pending cn) i of
              None \<Rightarrow> ([], cn)
            | Some aft \<Rightarrow> (call_output hhmmss show_json aft
                  (case rs_error resp of Some e \<Rightarrow> Inl e | None \<Rightarrow> Inr (case rs_result resp of None \<Rightarrow> JNull | Some r \<Rightarrow> r)),
                cn\<lparr>cn_pending := filter (\<lambda>p. fst p \<noteq> i) (cn_pending cn)\<rparr>))
        | _ \<Rightarrow> ([], cn))
    | None \<Rightarrow> ([], cn))"

text \<open>The reader left to itself: a blank or unparseable line is skipped; the end of the stream, or a
  line that is not UTF-8, ends it, which the application is told last.\<close>

definition read_one :: "(string \<Rightarrow> json option) \<Rightarrow> (u64 \<Rightarrow> string) \<Rightarrow> (json \<Rightarrow> string) \<Rightarrow> string \<Rightarrow> client \<Rightarrow> ui list \<times> client" where
  "read_one parse_json hhmmss show_json line cn =
     (if trim line = [] then ([], cn)
      else case parse_json line of None \<Rightarrow> ([], cn) | Some v \<Rightarrow> reader_line hhmmss show_json v cn)"

fun reader_loop :: "(string \<Rightarrow> json option) \<Rightarrow> (u64 \<Rightarrow> string) \<Rightarrow> (json \<Rightarrow> string) \<Rightarrow> string list \<Rightarrow> client \<Rightarrow> ui list \<times> client" where
  "reader_loop parse_json hhmmss show_json [] cn = ([UiDisconnected], cn)"
| "reader_loop parse_json hhmmss show_json (line # lines) cn =
     (if \<not> valid_utf8 line then ([UiDisconnected], cn)
      else case read_one parse_json hhmmss show_json line cn of (uis, cn1) \<Rightarrow>
        (case reader_loop parse_json hhmmss show_json lines cn1 of (more_uis, cn2) \<Rightarrow> (uis @ more_uis, cn2)))"

lemma reader_loop_disconnects: "\<exists>uis. fst (reader_loop parse_json hhmmss show_json lines cn) = uis @ [UiDisconnected]"
  by (induction lines arbitrary: cn) (auto split: prod.split, metis append_assoc fst_conv)

section \<open>The viewport\<close>

definition scroll_offset_rows :: "nat \<Rightarrow> nat \<Rightarrow> nat \<Rightarrow> nat \<times> nat" where
  "scroll_offset_rows total_rows viewport_rows from_bottom =
     (let max_from_bottom = total_rows - viewport_rows;
          clamped = min from_bottom max_from_bottom;
          offset = max_from_bottom - clamped
      in (min offset u16_max, min clamped u16_max))"

definition input_viewport :: "nat \<Rightarrow> nat \<Rightarrow> nat \<times> nat" where
  "input_viewport display_width inner_width =
     (let text_width = inner_width - 1; left = display_width - text_width
      in (min left u16_max, min display_width text_width))"

text \<open>What drawing does to the application: the scroll state is clamped to the \<open>rows\<close> the
  renderer counts; the offset is what it scrolls by.\<close>

definition draw :: "(string list \<Rightarrow> nat) \<Rightarrow> nat \<Rightarrow> app \<Rightarrow> nat \<times> app" where
  "draw rows pane_height ap =
     (case scroll_offset_rows (rows (ap_lines ap)) (pane_height - 2) (ap_scroll ap) of
        (offset, clamped) \<Rightarrow> (offset, ap\<lparr>ap_scroll := clamped\<rparr>))"

text \<open>The input line: how far it is scrolled, and the column of the cursor, in a pane at column \<open>x\<close>.\<close>

definition draw_input :: "nat \<Rightarrow> nat \<Rightarrow> nat \<Rightarrow> nat \<times> nat" where
  "draw_input x pane_width display_width = (case input_viewport display_width (pane_width - 2) of
      (input_scroll, cursor_column) \<Rightarrow> (input_scroll, x + 1 + cursor_column))"

lemma cursor_inside:
  assumes "3 \<le> pane_width"
  shows "x < snd (draw_input x pane_width display_width)" "snd (draw_input x pane_width display_width) < x + pane_width - 1"
  using assms by (auto simp: draw_input_def input_viewport_def Let_def)

definition title_of :: "app \<Rightarrow> string" where
  "title_of ap = '' workplace '' @ mid_dot @ '' '' @ ap_addr ap @ '' '' @ mid_dot @ '' '' @ ap_principal ap @
     (case ap_focus ap of None \<Rightarrow> [] | Some c \<Rightarrow> '' '' @ mid_dot @ '' focus '' @ c) @
     (case ap_thread ap of None \<Rightarrow> [] | Some t \<Rightarrow> '' '' @ mid_dot @ '' thread '' @ show_u64 t) @ '' ''"

section \<open>A run\<close>

text \<open>The input thread: what the terminal reports, until reading fails.\<close>

datatype terminal_event = TermKey key | TermResize | TermOther

fun input_thread :: "terminal_event option list \<Rightarrow> ui list" where
  "input_thread [] = []"
| "input_thread (None # evs) = []"
| "input_thread (Some ev # evs) = (case ev of
      TermKey k \<Rightarrow> [Input k] | TermResize \<Rightarrow> [Redraw] | TermOther \<Rightarrow> []) @ input_thread evs"

text \<open>The calls made, in order and each after the last one succeeded, before the terminal is
  taken over.\<close>

definition handshake :: "client_info \<Rightarrow> string option \<Rightarrow> string \<Rightarrow> string \<Rightarrow> (methods \<times> json) list" where
  "handshake ci auth nm adm =
     [(SESSION_HELLO, enc_hello_params \<lparr>hp_client_info = ci, hp_auth_token = auth\<rparr>),
      (ADMIN_REGISTER, JObj [(''name'', JStr nm), (''admin_token'', JStr adm)]),
      (WATCH_START, JObj [])]"

text \<open>How the calls go, one result for each that is made: the first error ends the start.\<close>

definition handshake_outcome :: "string \<Rightarrow> (rpc_error + json) list \<Rightarrow> string + unit" where
  "handshake_outcome nm results = (case results of
      Inl e # _ \<Rightarrow> Inl (err_message e)
    | Inr _ # Inl e # _ \<Rightarrow> Inl (''admin registration as '' @ nm @ '' failed: '' @ err_message e)
    | Inr _ # Inr _ # Inl e # _ \<Rightarrow> Inl (err_message e)
    | _ \<Rightarrow> Inr ())"

definition start_app :: "string \<Rightarrow> string \<Rightarrow> app" where
  "start_app addr nm = push (''connected to '' @ addr @ '' as admin; watching everything. /help for commands.'') (new_app addr nm)"

text \<open>The terminal: its guard is made once raw mode is on and undoes both modes when it is dropped,
  on every way out. Whether the terminal obeys is given for each request.\<close>

record terminal =
  tm_raw :: bool
  tm_alternate :: bool

definition drop_guard :: "terminal \<Rightarrow> terminal" where
  "drop_guard t = t\<lparr>tm_alternate := False, tm_raw := False\<rparr>"

definition enter_terminal :: "bool \<Rightarrow> bool \<Rightarrow> terminal \<Rightarrow> bool \<times> terminal" where
  "enter_terminal raw_ok alternate_ok t =
     (if \<not> raw_ok then (False, t)
      else if \<not> alternate_ok then (False, drop_guard (t\<lparr>tm_raw := True\<rparr>))
      else (True, t\<lparr>tm_raw := True, tm_alternate := True\<rparr>))"

text \<open>The session in it; what it does, an error or an unwinding included, does not change the
  modes.\<close>

definition with_terminal :: "bool \<Rightarrow> bool \<Rightarrow> 'a \<Rightarrow> terminal \<Rightarrow> 'a option \<times> terminal" where
  "with_terminal raw_ok alternate_ok session t = (case enter_terminal raw_ok alternate_ok t of
      (False, t') \<Rightarrow> (None, t') | (True, t') \<Rightarrow> (Some session, drop_guard t'))"

lemma terminal_restored:
  assumes "\<not> tm_raw t" "\<not> tm_alternate t"
  shows "snd (with_terminal raw_ok alternate_ok session t) = t"
  using assms by (cases t) (simp add: with_terminal_def enter_terminal_def drop_guard_def)

text \<open>The loop: an event, then a frame for the terminal as it is by then (the width the text
  wraps at and the height of the pane), until the application quits. The calls made are
  collected in their order.\<close>

fun event_loop :: "(nat \<Rightarrow> string list \<Rightarrow> nat) \<Rightarrow> (ui \<times> nat \<times> nat) list \<Rightarrow> app \<Rightarrow> app \<times> ui_call list" where
  "event_loop rows [] ap = (ap, [])"
| "event_loop rows ((ev, w, h) # evs) ap = (case on_ui ev ap of (ap1, cl) \<Rightarrow>
     if ap_quit ap1 then (ap1, (case cl of None \<Rightarrow> [] | Some c \<Rightarrow> [c]))
     else case event_loop rows evs (snd (draw (rows w) h ap1)) of
       (ap2, calls) \<Rightarrow> (ap2, (case cl of None \<Rightarrow> calls | Some c \<Rightarrow> c # calls)))"

end
