(* ===== verification/Tui_Properties.thy ===== *)
theory Tui_Properties
  imports Tui Protocol_Codecs Rpc "HOL-Library.Multiset"
begin

text \<open>
  What the terminal client promises: an input line means what it says, a command becomes a
  call the daemon can read, a channel is deleted only after its name was typed again, and
  what is kept and shown stays within bounds.
\<close>

section \<open>Writing a command\<close>

text \<open>The input line of a command.\<close>

fun show_command :: "ui_command \<Rightarrow> string" where
  "show_command (Post contents) = contents"
| "show_command Help = ''/help''"
| "show_command Quit = ''/quit''"
| "show_command (Focus c) = ''/focus '' @ c"
| "show_command (Send cs ps contents) = ''/send '' @ join '' '' (cs @ ps) @ '' '' @ contents"
| "show_command (Reply t cs ps contents) = ''/reply '' @ show_u64 t @ '' '' @ join '' '' (cs @ ps) @ '' '' @ contents"
| "show_command (ThreadFocus None) = ''/thread''"
| "show_command (ThreadFocus (Some t)) = ''/thread '' @ show_u64 t"
| "show_command (Create nm) = ''/create '' @ nm"
| "show_command (AdminSubscription sub p c) = (if sub then ''/sub '' else ''/unsub '') @ p @ '' '' @ c"
| "show_command (Rename a b) = ''/rename '' @ a @ '' '' @ b"
| "show_command (Archive c arch) = (if arch then ''/archive '' else ''/unarchive '') @ c"
| "show_command (Delete c) = ''/delete '' @ c"
| "show_command (Confirm c) = ''/confirm '' @ c"
| "show_command (Status i) = ''/status '' @ show_u64 i"
| "show_command (History target n) = ''/history '' @ target @ '' '' @ show_nat (unat n)"
| "show_command Who = ''/who''"
| "show_command Daemon = ''/daemon''"
| "show_command Shutdown = ''/shutdown''"
| "show_command (Usage t) = t"
| "show_command (Unknown c) = c"

text \<open>A token is a word that starts with a character; arguments are trimmed text; a body is
  trimmed and does not start like a target.\<close>

definition is_token :: "string \<Rightarrow> bool" where
  "is_token w \<longleftrightarrow> is_word w \<and> \<not> cont (hd w)"

definition good_targets :: "string list \<Rightarrow> string list \<Rightarrow> bool" where
  "good_targets cs ps \<longleftrightarrow> cs @ ps \<noteq> [] \<and> list_all (\<lambda>c. is_token c \<and> hd c = CHR ''#'') cs \<and> list_all (\<lambda>p. is_token p \<and> hd p = CHR ''@'') ps"

definition good_body :: "string \<Rightarrow> bool" where
  "good_body b \<longleftrightarrow> b \<noteq> [] \<and> trim b = b \<and> \<not> cont (hd b) \<and> \<not> target_char (hd b)"

fun good_command :: "ui_command \<Rightarrow> bool" where
  "good_command (Post contents) = (\<not> starts_with ''/'' contents)"
| "good_command (Focus c) = (trim c = c \<and> starts_with ''#'' c)"
| "good_command (Send cs ps contents) = (good_targets cs ps \<and> good_body contents)"
| "good_command (Reply t cs ps contents) = (good_targets cs ps \<and> good_body contents)"
| "good_command (Create nm) = (trim nm = nm)"
| "good_command (AdminSubscription sub p c) = (is_token p \<and> is_token c)"
| "good_command (Rename a b) = (is_token a \<and> is_token b)"
| "good_command (Archive c arch) = (trim c = c)"
| "good_command (Delete c) = (trim c = c)"
| "good_command (Confirm c) = (trim c = c)"
| "good_command (History target n) = is_token target"
| "good_command (Usage t) = False"
| "good_command (Unknown c) = False"
| "good_command c = True"

section \<open>Trimming what ends in trimmed text\<close>

lemma ws_cont: "0 < i \<Longrightarrow> i < ws_width s \<Longrightarrow> cont (s ! i)"
  by (auto simp: ws_width_def cont_def less_Suc_eq numeral_2_eq_2 numeral_3_eq_3 split: list.splits if_splits)

lemma trim_start_boundary: "y \<noteq> [] \<Longrightarrow> \<not> cont (hd y) \<Longrightarrow> trim_start (z @ y) = [] \<Longrightarrow> trim_start y = []"
proof (induction "length z" arbitrary: z rule: less_induct)
  case less
  show ?case
  proof (cases "z = []")
    case False
    let ?n = "ws_width (z @ y)"
    have n: "0 < ?n" using less.prems(1,3) trim_start_id [of "z @ y"] by (cases "?n = 0") auto
    have "?n \<le> length z"
    proof (rule ccontr)
      assume "\<not> ?n \<le> length z"
      then have "cont ((z @ y) ! length z)" using False by (intro ws_cont) auto
      with less.prems(1,2) show False by (simp add: hd_conv_nth nth_append)
    qed
    then have "trim_start (drop ?n z @ y) = []" using less.prems(3) n by (subst (asm) trim_start.simps) simp
    with less.hyps [of "drop ?n z"] less.prems n False show ?thesis by simp
  qed (use less.prems in simp)
qed

lemma trim_end_fix: "trim_end y = y \<Longrightarrow> y \<noteq> [] \<Longrightarrow> trim_start y \<noteq> []"
  by (cases y) (auto split: if_splits)

lemma trim_end_append: "y \<noteq> [] \<Longrightarrow> \<not> cont (hd y) \<Longrightarrow> trim_end y = y \<Longrightarrow> trim_end (x @ y) = x @ y"
proof (induction x)
  case (Cons c x)
  have "trim_start ((c # x) @ y) \<noteq> []" using trim_start_boundary [of y "c # x"] trim_end_fix Cons.prems by blast
  with Cons show ?case by simp
qed simp

lemma word_trim_end: "find_ws w = length w \<Longrightarrow> trim_end w = w"
proof (induction w)
  case (Cons c w)
  then have "ws_width (c # w) = 0" "find_ws w = length w" by (auto split: if_splits)
  with Cons.IH trim_start_id [of "c # w"] show ?case by simp
qed simp

lemma trim_ends: "trim s = s \<Longrightarrow> ws_width s = 0 \<and> trim_end s = s"
proof -
  assume t: "trim s = s"
  have "length (trim_start s) = length s" using t trim_end_prefix [of "trim_start s"] trim_start_length [of s]
    by (metis trim_def length_append le_add1 le_antisym)
  moreover obtain p where "s = p @ trim_start s" using trim_start_suffix by blast
  ultimately have "trim_start s = s" by (metis append_eq_append_conv append_Nil)
  then show ?thesis using t trim_start_width [of s] by (simp add: trim_def)
qed

text \<open>Text that begins with a word and ends in trimmed text is trimmed.\<close>

lemma trim_framed: "ws_width x = 0 \<Longrightarrow> x \<noteq> [] \<Longrightarrow> y \<noteq> [] \<Longrightarrow> \<not> cont (hd y) \<Longrightarrow> trim_end y = y \<Longrightarrow> trim (x @ '' '' @ z @ y) = x @ '' '' @ z @ y"
  using trim_end_append [of y "x @ '' '' @ z"] by (simp add: trim_def trim_start_id ws_width_space)

lemma token_props:
  assumes "is_token w"
  shows "w \<noteq> []" "ws_width w = 0" "\<not> cont (hd w)" "trim_end w = w" "trim w = w" "find_ws w = length w" "is_word w"
  using assms word_trim_end [of w] is_word_ws_width [of w] by (auto simp: is_token_def is_word_def trim_def trim_start_id)

lemma trim_two_tokens: "is_token v \<Longrightarrow> is_token w \<Longrightarrow> trim (v @ CHR '' '' # w) = v @ CHR '' '' # w"
  using trim_framed [of v w "[]"] token_props [of v] token_props [of w] by simp

lemma trim_space: "trim (CHR '' '' # s) = trim s"
  by (simp add: trim_def trim_start_space)

lemma solid_digit: "is_digit c \<Longrightarrow> solid c"
  by (simp add: is_digit_def less_eq_char_def solid_def ws_width_def)

lemma solid_word: "list_all solid s \<Longrightarrow> find_ws s = length s"
  by (induction s) (auto simp: ws_width_solid)

lemma number_word: "find_ws (show_nat n) = length (show_nat n)"
  using show_nat_digits [of n] by (intro solid_word) (auto simp: list_all_iff solid_digit)

lemma number_token: "is_token (show_nat n)"
proof -
  have "\<not> cont (hd (show_nat n))" using show_nat_digits [of n] show_nat_nonempty [of n]
    by (cases "show_nat n") (auto simp: is_digit_def less_eq_char_def cont_def)
  then show ?thesis using show_nat_nonempty number_word by (simp add: is_token_def is_word_def)
qed

lemma parse_numbers [simp]: "parse_u64 (show_u64 t) = Some t" "parse_u32 (show_nat (unat n)) = Some n"
proof -
  have "unat t < 2 ^ LENGTH(64)" "unat n < 2 ^ LENGTH(32)" by (rule unsigned_less)+
  then show "parse_u64 (show_u64 t) = Some t" "parse_u32 (show_nat (unat n)) = Some n"
    using parse_show_nat [of "unat t" "2 ^ 64"] parse_show_nat [of "unat n" "2 ^ 32"]
    by (simp_all add: parse_u64_def parse_u32_def show_u64_def)
qed

section \<open>Targets\<close>

definition targets_text :: "string list \<Rightarrow> string" where
  "targets_text ts = concat (map (\<lambda>t. t @ '' '') ts)"

lemma join_targets: "ts \<noteq> [] \<Longrightarrow> join '' '' ts @ '' '' @ b = targets_text ts @ b"
  by (induction "'' ''" ts rule: join.induct) (simp_all add: targets_text_def)

definition good_target :: "string \<Rightarrow> bool" where
  "good_target t \<longleftrightarrow> is_token t \<and> target_char (hd t)"

lemma good_targets_all: "good_targets cs ps \<Longrightarrow> list_all good_target (cs @ ps) \<and> channels_in (cs @ ps) = cs \<and> principals_in (cs @ ps) = ps"
proof -
  assume g: "good_targets cs ps"
  have "starts_with ''#'' t = (hd t = CHR ''#'')" "starts_with ''@'' t = (hd t = CHR ''@'')" if "is_token t" for t
    using token_props(1) [OF that] by (cases t; simp add: starts_with_def)+
  with g show ?thesis
    by (auto simp: good_targets_def good_target_def target_char_def list_all_iff channels_in_def principals_in_def filter_id_conv filter_empty_conv)
qed

lemma split_targets_end: "good_body b \<Longrightarrow> split_targets b = ([], b)"
proof -
  assume b: "good_body b"
  then have "trim_start b = b" using trim_ends [of b] by (simp add: good_body_def trim_start_id)
  moreover have "\<not> is_target (take n b)" for n using b by (cases b; cases n) (auto simp: is_target_def good_body_def)
  ultimately show ?thesis by (subst split_targets.simps) simp
qed

lemma split_targets_space: "split_targets (CHR '' '' # s) = split_targets s"
  by (subst (1 2) split_targets.simps) (simp add: trim_start_space)

lemma split_targets_text: "list_all good_target ts \<Longrightarrow> good_body b \<Longrightarrow> split_targets (targets_text ts @ b) = (ts, b)"
proof (induction ts)
  case (Cons t ts)
  then have t: "is_word t" "is_target t" and ih: "split_targets (targets_text ts @ b) = (ts, b)"
    using token_props [of t] by (auto simp: good_target_def is_target_def split: list.splits)
  show ?case using t ih
    by (subst split_targets.simps) (simp add: targets_text_def trim_start_word is_word_split split_targets_space)
qed (simp add: targets_text_def split_targets_end)

lemma trim_targets:
  assumes "list_all good_target ts" "ts \<noteq> []" "good_body b"
  shows "trim (targets_text ts @ b) = targets_text ts @ b" "trim (show_u64 n @ CHR '' '' # targets_text ts @ b) = show_u64 n @ CHR '' '' # targets_text ts @ b"
proof -
  have b: "b \<noteq> []" "\<not> cont (hd b)" "trim_end b = b" using assms(3) trim_ends [of b] by (simp_all add: good_body_def)
  obtain t ts' where ts: "ts = t # ts'" using assms(2) by (cases ts) auto
  have t: "t \<noteq> []" "ws_width t = 0" using assms(1) token_props [of t] by (simp_all add: ts good_target_def)
  show "trim (targets_text ts @ b) = targets_text ts @ b" using trim_framed [OF t(2,1) b, of "targets_text ts'"] by (simp add: ts targets_text_def)
  show "trim (show_u64 n @ CHR '' '' # targets_text ts @ b) = show_u64 n @ CHR '' '' # targets_text ts @ b"
    using trim_framed [OF token_props(2,1) [OF number_token [of "unat n"]] b, of "targets_text ts"] number_token by (simp add: show_u64_def)
qed

section \<open>Reading a command back\<close>

lemma parse_two_words: "is_token a \<Longrightarrow> is_token b \<Longrightarrow> two_words (a @ CHR '' '' # b) = Some (a, b)"
  using token_props(7) by (simp add: two_words_def split_whitespace_Cons split_whitespace_word)

lemma parse_send_shown: "good_targets cs ps \<Longrightarrow> good_body b \<Longrightarrow> parse_send (trim (join '' '' (cs @ ps) @ '' '' @ b)) = Send cs ps b"
proof -
  assume g: "good_targets cs ps" "good_body b"
  then have ts: "cs @ ps \<noteq> []" "list_all good_target (cs @ ps)" "channels_in (cs @ ps) = cs" "principals_in (cs @ ps) = ps"
    using good_targets_all by (auto simp: good_targets_def)
  show ?thesis unfolding join_targets [OF ts(1)] trim_targets(1) [OF ts(2,1) g(2)] parse_send_def split_targets_text [OF ts(2) g(2)]
    using ts g(2) by (simp add: good_body_def)
qed

lemma parse_reply_shown:
  assumes "good_targets cs ps" "good_body b"
  shows "parse_reply (trim (show_u64 t @ '' '' @ join '' '' (cs @ ps) @ '' '' @ b)) = Reply t cs ps b"
proof -
  have ts: "cs @ ps \<noteq> []" "list_all good_target (cs @ ps)" "channels_in (cs @ ps) = cs" "principals_in (cs @ ps) = ps"
    using assms good_targets_all by (auto simp: good_targets_def)
  have "CHR '' '' \<notin> set (show_u64 t)" using show_nat_digits [of "unat t"] by (auto simp: list_all_iff show_u64_def is_digit_def less_eq_char_def)
  then have "splitn2 (CHR '' '') (show_u64 t @ CHR '' '' # targets_text (cs @ ps) @ b) = (show_u64 t, Some (targets_text (cs @ ps) @ b))"
    by (simp add: splitn2_def split_once_Some [THEN iffD2])
  moreover have "show_u64 t @ '' '' @ join '' '' (cs @ ps) @ '' '' @ b = show_u64 t @ CHR '' '' # targets_text (cs @ ps) @ b"
    using join_targets [OF ts(1)] by simp
  ultimately show ?thesis
    using ts assms(2) by (simp only: parse_reply_def trim_targets [OF ts(2,1) assms(2)]) (auto simp: trim_targets split_targets_text good_body_def)
qed

lemma parse_history_shown: "is_token target \<Longrightarrow> parse_history (trim (target @ '' '' @ show_nat (unat n))) = History target n"
  using token_props(7) [of target] token_props(7) [OF number_token [of "unat n"]] trim_two_tokens [OF _ number_token]
  by (simp add: parse_history_def split_whitespace_Cons split_whitespace_word)

lemma shown_number [simp]: "trim (show_u64 n) = show_u64 n" "show_u64 n \<noteq> []"
  using token_props(5) [OF number_token [of "unat n"]] show_nat_nonempty by (simp_all add: show_u64_def)

lemma trim_Nil [simp]: "trim [] = []"
  by (simp add: trim_def)

lemmas at_command = parse_command_def starts_with_def splitn2_def parse_slash_def trim_space

text \<open>C35. What an input line means is what it says: the line written for any well-formed command
  (targets are words that begin with \<open>#\<close> or \<open>@\<close>, a body is trimmed text that does not look
  like a target, names carry no padding) is read by \<open>parse_command\<close> as that very command,
  with the channels and the principals told apart and every number read back.\<close>

theorem command_roundtrip: "good_command c \<Longrightarrow> parse_command (show_command c) = c"
proof (cases c)
  case (AdminSubscription sub p ch)
  then show "good_command c \<Longrightarrow> ?thesis" by (cases sub) (simp_all add: at_command trim_two_tokens parse_two_words)
next
  case (ThreadFocus t)
  then show ?thesis by (cases t) (simp_all add: at_command)
next
  case (Archive ch arch)
  then show "good_command c \<Longrightarrow> ?thesis" by (cases arch) (simp_all add: at_command)
qed (simp_all add: at_command trim_two_tokens parse_two_words parse_send_shown [simplified] parse_reply_shown [simplified] parse_history_shown [simplified])

theorem command_roundtrip_witness: "parse_command ''/reply 7 #a @b it works'' = Reply 7 [''#a''] [''@b''] ''it works''"
proof -
  have "good_command (Reply 7 [''#a''] [''@b''] ''it works'')" by code_simp
  moreover have "show_command (Reply 7 [''#a''] [''@b''] ''it works'') = ''/reply 7 #a @b it works''" by code_simp
  ultimately show ?thesis using command_roundtrip [of "Reply 7 [''#a''] [''@b''] ''it works''"] by simp
qed

section \<open>What a command asks of the broker\<close>

text \<open>The operation of the broker a command stands for, with its arguments.\<close>

fun asked :: "u64 \<Rightarrow> app \<Rightarrow> ui_command \<Rightarrow> json handler option" where
  "asked sid ap (Post contents) = map_option (\<lambda>chan. send_message sid
     \<lparr>sp_channels = [chan], sp_principals = [], sp_body = contents, sp_thread_id = ap_thread ap\<rparr>) (ap_focus ap)"
| "asked sid ap (Send cs ps contents) = Some (send_message sid
     \<lparr>sp_channels = cs, sp_principals = ps, sp_body = contents, sp_thread_id = None\<rparr>)"
| "asked sid ap (Reply t cs ps contents) = Some (send_message sid
     \<lparr>sp_channels = cs, sp_principals = ps, sp_body = contents, sp_thread_id = Some t\<rparr>)"
| "asked sid ap (Create nm) = Some (create_channel sid \<lparr>rp_name = nm, rp_codex = None, rp_admin_token = None\<rparr>)"
| "asked sid ap (AdminSubscription sub p c) = Some (admin_subscription_rpc sid \<lparr>sb_principal = p, sb_channel = c\<rparr> sub)"
| "asked sid ap (Rename a b) = Some (rename sid \<lparr>rn_channel = a, rn_new_name = b\<rparr>)"
| "asked sid ap (Archive c arch) = Some (archive sid c arch)"
| "asked sid ap (Delete c) = Some (delete_request sid c)"
| "asked sid ap (Confirm c) = (case ap_pending_delete ap of None \<Rightarrow> None | Some (chan, token) \<Rightarrow>
     if c = chan then Some (delete_confirm sid \<lparr>dc_channel = chan, dc_confirmation_token = token\<rparr>) else None)"
| "asked sid ap (Status i) = Some (message_status sid i)"
| "asked sid ap (History target n) =
     (if starts_with ''#'' target then Some (history sid \<lparr>hi_scope = ScopeChannel target, hi_before_message_id = None, hi_limit = n\<rparr>)
      else if target = ap_principal ap then None
      else Some (history sid \<lparr>hi_scope = DmWith target, hi_before_message_id = None, hi_limit = n\<rparr>))"
| "asked sid ap Who = Some who"
| "asked sid ap Daemon = Some (daemon_status sid)"
| "asked sid ap Shutdown = Some (daemon_shutdown sid)"
| "asked sid ap c = None"

lemma parse_ok: "d params = Some p \<Longrightarrow> bindE (parse d params) k = k p"
  by (simp add: parse_def bindE_def returnE_def)

lemma dec_send_call: "dec_send_params (uc_params (send_call cs ps b t)) =
    Some \<lparr>sp_channels = cs, sp_principals = ps, sp_body = b, sp_thread_id = t\<rparr>"
  by (cases t) (simp_all add: send_call_def dec_send_params_def codec_simps scalar_codecs)

lemma send_call_method: "uc_method (send_call cs ps b t) = MESSAGE_SEND"
  by (simp add: send_call_def)

lemma dec_history_call:
  "dec_history_params (JObj [(''scope'', JObj [(''channel'', JStr c)]), (''limit'', enc_u32 n)]) =
    Some \<lparr>hi_scope = ScopeChannel c, hi_before_message_id = None, hi_limit = n\<rparr>"
  "dec_history_params (JObj [(''scope'', JObj [(''dm_with'', JStr c)]), (''limit'', enc_u32 n)]) =
    Some \<lparr>hi_scope = DmWith c, hi_before_message_id = None, hi_limit = n\<rparr>"
  by (simp_all add: dec_history_params_def dec_history_scope_def codec_simps scalar_codecs)

lemma dec_simple_calls:
  "dec_channel_params (JObj [(''channel'', JStr c)]) = Some c"
  "dec_register_params (JObj [(''name'', JStr c)]) = Some \<lparr>rp_name = c, rp_codex = None, rp_admin_token = None\<rparr>"
  "dec_admin_subscription_params (JObj [(''principal'', JStr p), (''channel'', JStr c)]) = Some \<lparr>sb_principal = p, sb_channel = c\<rparr>"
  "dec_rename_params (JObj [(''channel'', JStr c), (''new_name'', JStr p)]) = Some \<lparr>rn_channel = c, rn_new_name = p\<rparr>"
  "dec_delete_confirm_params (JObj [(''channel'', JStr c), (''confirmation_token'', JStr p)]) =
    Some \<lparr>dc_channel = c, dc_confirmation_token = p\<rparr>"
  "dec_message_status_params (JObj [(''message_id'', enc_u64 i)]) = Some i"
  by (simp_all add: dec_channel_params_def dec_register_params_def dec_admin_subscription_params_def dec_rename_params_def
    dec_delete_confirm_params_def dec_message_status_params_def codec_simps scalar_codecs)

text \<open>C33. The client and the broker agree on every command: the method and the parameters of the
  call a command makes are dispatched by the broker to exactly the operation the command
  stands for, with its arguments (plain text to the focused channel and thread, the two
  histories told apart, a confirmed deletion with the token the broker gave), and a command
  that stands for none makes no call.\<close>

theorem commands_reach_operations:
  "map_option (\<lambda>call. dispatch_method sid (method_name (uc_method call)) (uc_params call)) (snd (run_ui_command c ap)) = asked sid ap c"
proof (cases c)
  case (History target n)
  then show ?thesis by (simp add: run_ui_command_def dispatch_method_def parse_ok dec_history_call)
next
  case (AdminSubscription sub p ch)
  then show ?thesis by (cases sub) (simp_all add: run_ui_command_def simple_call_def dispatch_method_def parse_ok dec_simple_calls)
next
  case (Archive ch arch)
  then show ?thesis by (cases arch) (simp_all add: run_ui_command_def simple_call_def dispatch_method_def parse_ok dec_simple_calls)
qed (simp_all add: run_ui_command_def dispatch_method_def send_call_method simple_call_def dec_send_call parse_ok dec_simple_calls
  split: option.split prod.split)

section \<open>Confirmed deletions\<close>

definition pendings :: "ui list \<Rightarrow> (string \<times> string) multiset" where
  "pendings evs = mset (concat (map (\<lambda>ev. case ev of PendingDelete c t \<Rightarrow> [(c, t)] | _ \<Rightarrow> []) evs))"

definition confirm_call :: "string \<times> string \<Rightarrow> ui_call" where
  "confirm_call ct = simple_call CHANNEL_DELETE_CONFIRM [(''channel'', JStr (fst ct)), (''confirmation_token'', JStr (snd ct))]"

definition confirms :: "ui_call option \<Rightarrow> bool" where
  "confirms cl \<longleftrightarrow> (case cl of Some x \<Rightarrow> uc_method x = CHANNEL_DELETE_CONFIRM | None \<Rightarrow> False)"

definition made :: "ui_call option \<Rightarrow> ui_call list" where
  "made cl = (case cl of None \<Rightarrow> [] | Some x \<Rightarrow> [x])"

definition confirmations :: "ui_call list \<Rightarrow> ui_call multiset" where
  "confirmations calls = filter_mset (\<lambda>c. uc_method c = CHANNEL_DELETE_CONFIRM) (mset calls)"

lemma confirmations_made: "\<not> confirms cl \<Longrightarrow> confirmations (made cl) = {#}"
  by (cases cl) (simp_all add: confirms_def made_def confirmations_def)

lemma confirmations_append: "confirmations (xs @ ys) = confirmations xs + confirmations ys"
  by (simp add: confirmations_def)

definition pending :: "app \<Rightarrow> (string \<times> string) multiset" where
  "pending ap = (case ap_pending_delete ap of None \<Rightarrow> {#} | Some ct \<Rightarrow> {#ct#})"

lemma push_fields [simp]: "ap_pending_delete (push l ap) = ap_pending_delete ap" "ap_scroll (push l ap) = ap_scroll ap"
  by (simp_all add: push_def Let_def)

lemma complete_fields [simp]: "ap_pending_delete (complete_command ap) = ap_pending_delete ap"
  by (simp add: complete_command_def split: list.split)

text \<open>What a command does to the pending deletion, and when it confirms one.\<close>

lemma command_pending: "run_ui_command c ap = (ap', cl) \<Longrightarrow>
    (case cl of Some x \<Rightarrow> uc_method x = CHANNEL_DELETE_CONFIRM | None \<Rightarrow> False) \<Longrightarrow>
    \<exists>ct. cl = Some (confirm_call ct) \<and> c = Confirm (fst ct) \<and> ap_pending_delete ap = Some ct \<and> ap_pending_delete ap' = None"
  by (cases c) (auto simp: run_ui_command_def simple_call_def send_call_def confirm_call_def Let_def split: option.splits prod.splits if_splits)

lemma command_pending_less: "run_ui_command c ap = (ap', cl) \<Longrightarrow> pending ap' \<subseteq># pending ap"
  by (cases c) (auto simp: run_ui_command_def pending_def Let_def split: option.splits prod.splits if_splits)

lemma handle_key_cases: "handle_key k ap = (ap', cl) \<Longrightarrow>
    (cl = None \<and> ap_pending_delete ap' = ap_pending_delete ap) \<or>
    (k = Enter \<and> run_command (trim (ap_input ap)) (ap\<lparr>ap_input := [], ap_scroll := 0\<rparr>) = (ap', cl))"
  by (cases k) (auto simp: handle_key_def scroll_up_def scroll_down_def Let_def split: if_splits)

lemma handle_key_pending: "handle_key k ap = (ap', cl) \<Longrightarrow> pending ap' \<subseteq># pending ap"
  using handle_key_cases [of k ap ap' cl] command_pending_less [of "parse_command (trim (ap_input ap))" "ap\<lparr>ap_input := [], ap_scroll := 0\<rparr>" ap' cl]
  by (auto simp: run_command_def pending_def)

lemma handle_key_confirms: "handle_key k ap = (ap', cl) \<Longrightarrow> confirms cl \<Longrightarrow>
    \<exists>ct. cl = Some (confirm_call ct) \<and> k = Enter \<and> parse_command (trim (ap_input ap)) = Confirm (fst ct) \<and>
      ap_pending_delete ap = Some ct \<and> ap_pending_delete ap' = None"
  using handle_key_cases [of k ap ap' cl] command_pending [of "parse_command (trim (ap_input ap))" "ap\<lparr>ap_input := [], ap_scroll := 0\<rparr>" ap' cl]
  by (auto simp: run_command_def confirms_def)

text \<open>One event: what is confirmed was pending, and only an event of the broker's makes
  something pending.\<close>

lemma on_ui_pending:
  assumes "on_ui ev ap = (ap', cl)"
  shows "confirmations (made cl) + image_mset confirm_call (pending ap') \<subseteq># image_mset confirm_call (pending ap + pendings [ev])"
proof (cases ev)
  case (Input k)
  then have h: "handle_key k ap = (ap', cl)" "pendings [ev] = {#}" using assms by (simp_all add: on_ui_def pendings_def)
  show ?thesis
  proof (cases "confirms cl")
    case True
    from handle_key_confirms [OF h(1) True] obtain ct where "cl = Some (confirm_call ct)" "ap_pending_delete ap = Some ct" "ap_pending_delete ap' = None"
      by blast
    with h(2) show ?thesis by (simp add: pending_def made_def confirmations_def)
  next
    case False
    with h(2) handle_key_pending [OF h(1)] show ?thesis by (simp add: image_mset_subseteq_mono confirmations_made)
  qed
qed (use assms in \<open>auto simp: on_ui_def pendings_def pending_def made_def confirmations_def split: option.split\<close>)

lemma on_ui_confirms: "on_ui ev ap = (ap', cl) \<Longrightarrow> confirms cl \<Longrightarrow> \<exists>k. ev = Input k \<and> handle_key k ap = (ap', cl)"
  by (cases ev) (auto simp: on_ui_def confirms_def)

lemma draw_pending [simp]: "pending (snd (draw rows h ap)) = pending ap"
  by (simp add: draw_def pending_def split: prod.split)

lemma event_loop_Cons: "on_ui ev ap = (ap1, cl) \<Longrightarrow> event_loop rows ((ev, w, h) # evs) ap =
    (if ap_quit ap1 then (ap1, made cl)
     else (fst (event_loop rows evs (snd (draw (rows w) h ap1))), made cl @ snd (event_loop rows evs (snd (draw (rows w) h ap1)))))"
  by (cases cl) (simp_all add: made_def split: prod.split)

lemma event_loop_pending:
  "confirmations (snd (event_loop rows evs ap)) \<subseteq># image_mset confirm_call (pending ap + pendings (map fst evs))"
proof (induction evs arbitrary: ap)
  case (Cons e evs)
  obtain ev w h where e: "e = (ev, w, h)" by (cases e)
  obtain ap1 cl where o: "on_ui ev ap = (ap1, cl)" by fastforce
  let ?made = "confirmations (made cl)" and ?next = "snd (event_loop rows evs (snd (draw (rows w) h ap1)))"
  let ?P = "image_mset confirm_call (pending ap + pendings [ev])" and ?R = "image_mset confirm_call (pendings (map fst evs))"
  have split: "image_mset confirm_call (pending ap + pendings (map fst (e # evs))) = ?P + ?R" by (simp add: e pendings_def)
  have p: "?made + image_mset confirm_call (pending ap1) \<subseteq># ?P" by (rule on_ui_pending [OF o])
  show ?case
  proof (cases "ap_quit ap1")
    case True
    then show ?thesis unfolding split unfolding e event_loop_Cons [OF o] using p
      subset_mset.order_trans [of ?made "?made + image_mset confirm_call (pending ap1)" "?P + ?R"]
      subset_mset.order_trans [of "?made + image_mset confirm_call (pending ap1)" ?P "?P + ?R"] by simp
  next
    case False
    have "confirmations ?next \<subseteq># image_mset confirm_call (pending ap1) + ?R" using Cons.IH [of "snd (draw (rows w) h ap1)"] by simp
    then have "?made + confirmations ?next \<subseteq># ?made + image_mset confirm_call (pending ap1) + ?R" by (simp add: add.assoc)
    also have "\<dots> \<subseteq># ?P + ?R" using p by simp
    finally show ?thesis unfolding split unfolding e event_loop_Cons [OF o] using False by (simp add: confirmations_append)
  qed
qed (simp add: confirmations_def)

text \<open>C34. A channel is deleted only with the name typed again and a token the broker gave for it,
  and no token is used twice: over any run of the client the confirming calls are among
  those of the pending deletions the broker's answers announced, each counted as often; and
  an event makes such a call only when it is the Enter key on the line \<open>/confirm\<close> with the
  very name of the deletion pending, which is not pending any more after it.\<close>

theorem deletions_confirmed_once:
  "confirmations (snd (event_loop rows evs (start_app addr nm))) \<subseteq># image_mset confirm_call (pendings (map fst evs)) \<and>
   (case on_ui ev ap of (ap', Some cl) \<Rightarrow> uc_method cl = CHANNEL_DELETE_CONFIRM \<longrightarrow>
      (case ap_pending_delete ap of
         Some (chan, token) \<Rightarrow> cl = confirm_call (chan, token) \<and> ev = Input Enter \<and>
           parse_command (trim (ap_input ap)) = Confirm chan \<and> ap_pending_delete ap' = None
       | None \<Rightarrow> False) | _ \<Rightarrow> True)"
proof (intro conjI)
  have "pending (start_app addr nm) = {#}" by (simp add: pending_def start_app_def new_app_def)
  then show "confirmations (snd (event_loop rows evs (start_app addr nm))) \<subseteq># image_mset confirm_call (pendings (map fst evs))"
    using event_loop_pending [of rows evs "start_app addr nm"] by simp
next
  obtain ap' cl where o: "on_ui ev ap = (ap', cl)" by fastforce
  have "\<exists>ct. cl = Some (confirm_call ct) \<and> ev = Input Enter \<and> parse_command (trim (ap_input ap)) = Confirm (fst ct) \<and>
      ap_pending_delete ap = Some ct \<and> ap_pending_delete ap' = None" if "confirms cl"
    using on_ui_confirms [OF o that] handle_key_confirms [of _ ap ap' cl] that by blast
  with o show "case on_ui ev ap of (ap', Some cl) \<Rightarrow> uc_method cl = CHANNEL_DELETE_CONFIRM \<longrightarrow>
      (case ap_pending_delete ap of
         Some (chan, token) \<Rightarrow> cl = confirm_call (chan, token) \<and> ev = Input Enter \<and>
           parse_command (trim (ap_input ap)) = Confirm chan \<and> ap_pending_delete ap' = None
       | None \<Rightarrow> False) | _ \<Rightarrow> True"
    by (auto simp: confirms_def split: option.split)
qed

theorem deletions_confirmed_once_witness:
  "\<exists>ap'. on_ui (Input Enter) ((new_app ''a'' ''@m'')\<lparr>ap_input := ''/confirm #c '', ap_pending_delete := Some (''#c'', ''t'')\<rparr>) =
    (ap', Some (confirm_call (''#c'', ''t''))) \<and> ap_pending_delete ap' = None"
proof -
  let ?ap = "(new_app ''a'' ''@m'')\<lparr>ap_input := ''/confirm #c '', ap_pending_delete := Some (''#c'', ''t'')\<rparr>"
  have "map_option uc_method (snd (on_ui (Input Enter) ?ap)) = Some CHANNEL_DELETE_CONFIRM" by code_simp
  then obtain ap' cl where run: "on_ui (Input Enter) ?ap = (ap', Some cl)" "uc_method cl = CHANNEL_DELETE_CONFIRM"
    by (cases "on_ui (Input Enter) ?ap") auto
  with deletions_confirmed_once [of "\<lambda>_ _. 0" "[]" "[]" "[]" "Input Enter" ?ap] show ?thesis by simp
qed

section \<open>Bounds\<close>

definition bounded :: "app \<Rightarrow> bool" where
  "bounded ap \<longleftrightarrow> length (ap_lines ap) \<le> max_lines \<and> ap_scroll ap \<le> u16_max"

lemma bounded_fields [simp]:
  "bounded (ap\<lparr>ap_input := i\<rparr>) = bounded ap" "bounded (ap\<lparr>ap_focus := f\<rparr>) = bounded ap" "bounded (ap\<lparr>ap_thread := t\<rparr>) = bounded ap"
  "bounded (ap\<lparr>ap_pending_delete := p\<rparr>) = bounded ap" "bounded (ap\<lparr>ap_quit := q\<rparr>) = bounded ap"
  by (simp_all add: bounded_def)

lemma push_lines: "ap_lines (push l ap) = (let ls = ap_lines ap @ split_char (CHR 0x0A) l in drop (length ls - max_lines) ls)"
  by (simp add: push_def Let_def)

lemma last_lines: "length (drop (length ls - m) ls) \<le> m"
  by simp

lemma bounded_push: "bounded ap \<Longrightarrow> bounded (push l ap)"
  using last_lines [of "ap_lines ap @ split_char (CHR 0x0A) l" max_lines] by (simp only: bounded_def push_lines Let_def push_fields)

lemma bounded_zero: "bounded ap \<Longrightarrow> bounded (ap\<lparr>ap_scroll := 0\<rparr>)"
  by (simp add: bounded_def)

lemma bounded_scroll: "bounded ap \<Longrightarrow> bounded (scroll_up n ap)" "bounded ap \<Longrightarrow> bounded (scroll_down n ap)"
  by (auto simp: bounded_def scroll_up_def scroll_down_def)

lemma bounded_command: "bounded ap \<Longrightarrow> bounded (fst (run_ui_command c ap))"
  by (cases c) (auto simp: run_ui_command_def Let_def bounded_push split: option.split)

lemma bounded_complete: "bounded ap \<Longrightarrow> bounded (complete_command ap)"
  by (simp add: complete_command_def bounded_push split: list.split)

lemma bounded_key: "bounded ap \<Longrightarrow> bounded (fst (handle_key k ap))"
  by (cases k) (simp_all add: handle_key_def run_command_def Let_def bounded_scroll bounded_zero bounded_command bounded_complete)

lemma bounded_on_ui: "bounded ap \<Longrightarrow> bounded (fst (on_ui ev ap))"
  by (cases ev) (simp_all add: on_ui_def bounded_push bounded_key)

lemma bounded_draw: "bounded ap \<Longrightarrow> bounded (snd (draw rows h ap))"
  by (auto simp: bounded_def draw_def scroll_offset_rows_def Let_def)

lemma bounded_event_loop: "bounded ap \<Longrightarrow> bounded (fst (event_loop rows evs ap))"
proof (induction evs arbitrary: ap)
  case (Cons e evs)
  obtain ev w h where e: "e = (ev, w, h)" by (cases e)
  obtain ap1 cl where o: "on_ui ev ap = (ap1, cl)" by fastforce
  then have "bounded ap1" using bounded_on_ui [OF Cons.prems, of ev] by simp
  then show ?case unfolding e event_loop_Cons [OF o] by (simp add: Cons.IH bounded_draw)
qed simp

text \<open>A content of \<open>m\<close> positions split at \<open>c\<close>, each part saturating at \<open>u\<close>.\<close>

lemma saturated_split:
  fixes c m u :: nat
  assumes "c \<le> m"
  shows "min (m - c) u + min c u \<le> m" "min (m - c) u + min c u = m \<or> min (m - c) u = u \<or> min c u = u"
  using assms by (cases "m - c \<le> u"; cases "c \<le> u"; simp)+

lemma min_diff_split: "(n :: nat) - k = n - min n k"
  by (cases "n \<le> k") simp_all

lemma scroll_set: "ap_scroll (ap\<lparr>ap_scroll := n\<rparr>) = n"
  by simp

lemma draw_bounds: "case draw rows h ap of (offset, ap') \<Rightarrow>
    offset + ap_scroll ap' \<le> rows (ap_lines ap) - (h - 2) \<and> ap_scroll ap' \<le> ap_scroll ap \<and>
    (offset + ap_scroll ap' = rows (ap_lines ap) - (h - 2) \<or> offset = u16_max \<or> ap_scroll ap' = u16_max)"
  unfolding draw_def scroll_offset_rows_def Let_def prod.case scroll_set
  by (intro conjI saturated_split min.cobounded2) (rule min.coboundedI1, rule min.cobounded1)

lemma half_saturated:
  fixes c m u :: nat
  assumes "c \<le> m"
  shows "min (m - c) u + c \<le> m" "min (m - c) u + c = m \<or> min (m - c) u = u"
  using assms by (cases "m - c \<le> u"; simp)+

lemma input_viewport_bounds: "case input_viewport n inner of (left, shown) \<Rightarrow>
    shown \<le> inner - 1 \<and> left + shown \<le> n \<and> (left + shown = n \<or> left = u16_max)"
proof -
  have n: "n - (inner - 1) = n - min n (inner - 1)" by (rule min_diff_split)
  show ?thesis unfolding input_viewport_def Let_def prod.case n
    by (intro conjI half_saturated min.cobounded1 min.cobounded2)
qed

text \<open>C40. What the client keeps and shows is bounded: over any run it holds at most 5000 lines and a
  scroll state within 16 bits; a pushed line is the end of what is kept, and older lines are
  given up only when the 5000 are full; a frame never scrolls past the end of the content, and
  stands exactly where the clamped scroll state says unless 16 bits cannot hold the
  position; the input line shows its end, with a column left for the cursor.\<close>

theorem view_bounded:
  "bounded (fst (event_loop rows evs (start_app addr nm))) \<and>
   (\<exists>older. older @ ap_lines (push l ap) = ap_lines ap @ split_char (CHR 0x0A) l \<and> (older = [] \<or> length (ap_lines (push l ap)) = max_lines)) \<and>
   (case draw (rows w) h ap of (offset, ap') \<Rightarrow>
      offset + ap_scroll ap' \<le> rows w (ap_lines ap) - (h - 2) \<and> ap_scroll ap' \<le> ap_scroll ap \<and>
      (offset + ap_scroll ap' = rows w (ap_lines ap) - (h - 2) \<or> offset = u16_max \<or> ap_scroll ap' = u16_max)) \<and>
   (case input_viewport display_width inner_width of (left, shown) \<Rightarrow>
      shown \<le> inner_width - 1 \<and> left + shown \<le> display_width \<and> (left + shown = display_width \<or> left = u16_max))"
proof (intro conjI)
  have "bounded (new_app addr nm)" by (simp add: bounded_def new_app_def)
  then show "bounded (fst (event_loop rows evs (start_app addr nm)))" by (simp add: bounded_event_loop start_app_def bounded_push)
next
  let ?ls = "ap_lines ap @ split_char (CHR 0x0A) l" and ?n = "\<lambda>ls. length ls - max_lines"
  have "take (?n ?ls) ?ls @ ap_lines (push l ap) = ?ls" by (simp only: push_lines Let_def append_take_drop_id)
  moreover have "take (?n ?ls) ?ls = [] \<or> length (ap_lines (push l ap)) = max_lines"
    by (cases "length ?ls \<le> max_lines") (simp_all only: push_lines Let_def length_drop, simp_all)
  ultimately show "\<exists>older. older @ ap_lines (push l ap) = ?ls \<and> (older = [] \<or> length (ap_lines (push l ap)) = max_lines)" by blast
qed (rule draw_bounds input_viewport_bounds)+

end
