(* ===== verification/Cli.thy ===== *)
theory Cli
  imports Config Shim Tui Rpc
begin

text \<open>
  The command line (\<open>crates/workplace/src/main.rs\<close>): the subcommands and what each goes on to
  run, the daemon's configuration from the file, the shim's configuration, the lazy start of a local daemon with its health check, the
  wait of the terminal client for the admin credential, and the choice of a shell. The
  network's outcomes and the answer to the health check are values; a sleep lets others
  change the file system.
\<close>

section \<open>The daemon\<close>

definition lift_result :: "'e + 'a \<Rightarrow> ('s, 'e, 'a) em" where
  "lift_result r = (case r of Inl e \<Rightarrow> failE e | Inr x \<Rightarrow> returnE x)"

definition or_default :: "'a option \<Rightarrow> 'a \<Rightarrow> 'a" where
  "or_default x d = (case x of Some y \<Rightarrow> y | None \<Rightarrow> d)"

text \<open>\<open>checked\<close> as in \<open>parse_size\<close>; the fields are computed in the order they are written.\<close>

definition daemon_config ::
  "(string \<Rightarrow> string + ip_addr list) \<Rightarrow> bool \<Rightarrow> environment \<Rightarrow> string \<Rightarrow> config_file \<Rightarrow> (os, config_error, broker_config) em" where
  "daemon_config lookup checked env ver cfg =
     bindE (mapE (\<lambda>l. lift_result (parse_endpoint lookup l)) (bs_listen (cf_broker cfg))) (\<lambda>ls.
     bindE (lift_result (parse_size checked (bs_message_size_limit (cf_broker cfg)))) (\<lambda>limit.
     bindE (ensure_admin_token (or_default (bs_admin_token_file (cf_broker cfg)) (default_admin_token_path env))) (\<lambda>token.
     returnE \<lparr>listens = ls,
       db_path = Some (or_default (cf_database cfg) (path_join (data_dir env) ''workplace.db'')),
       message_size_limit = unat limit, grace_window = 60000, version = ver,
       auth_token = bs_auth_token (cf_broker cfg), codex_token_file = cs_token_file (cf_codex cfg),
       max_out_queue = max_out_queue (default_config ver), admin_token = Some token\<rparr>)))"

section \<open>The shim\<close>

definition shim_config_of ::
  "(string \<Rightarrow> string + ip_addr list) \<Rightarrow> string \<Rightarrow> u32 \<Rightarrow> string \<Rightarrow> config_file \<Rightarrow> string option \<Rightarrow> string option \<Rightarrow> config_error + socket_addr \<times> shim_config" where
  "shim_config_of lookup ver pid cwd cfg broker_flag codex =
     (case parse_endpoint lookup (or_default broker_flag (cl_broker (cf_client cfg))) of
        Inl e \<Rightarrow> Inl e
      | Inr addr \<Rightarrow> Inr (addr, \<lparr>sc_version = ver, sc_codex_app_server = codex, sc_auth_token = cl_auth_token (cf_client cfg),
          sc_pid = pid, sc_cwd = cwd\<rparr>))"

section \<open>The health check\<close>

datatype start_error =
    Unreachable
  | SpawnFailed
  | NotReady
  | HealthConnect
  | HealthWrite
  | NoHealthResponse
  | NotBroker
  | HealthRefused string

definition health_hello :: "string \<Rightarrow> u32 \<Rightarrow> string \<Rightarrow> string option \<Rightarrow> json" where
  "health_hello ver pid cwd token = JObj [(''jsonrpc'', JStr ''2.0''), (''id'', JNum 1), (''method'', JStr ''session/hello''),
     (''params'', JObj [
        (''client_info'', JObj [(''version'', JStr ver), (''pid'', enc_u32 pid), (''cwd'', JStr cwd)]),
        (''auth_token'', case token of Some t \<Rightarrow> JStr t | None \<Rightarrow> JNull)])]"

text \<open>What the exchange with the listener yields; the line it answers is JSON or not.\<close>

datatype health_io = HealthNoConnect | HealthWriteFailed | HealthReadFailed | HealthLine "json option"

definition health_verdict :: "json \<Rightarrow> start_error + unit" where
  "health_verdict v = (case jget ''error'' v of
      Some err \<Rightarrow> Inl (HealthRefused (or_default (Option.bind (jget ''message'' err) as_str) ''unknown error''))
    | None \<Rightarrow> (case Option.bind (Option.bind (jget ''result'' v) (jget ''broker_version'')) as_str of
        None \<Rightarrow> Inl NotBroker | Some _ \<Rightarrow> Inr ()))"

definition health_check :: "health_io \<Rightarrow> start_error + unit" where
  "health_check io = (case io of
      HealthNoConnect \<Rightarrow> Inl HealthConnect
    | HealthWriteFailed \<Rightarrow> Inl HealthWrite
    | HealthReadFailed \<Rightarrow> Inl NoHealthResponse
    | HealthLine None \<Rightarrow> Inl NotBroker
    | HealthLine (Some v) \<Rightarrow> health_verdict v)"

section \<open>Lazy start\<close>

text \<open>Whether the first connection succeeds, whether the daemon process starts, which of the
  later connection attempts succeed, and what the health check meets.\<close>

record start_io =
  si_connects :: bool
  si_spawns :: bool
  si_polls :: "bool list"
  si_health :: health_io

text \<open>At most \<open>n\<close> attempts.\<close>

fun wait_ready :: "nat \<Rightarrow> bool list \<Rightarrow> health_io \<Rightarrow> start_error + unit" where
  "wait_ready 0 polls io = Inl NotReady"
| "wait_ready (Suc n) [] io = wait_ready n [] io"
| "wait_ready (Suc n) (up # polls) io = (if up then health_check io else wait_ready n polls io)"

text \<open>The result, and whether a daemon was spawned.\<close>

definition lazy_start :: "socket_addr \<Rightarrow> start_io \<Rightarrow> (start_error + unit) \<times> bool" where
  "lazy_start addr io =
     (if si_connects io then (health_check (si_health io), False)
      else if \<not> endpoint_is_local addr then (Inl Unreachable, False)
      else if \<not> si_spawns io then (Inl SpawnFailed, True)
      else (wait_ready 50 (si_polls io) (si_health io), True))"

section \<open>The terminal client\<close>

text \<open>The credential is read once and then after each sleep, until a read succeeds; what others
  do to the file system during a sleep is a function.\<close>

fun retry_token :: "(os \<Rightarrow> os) list \<Rightarrow> string \<Rightarrow> (os, config_error, string) em" where
  "retry_token [] path s = read_admin_token path s"
| "retry_token (others # more_naps) path s = (case read_admin_token path s of
      (Inr t, s') \<Rightarrow> (Inr t, s')
    | (Inl e, s') \<Rightarrow> retry_token more_naps path (others s'))"

datatype cli_error = CliConfig config_error | CliStart start_error | NoCredential config_error

text \<open>Up to the start of the terminal: the calls it begins with, and whether a daemon was
  spawned. \<open>naps\<close> are the 20 sleeps.\<close>

definition run_cli ::
  "(string \<Rightarrow> string + ip_addr list) \<Rightarrow> environment \<Rightarrow> client_info \<Rightarrow> config_file \<Rightarrow> string option \<Rightarrow> string \<Rightarrow>
    start_io \<Rightarrow> (os \<Rightarrow> os) list \<Rightarrow> os \<Rightarrow> (cli_error + (methods \<times> json) list) \<times> os" where
  "run_cli lookup env ci cfg broker_flag nm io naps s =
     (case parse_endpoint lookup (or_default broker_flag (cl_broker (cf_client cfg))) of
        Inl e \<Rightarrow> (Inl (CliConfig e), s)
      | Inr addr \<Rightarrow> (case fst (lazy_start addr io) of
          Inl e \<Rightarrow> (Inl (CliStart e), s)
        | Inr _ \<Rightarrow> (case retry_token (take 20 naps)
              (or_default (cl_admin_token_file (cf_client cfg)) (default_admin_token_path env)) s of
            (Inl e, s') \<Rightarrow> (Inl (NoCredential e), s')
          | (Inr token, s') \<Rightarrow> (Inr (handshake ci (cl_auth_token (cf_client cfg)) nm token), s'))))"

section \<open>Completions\<close>

datatype shell = Bash | Zsh | Fish | Elvish | PowerShell

text \<open>The last component of a path; empty and \<open>.\<close> components do not count.\<close>

definition file_name :: "string \<Rightarrow> string option" where
  "file_name path = (case rev (filter (\<lambda>c. c \<noteq> [] \<and> c \<noteq> ''.'') (split_char (CHR ''/'') path)) of
      [] \<Rightarrow> None | c # _ \<Rightarrow> if c = ''..'' then None else Some c)"

definition shell_of :: "string \<Rightarrow> shell option" where
  "shell_of nm =
     (if nm = ''bash'' then Some Bash else if nm = ''zsh'' then Some Zsh else if nm = ''fish'' then Some Fish
      else if nm = ''elvish'' then Some Elvish else if nm = ''pwsh'' \<or> nm = ''powershell'' then Some PowerShell
      else None)"

definition detect_shell :: "environment \<Rightarrow> shell option" where
  "detect_shell env = Option.bind (map_of (env_vars env) ''SHELL'') (\<lambda>path. Option.bind (file_name path) shell_of)"

definition completion_shell :: "environment \<Rightarrow> shell option \<Rightarrow> shell option" where
  "completion_shell env flag = (case flag of Some s \<Rightarrow> Some s | None \<Rightarrow> detect_shell env)"

section \<open>Dispatch\<close>

text \<open>The subcommand the arguments select, as the argument parser gives it.\<close>

datatype command =
    Daemon
  | OpenCli "string option" string
  | ShimClaude "string option" "string option"
  | Completions "shell option"

text \<open>What the program goes on to run: the broker, with the app-server supervised beside it when one is
  configured; the terminal, with the calls it begins with; the shim; the printing of a script.\<close>

datatype launch =
    ServesBroker broker_config "(string \<times> string option) option"
  | OpensTerminal "(methods \<times> json) list"
  | ServesShim socket_addr shim_config
  | PrintsCompletions shell

datatype main_error = MainConfig config_error | MainClient cli_error | NoShell

definition supervised :: "config_file \<Rightarrow> (string \<times> string option) option" where
  "supervised cfg = map_option (\<lambda>listen. (listen, cs_token_file (cf_codex cfg))) (cs_app_server (cf_codex cfg))"

text \<open>What the process is given besides its arguments.\<close>

record process =
  pr_lookup :: "string \<Rightarrow> string + ip_addr list"
  pr_toml :: "string \<Rightarrow> string + config_file"
  pr_checked :: bool
  pr_env :: environment
  pr_version :: string
  pr_pid :: u32
  pr_cwd :: string
  pr_start :: start_io
  pr_naps :: "(os \<Rightarrow> os) list"

definition run_daemon :: "process \<Rightarrow> config_file \<Rightarrow> (os, main_error, launch) em" where
  "run_daemon pr cfg =
     bindE (map_err MainConfig (daemon_config (pr_lookup pr) (pr_checked pr) (pr_env pr) (pr_version pr) cfg)) (\<lambda>bc.
     returnE (ServesBroker bc (supervised cfg)))"

definition open_terminal :: "process \<Rightarrow> config_file \<Rightarrow> string option \<Rightarrow> string \<Rightarrow> (os, main_error, launch) em" where
  "open_terminal pr cfg broker_flag nm =
     bindE (map_err MainClient (run_cli (pr_lookup pr) (pr_env pr)
       \<lparr>ci_harness = None, ci_version = pr_version pr, ci_pid = pr_pid pr, ci_cwd = pr_cwd pr\<rparr>
       cfg broker_flag nm (pr_start pr) (pr_naps pr))) (\<lambda>calls.
     returnE (OpensTerminal calls))"

definition run_shim :: "process \<Rightarrow> config_file \<Rightarrow> string option \<Rightarrow> string option \<Rightarrow> (os, main_error, launch) em" where
  "run_shim pr cfg broker_flag codex =
     (case shim_config_of (pr_lookup pr) (pr_version pr) (pr_pid pr) (pr_cwd pr) cfg broker_flag codex of
        Inl e \<Rightarrow> failE (MainConfig e)
      | Inr (addr, sc) \<Rightarrow> returnE (ServesShim addr sc))"

definition run_completions :: "process \<Rightarrow> shell option \<Rightarrow> (os, main_error, launch) em" where
  "run_completions pr flag = (case completion_shell (pr_env pr) flag of
      None \<Rightarrow> failE NoShell | Some sh \<Rightarrow> returnE (PrintsCompletions sh))"

definition workplace_main :: "process \<Rightarrow> string option \<Rightarrow> command \<Rightarrow> (os, main_error, launch) em" where
  "workplace_main pr config_flag cmd =
     bindE (map_err MainConfig (load (pr_toml pr) (pr_env pr) config_flag)) (\<lambda>cfg.
     (case cmd of
        Daemon \<Rightarrow> run_daemon pr cfg
      | OpenCli broker_flag nm \<Rightarrow> open_terminal pr cfg broker_flag nm
      | ShimClaude broker_flag codex \<Rightarrow> run_shim pr cfg broker_flag codex
      | Completions flag \<Rightarrow> run_completions pr flag))"

text \<open>Computations that change no file.\<close>

definition keeps_files :: "(os, 'e, 'a) em \<Rightarrow> bool" where
  "keeps_files m \<longleftrightarrow> (\<forall>s. os_files (snd (m s)) = os_files s)"

named_theorems keeps

lemma keeps_return [keeps]: "keeps_files (returnE x)"
  and keeps_fail [keeps]: "keeps_files (failE e)"
  by (simp_all add: keeps_files_def returnE_def failE_def)

lemma keeps_bind [keeps]: "\<lbrakk>keeps_files m; \<And>x. keeps_files (f x)\<rbrakk> \<Longrightarrow> keeps_files (bindE m f)"
  by (auto simp: keeps_files_def bindE_def split: prod.split sum.split) (metis snd_conv)+

lemma keeps_handle [keeps]: "\<lbrakk>keeps_files m; \<And>e. keeps_files (h e); \<And>x. keeps_files (k x)\<rbrakk> \<Longrightarrow> keeps_files (handleE m h k)"
  by (auto simp: keeps_files_def handleE_def split: prod.split sum.split) (metis snd_conv)+

lemma keeps_map_err [keeps]: "keeps_files m \<Longrightarrow> keeps_files (map_err g m)"
  by (auto simp: map_err_def intro: keeps)

lemma keeps_with_file [keeps]: "keeps_files (with_file f path)"
  by (auto simp: keeps_files_def with_file_def syscall_def next_call_def split: option.split list.split sum.split)
    (auto simp: map_sum_def split: sum.splits)

lemma keeps_read_admin_token [keeps]: "keeps_files (read_admin_token path)"
  unfolding read_admin_token_def accept_token_def check_token_perms_def read_to_string_def file_mode_def
  by (auto intro!: keeps)

lemma keeps_load [keeps]: "keeps_files (load toml env flag)"
  unfolding load_def read_to_string_def Let_def by (auto intro!: keeps split: sum.split)

lemma keeps_run_cli [keeps]: "keeps_files (run_cli lk env ci cfg b nm io [])"
proof -
  have "os_files (snd (read_admin_token path s)) = os_files s" for path s
    using keeps_read_admin_token by (simp add: keeps_files_def)
  then show ?thesis
    by (auto simp: keeps_files_def run_cli_def split: sum.split prod.split) (metis snd_conv)+
qed

text \<open>No command but the daemon's changes a file: the credential is the daemon's to make.\<close>

theorem only_daemon_writes:
  assumes "cmd \<noteq> Daemon" and "pr_naps pr = []"
  shows "os_files (snd (workplace_main pr flag cmd s)) = os_files s"
proof -
  have "keeps_files (workplace_main pr flag cmd)"
    using assms unfolding workplace_main_def open_terminal_def run_shim_def run_completions_def
    by (cases cmd) (auto intro!: keeps split: sum.split option.split)
  then show ?thesis by (simp add: keeps_files_def)
qed

section \<open>The credential, from the daemon to the broker's check\<close>

lemma dec_handshake_register:
  "dec_register_params (snd (handshake ci auth nm token ! 1)) = Some \<lparr>rp_name = nm, rp_codex = None, rp_admin_token = Some token\<rparr>"
  by (simp add: handshake_def dec_register_params_def codec_simps scalar_codecs)

lemma handshake_method: "fst (handshake ci auth nm token ! 1) = ADMIN_REGISTER"
  by (simp add: handshake_def)

lemmas handshake_calls = dec_handshake_register [simplified] handshake_method [simplified]

lemma daemon_config_run:
  assumes "daemon_config lookup checked env ver cfg s = (Inr bc, s')"
  shows "\<exists>t s1. ensure_admin_token (or_default (bs_admin_token_file (cf_broker cfg)) (default_admin_token_path env)) s1 = (Inr t, s') \<and> admin_token bc = Some t"
  using assms by (auto simp: daemon_config_def bindE_ok returnE_ok)

text \<open>Whatever serves as a broker demands a credential.\<close>

lemma run_shim_result: "run_shim pr cfg b c s = (Inr x, s') \<Longrightarrow> \<exists>addr sc. x = ServesShim addr sc"
  by (auto simp: run_shim_def failE_def returnE_def split: sum.split_asm prod.split_asm)

theorem main_serves_closed:
  assumes "workplace_main pr flag cmd s = (Inr (ServesBroker bc beside), s')"
  shows "cmd = Daemon \<and> (\<exists>t. t \<noteq> [] \<and> admin_token bc = Some t)"
proof (cases cmd)
  case Daemon
  then obtain cfg s1 where "daemon_config (pr_lookup pr) (pr_checked pr) (pr_env pr) (pr_version pr) cfg s1 = (Inr bc, s')"
    using assms by (auto simp: workplace_main_def run_daemon_def bindE_ok returnE_ok map_err_ok)
  then obtain t s2 where "ensure_admin_token (or_default (bs_admin_token_file (cf_broker cfg)) (default_admin_token_path (pr_env pr))) s2 = (Inr t, s')"
    "admin_token bc = Some t" using daemon_config_run by blast
  then show ?thesis using ensure_run(1) Daemon by (fastforce simp: token_file_def)
qed (use assms in \<open>auto simp: workplace_main_def open_terminal_def run_completions_def bindE_ok returnE_ok failE_def
  dest: run_shim_result split: option.split_asm\<close>)

lemma retry_now: "read_admin_token path s = (Inr t, s') \<Longrightarrow> retry_token naps path s = (Inr t, s')"
  by (cases naps) simp_all

definition daemon_token_path :: "environment \<Rightarrow> config_file \<Rightarrow> string" where
  "daemon_token_path env cfg = or_default (bs_admin_token_file (cf_broker cfg)) (default_admin_token_path env)"

definition client_token_path :: "environment \<Rightarrow> config_file \<Rightarrow> string" where
  "client_token_path env cfg = or_default (cl_admin_token_file (cf_client cfg)) (default_admin_token_path env)"

text \<open>C31. The daemon never serves with admin registration open or ambiguous. Whenever it gets a
  configuration at all, that configuration demands a nonempty admin token: a registration is
  authorized exactly when it presents that token. A terminal client that looks for the
  credential where the daemon keeps it never lacks it, and when it gets as far as calling
  the broker, its \<open>admin/register\<close> is one the daemon authorizes.\<close>

theorem daemon_admin_closed:
  assumes "daemon_config lookup checked env ver cfg s = (Inr bc, s')"
    and "client_token_path env' ccfg = daemon_token_path env cfg"
    and "os_files s2 = os_files s'" and "os_faults s2 = []"
  shows "\<exists>t. t \<noteq> [] \<and> (\<forall>p. authorized bc p = (rp_admin_token p = Some t)) \<and>
    (case fst (run_cli lookup' env' ci ccfg flag nm io naps s2) of
       Inl e \<Rightarrow> e \<notin> range NoCredential
     | Inr calls \<Rightarrow> fst (calls ! 1) = ADMIN_REGISTER \<and>
         (case dec_register_params (snd (calls ! 1)) of Some p \<Rightarrow> rp_name p = nm \<and> authorized bc p | None \<Rightarrow> False))"
proof -
  obtain t s1 where t: "ensure_admin_token (daemon_token_path env cfg) s1 = (Inr t, s')" "admin_token bc = Some t"
    using daemon_config_run [OF assms(1)] by (auto simp: daemon_token_path_def)
  obtain e where e: "map_of (os_files s') (daemon_token_path env cfg) = Some e" "token_file t e" using ensure_run(1) [OF t(1)] by blast
  then have "read_admin_token (client_token_path env' ccfg) s2 = (Inr t, s2)" using reads_token [of s2 _ e t] assms by simp
  then have "retry_token (take 20 naps) (client_token_path env' ccfg) s2 = (Inr t, s2)" by (rule retry_now)
  moreover have auth: "\<forall>p. authorized bc p = (rp_admin_token p = Some t)" using t(2) by (auto simp: authorized_def split: option.split)
  ultimately have "case fst (run_cli lookup' env' ci ccfg flag nm io naps s2) of
       Inl e \<Rightarrow> e \<notin> range NoCredential
     | Inr calls \<Rightarrow> fst (calls ! 1) = ADMIN_REGISTER \<and>
         (case dec_register_params (snd (calls ! 1)) of Some p \<Rightarrow> rp_name p = nm \<and> authorized bc p | None \<Rightarrow> False)"
    by (auto simp: run_cli_def client_token_path_def [symmetric] handshake_calls split: sum.split)
  moreover have "t \<noteq> []" using e(2) by (simp add: token_file_def)
  ultimately show ?thesis using auth by blast
qed

definition demo_config_file :: config_file where
  "demo_config_file = \<lparr>
     cf_broker = \<lparr>bs_listen = [], bs_message_size_limit = ''9'', bs_auth_token = None, bs_admin_token_file = None\<rparr>,
     cf_client = \<lparr>cl_broker = ''127.0.0.1:1'', cl_auth_token = None, cl_admin_token_file = None\<rparr>,
     cf_database = None, cf_log_level = ''info'', cf_codex = \<lparr>cs_app_server = None, cs_token_file = None\<rparr>\<rparr>"

theorem daemon_admin_closed_witness:
  "\<exists>bc s' t. daemon_config (\<lambda>_. Inr []) False \<lparr>env_vars = [], env_home = None\<rparr> ''1'' demo_config_file
      \<lparr>os_files = [], os_umask = 18, os_entropy = replicate 32 7, os_faults = []\<rparr> = (Inr bc, s') \<and>
    t \<noteq> [] \<and> (\<forall>p. authorized bc p = (rp_admin_token p = Some t))"
proof -
  let ?env = "\<lparr>env_vars = [], env_home = None\<rparr>" and ?s = "\<lparr>os_files = [], os_umask = 18, os_entropy = replicate 32 7, os_faults = []\<rparr>"
  let ?run = "daemon_config (\<lambda>_. Inr []) False ?env ''1'' demo_config_file ?s"
  let ?token = "ensure_admin_token (daemon_token_path ?env demo_config_file) ?s"
  have "isl (fst ?token) = False \<and> os_faults (snd ?token) = []" by code_simp
  then obtain t s' where token: "?token = (Inr t, s')" "os_faults s' = []" by (cases ?token; cases "fst ?token") auto
  have "trim ''9'' = ''9''" by (rule trim_solid) (simp_all add: ws_width_def solid_def)
  then have "parse_size False ''9'' = Inr 9"
    by (simp add: parse_size_def size_parts_def strip_suffix_def ascii_upper_def parse_unsigned_def strip_plus_def is_digit_def
      less_eq_char_def digit_val_def)
  then have "\<exists>bc. ?run = (Inr bc, s')" using token(1)
    by (simp add: daemon_config_def demo_config_file_def daemon_token_path_def
      bindE_def returnE_def lift_result_def)
  then obtain bc where run: "?run = (Inr bc, s')" ..
  have "client_token_path ?env demo_config_file = daemon_token_path ?env demo_config_file" by code_simp
  from daemon_admin_closed [OF run this refl token(2)] run show ?thesis by blast
qed

section \<open>The lazy start\<close>

lemma dec_health_hello: "from_value (health_hello ver pid cwd token) = Some (Request (mk_request 1 ''session/hello''
    (JObj [(''client_info'', JObj [(''version'', JStr ver), (''pid'', enc_u32 pid), (''cwd'', JStr cwd)]),
      (''auth_token'', case token of Some t \<Rightarrow> JStr t | None \<Rightarrow> JNull)])))"
  by (simp add: health_hello_def from_value_def jget_def is_null_def dec_request_def mk_request_def codec_simps dec_id_def
    dec_u64_def as_u64_def dec_option_def dec_json_def scalar_codecs)

lemma dec_health_params: "dec_hello_params (JObj [(''client_info'', JObj [(''version'', JStr ver), (''pid'', enc_u32 pid), (''cwd'', JStr cwd)]),
      (''auth_token'', case token of Some t \<Rightarrow> JStr t | None \<Rightarrow> JNull)]) =
    Some \<lparr>hp_client_info = \<lparr>ci_harness = None, ci_version = ver, ci_pid = pid, ci_cwd = cwd\<rparr>, hp_auth_token = token\<rparr>"
  by (cases token) (simp_all add: dec_hello_params_def dec_client_info_def codec_simps dec_option_def scalar_codecs)

text \<open>What a broker answers to the health check's line, as the client reads it.\<close>

definition broker_answer :: "u64 \<Rightarrow> broker \<Rightarrow> json \<Rightarrow> health_io" where
  "broker_answer sid b v = HealthLine (case from_value v of
     Some (Request rq) \<Rightarrow> Some (to_line (Response (fst (handle_request sid rq b)))) | _ \<Rightarrow> None)"

definition admits :: "broker \<Rightarrow> string option \<Rightarrow> bool" where
  "admits b token \<longleftrightarrow> \<not> b_shutdown b \<and> (auth_token (b_cfg b) = None \<or> token = auth_token (b_cfg b))"

lemma health_verdict_answers:
  "health_verdict (to_line (Response (ok_response i (enc_hello_result ver sid)))) = Inr ()"
  "isl (health_verdict (to_line (Response (err_response i e))))"
  by (simp_all add: health_verdict_def enc_response_def ok_response_def err_response_def jget_def opt_field_def enc_hello_result_def as_str_def
    split: option.split)

lemma hello_answer: "fst (handle_request sid (mk_request 1 ''session/hello'' params) b) =
    (if b_shutdown b then err_response (IdNum 1) (to_error ShuttingDown ''broker is shutting down'')
     else case dec_hello_params params of
       None \<Rightarrow> err_response (IdNum 1) invalid_params
     | Some p \<Rightarrow> if auth_token (b_cfg b) \<noteq> None \<and> hp_auth_token p \<noteq> auth_token (b_cfg b)
         then err_response (IdNum 1) (to_error Unauthorized ''missing or invalid auth token'')
         else ok_response (IdNum 1) (enc_hello_result (version (b_cfg b)) sid))"
  by (auto simp: handle_request_def dispatch_def dispatch_method_def mk_request_def parse_def hello_def bindE_def getE_def modifyE_def
    returnE_def fail_def failE_def split: option.split)

lemma health_check_broker: "isl (health_check (broker_answer sid b (health_hello ver pid cwd token))) \<longleftrightarrow> \<not> admits b token"
  by (auto simp: broker_answer_def health_check_def dec_health_hello hello_answer dec_health_params admits_def health_verdict_answers
    simp del: to_line.simps)

lemma as_str_Some: "as_str j = Some x \<longleftrightarrow> j = JStr x"
  by (simp add: as_str_def split: json.split)

lemma health_check_ok: "\<not> isl (health_check io) \<Longrightarrow> \<exists>v result ver. io = HealthLine (Some v) \<and> jget ''error'' v = None \<and>
    jget ''result'' v = Some result \<and> jget ''broker_version'' result = Some (JStr ver)"
  by (auto simp: health_check_def health_verdict_def as_str_Some bind_eq_Some_conv split: health_io.splits option.splits)

lemma wait_ready_result: "wait_ready n polls io = (if True \<in> set (take n polls) then health_check io else Inl NotReady)"
  by (induction n polls io rule: wait_ready.induct) auto


definition demo_listener :: "health_io \<Rightarrow> start_io" where
  "demo_listener io = \<lparr>si_connects = False, si_spawns = True, si_polls = [False, True], si_health = io\<rparr>"


end
