(* ===== verification/Url_Guard.thy ===== *)
theory Url_Guard
  imports Rpc
begin

text \<open>
  The guard on self-reported app-server URLs (\<open>loopback_ws_url\<close>,
  \<open>crates/broker/src/core/rpc.rs\<close>): what it decides for an address written as a dotted quad,
  and a URL with user information that passes it.
\<close>

section \<open>Reading a dotted quad\<close>

lemma span_digits_all: "list_all P ds \<Longrightarrow> length ds \<le> n \<Longrightarrow> (\<And>c cs. rest = c # cs \<Longrightarrow> \<not> P c) \<Longrightarrow> span_digits P n (ds @ rest) = (ds, rest)"
proof (induction ds arbitrary: n)
  case Nil
  then show ?case by (cases rest) auto
qed auto

lemma digit_char_zero: "d < 10 \<Longrightarrow> digit_char d = CHR ''0'' \<longleftrightarrow> d = 0"
proof -
  assume "d < 10"
  moreover have "digit_char 0 = CHR ''0''" by code_simp
  ultimately show "digit_char d = CHR ''0'' \<longleftrightarrow> d = 0" using digit_val_char [of d] digit_val_char [of 0] by auto
qed

lemma show_octet:
  assumes "n < 256"
  shows "length (show_nat n) \<le> 3" and "hd (show_nat n) = CHR ''0'' \<Longrightarrow> length (show_nat n) = 1"
proof -
  consider "n < 10" | "10 \<le> n" "n < 100" | "100 \<le> n" by linarith
  then have "length (show_nat n) \<le> 3 \<and> (hd (show_nat n) = CHR ''0'' \<longrightarrow> length (show_nat n) = 1)"
  proof cases
    case 1
    then show ?thesis by (simp add: show_nat.simps [of n])
  next
    case 2
    then have "n div 10 < 10" "n div 10 \<noteq> 0" by auto
    with 2 show ?thesis by (simp add: show_nat.simps [of n] show_nat.simps [of "n div 10"] digit_char_zero)
  next
    case 3
    then have "n div 10 div 10 < 10" "n div 10 div 10 \<noteq> 0" "\<not> n div 10 < 10" using assms by auto
    with 3 show ?thesis
      by (simp add: show_nat.simps [of n] show_nat.simps [of "n div 10"] show_nat.simps [of "n div 10 div 10"] digit_char_zero)
  qed
  then show "length (show_nat n) \<le> 3" "hd (show_nat n) = CHR ''0'' \<Longrightarrow> length (show_nat n) = 1" by simp_all
qed

lemma read_octet_show:
  assumes "n < 256" and "\<And>c cs. rest = c # cs \<Longrightarrow> \<not> is_digit c"
  shows "read_octet (show_nat n @ rest) = Some (n, rest)"
proof -
  have "span_digits is_digit 3 (show_nat n @ rest) = (show_nat n, rest)"
    using show_nat_digits show_octet(1) [OF assms(1)] assms(2) by (rule span_digits_all)
  then show ?thesis using show_octet(2) [OF assms(1)] assms show_nat_nonempty [of n] digits_val_show [of n]
    by (auto simp: read_octet_def split: list.splits)
qed

text \<open>Four octets in decimal.\<close>

definition show_quad :: "nat list \<Rightarrow> string" where
  "show_quad a = join ''.'' (map show_nat a)"

lemma read_ipv4_show:
  assumes "list_all (\<lambda>n. n < 256) [a, b, c, d]"
  shows "read_ipv4 (show_quad [a, b, c, d]) = Some ([a, b, c, d], [])"
proof -
  have oct: "read_octet (show_nat n @ CHR ''.'' # r) = Some (n, CHR ''.'' # r)" if "n < 256" for n r
    using that by (rule read_octet_show) (auto simp: is_digit_def less_eq_char_def)
  moreover have "read_octet (show_nat d) = Some (d, [])" using read_octet_show [of d "[]"] assms by simp
  ultimately show ?thesis using assms by (simp add: show_quad_def read_ipv4_def read_char_def)
qed

lemma parse_quad: "list_all (\<lambda>n. n < 256) [a, b, c, d] \<Longrightarrow> parse_ip (show_quad [a, b, c, d]) = Some (V4 [a, b, c, d])"
  by (simp add: parse_ip_def read_ipv4_show)

lemma quad_chars: "set (show_quad a) \<subseteq> {c. is_digit c} \<union> {CHR ''.''}"
proof -
  have "set (join ''.'' xs) \<subseteq> (\<Union>x \<in> set xs. set x) \<union> {CHR ''.''}" for xs
    by (induction "''.''" xs rule: join.induct) auto
  moreover have "set (show_nat n) \<subseteq> {c. is_digit c}" for n using show_nat_digits [of n] by (auto simp: list_all_iff)
  ultimately show ?thesis unfolding show_quad_def by fastforce
qed

lemma quad_char: "\<not> is_digit c \<Longrightarrow> c \<noteq> CHR ''.'' \<Longrightarrow> c \<notin> set (show_quad a)"
  using quad_chars by blast

section \<open>The guard\<close>

lemma before_last_split: "c \<notin> set port \<Longrightarrow> before_last c (host @ c # port) = host"
  by (simp add: before_last_def dropWhile_append)

lemma quad_nonempty: "show_quad (n # ns) \<noteq> []" "is_digit (hd (show_quad (n # ns)))"
  using show_nat_nonempty [of n] show_nat_digits [of n]
  by (cases ns; cases "show_nat n"; simp add: show_quad_def)+

lemma url_host_named:
  assumes "CHR ''['' \<notin> set (take 1 host)" and "CHR '':'' \<notin> set port"
  shows "url_host (host @ CHR '':'' # port) = host"
proof -
  have "strip_prefix ''['' (host @ CHR '':'' # port) = None" using assms(1) by (cases host) simp_all
  then show ?thesis by (simp add: url_host_def before_last_split [OF assms(2)])
qed

lemma takeWhile_until: "c \<notin> set s \<Longrightarrow> takeWhile (\<lambda>d. d \<noteq> c) (s @ c # r) = s"
  by (induction s) auto

lemma authority_of: "CHR ''/'' \<notin> set s \<Longrightarrow> path = [] \<or> hd path = CHR ''/'' \<Longrightarrow> before_char (CHR ''/'') (s @ path) = s"
  by (cases path) (auto simp: before_char_def takeWhile_eq_all_conv intro: takeWhile_until)

text \<open>An app-server at an IPv4 address, with a port and perhaps a path, is dialable exactly when
  the address is in 127.0.0.0/8; \<open>localhost\<close> is, and nothing is that is not a \<open>ws:\<close> URL.\<close>

theorem loopback_guard_ipv4:
  assumes "list_all (\<lambda>n. n < 256) [a, b, c, d]" and "set port \<inter> {CHR '':'', CHR ''/''} = {}" and "path = [] \<or> hd path = CHR ''/''"
  shows "(loopback_ws_url (''ws://'' @ show_quad [a, b, c, d] @ '':'' @ port @ path) \<longleftrightarrow> a = 127) \<and>
    loopback_ws_url (''ws://localhost:'' @ port @ path) \<and> (\<forall>url. loopback_ws_url url \<longrightarrow> take 5 url = ''ws://'')"
proof (intro conjI allI impI)
  let ?quad = "show_quad [a, b, c, d]"
  have auth: "before_char (CHR ''/'') (host @ CHR '':'' # port @ path) = host @ CHR '':'' # port" if "CHR ''/'' \<notin> set host" for host
    using authority_of [of "host @ CHR '':'' # port" path] assms(2,3) that by simp
  have "CHR ''/'' \<notin> set ?quad" by (rule quad_char) (auto simp: is_digit_def less_eq_char_def)
  moreover have "CHR ''['' \<notin> set (take 1 ?quad)" using quad_char [of "CHR ''[''"] set_take_subset [of 1 ?quad]
    by (auto simp: is_digit_def less_eq_char_def)
  moreover have "?quad \<noteq> ''localhost''" using quad_nonempty(2) [of a "[b, c, d]"] by (auto simp: is_digit_def less_eq_char_def)
  ultimately show "loopback_ws_url (''ws://'' @ ?quad @ '':'' @ port @ path) \<longleftrightarrow> a = 127"
    using parse_quad [OF assms(1)] url_host_named [of ?quad port] assms(2) auth [of ?quad] by (simp add: loopback_ws_url_def)
  show "loopback_ws_url (''ws://localhost:'' @ port @ path)"
    using auth [of "''localhost''"] url_host_named [of "''localhost''" port] assms(2) by (simp add: loopback_ws_url_def)
  show "take 5 url = ''ws://''" if "loopback_ws_url url" for url
    using that by (auto simp: loopback_ws_url_def strip_prefix_Some split: option.splits)
qed

theorem loopback_guard_ipv4_witness: "\<not> loopback_ws_url ''ws://10.0.0.127:9701/x''"
proof -
  have "show_quad [10, 0, 0, 127] = ''10.0.0.127''" by code_simp
  then show ?thesis using loopback_guard_ipv4 [of 10 0 0 127 "''9701''" "''/x''"] by simp
qed

text \<open>User information before an \<open>@\<close> is taken for the host.\<close>

lemma guard_accepts_user_info: "loopback_ws_url ''ws://localhost:x@evil.example/''"
  by code_simp

end
