(* ===== verification/Spec2Isabelle.thy ===== *)
theory Spec2Isabelle
  imports Store_Properties Attach_Concurrent Session_Queue Broker_Properties Broker_Findings
    Codex_Delivery Lifetime Supervisor Shim_Properties Tui_Properties Cli Url_Guard
begin

text \<open>
  AgentWorkplace is a local message bus for coding agents and the person who manages them. A
  daemon, the broker, keeps channels, principals, subscriptions and one append-only log in a
  SQLite database and serves newline-delimited JSON-RPC over TCP. Agents take part through
  adapters: a shim that Claude Code spawns as an MCP server, and, for Codex, deliveries the
  broker itself injects into a thread of a shared app-server. The manager uses a terminal
  client. This library models these programs and proves what they promise.

  \<^bold>\<open>Parts and theories.\<close> Source paths are under \<open>src/crates\<close>.

  \<^item> \<open>Prelude\<close>, \<open>Json\<close>, \<open>Utf8\<close>, \<open>Strings\<close>, \<open>Net_Addr\<close>: the error-and-state monad in which every
    fallible operation is written, the calculus that carries a relation through such
    programs, JSON values with the \<open>codec\<close> locale, and the functions of Rust's standard
    library the code relies on (UTF-8 validity, trimming and splitting, numbers, addresses).
  \<^item> \<open>Protocol\<close> (\<open>protocol/src/lib.rs\<close>): messages, errors, method names, records, names,
    parameters and results, with what serde derives as encoders and decoders;
    \<open>Protocol_Codecs\<close> proves the round trips and interprets \<open>codec\<close> on them.
  \<^item> \<open>Store\<close> (\<open>broker/src/store.rs\<close>): the tables, statements that may fail one by one,
    transactions, every operation. \<open>Store_Spec\<close> states each operation's effect on the tables
    and its precondition, \<open>Store_Runs\<close> and \<open>Store_Laws\<close> relate the two, \<open>Store_Integrity\<close> has
    the invariants, \<open>Store_Properties\<close> the claims.
  \<^item> \<open>Core\<close>, \<open>Rpc\<close>, \<open>Server\<close> (\<open>broker/src/core.rs\<close>, \<open>core/rpc.rs\<close>, \<open>server.rs\<close>): the session
    registry with its bounded outbound queues, watching, acknowledgments and delivery tasks;
    every request handler with its guards in the code's order; the line reader and the
    connection loop. \<open>Broker_Steps\<close> makes one step relation of them, \<open>Broker_Laws\<close> and
    \<open>Sending\<close> carry the invariants and the send path, \<open>Broker_Demo\<close> is a concrete run,
    \<open>Broker_Properties\<close> and \<open>Session_Queue\<close> hold the claims, \<open>Broker_Findings\<close> and \<open>Url_Guard\<close>
    runs that show where the code does not do what it means to, and the guard on app-server
    URLs.
  \<^item> \<open>Codex_Delivery\<close> follows one delivery to a Codex recipient through its rounds: the task of
    \<open>Core\<close> is cut at its awaits (the check of the session, the dial, the injection by \<open>Attach\<close>,
    the outcome with its back-off), and anything may happen to the broker in between.
    \<open>Lifetime\<close> follows one database through the brokers that open it one after the other, each
    until it is killed at any point of its work on the store.
  \<^item> \<open>Attach\<close> (\<open>adapter-codex/src/attach.rs\<close>): a delivery into a Codex thread against an
    app-server that may answer anything; \<open>Attach_Safety\<close> its claims. \<open>Attach_Machine\<close> cuts
    the delivery at its await points and proves the cut machine equal to it; \<open>Attach_Client\<close>
    is the client that concurrent deliveries share, with its call ids, calls in flight and
    lock per thread, as a step relation; \<open>Attach_Concurrent\<close> its invariants and claim.
  \<^item> \<open>Shim\<close> (\<open>shim-claude/src/lib.rs\<close>): the MCP server and the broker link as one state with
    events; \<open>Shim_Properties\<close> its claims, one of them across the shim and the broker.
  \<^item> \<open>Config\<close> (\<open>workplace/src/config.rs\<close>): configuration, the admin credential over a file
    system whose every call may fail, sizes, endpoints.
  \<^item> \<open>Supervisor\<close> (\<open>workplace/src/codex_supervisor.rs\<close>): the supervision of the app-server.
  \<^item> \<open>Tui\<close> (\<open>workplace/src/tui.rs\<close>): commands, keys, calls, answers, what is shown, the event
    loop; \<open>Tui_Properties\<close> its claims, one of them against the broker's dispatcher.
  \<^item> \<open>Cli\<close> (\<open>workplace/src/main.rs\<close>): the subcommands from the loaded configuration to what each
    goes on to run: the daemon's configuration, the shim's, the lazy start and its health check
    against the broker, the client's wait for the credential.

  \<^bold>\<open>State.\<close> A Rust struct is a record, an enum a datatype; a 64-bit or 32-bit integer is a word.
  A mutex-protected map is an association list or a map inside one state value; a handler is a
  function of that state, and the interleaving of tasks is a sequence of events or steps.
  Strings are lists of bytes (UTF-8), as Rust measures and orders them. An error is a value
  of a sum type, and every early return of the code is a branch.

  \<^bold>\<open>What the claims show.\<close> C1, C2, C10 to C20: the store refines its specification, whatever
  statement fails; it survives restarts; its integrity, the log's append-only order, the
  subscription policy of the manager, the life cycle of acknowledgments, history paging. C3,
  C21: a Codex delivery injects at most once and ends; C4: concurrent deliveries into one
  thread never mix, no call gets another's answer, and each still injects at most once; C5:
  nor does a delivery inject twice over all the broker's rounds. C6 to C9, C24 to C27:
  sending, sessions, gates, queues, the line reader. C22, C23: the wire format. C28 to C30:
  tool calls of the shim, its identity, a delivery end to end. C31, C32 and C39: credentials,
  start of the daemon. C33 to C35, C40: the terminal client. C36 to C38: the supervisor.

  \<^bold>\<open>Termination and bounds.\<close> Recursion over data is structural or has a measure. The loops of a
  Codex delivery recur on the model's clock, which every call and sleep advances and whose
  deadline bounds them (C20). The supervisor's and the clients' endless loops are functions
  of the finite sequence of what has happened so far; their claims hold for every sequence.
  The lazy start tries 50 times and the credential is read at most 21 times, as in the code.
  There is no other fuel.

  \<^bold>\<open>Parameters.\<close> The parser and printer of JSON and TOML text, name lookup, local time, the row
  count of wrapped text and the outcomes of sockets, processes, the file system and the random
  source are arguments or inputs; the claims hold for all of them.

  \<^bold>\<open>Not modelled.\<close> SQLite beyond the schema's constraints, rowids and atomic commit; sockets and
  WebSockets themselves (whether they open is an input); the async runtime's scheduler and its
  fairness (a step is what a task does between two await points, in any order); drawing; argument parsing, shell
  completion scripts, signals and log messages; the branches compiled for Windows; memory
  exhaustion.
\<close>

end
